(* ===== verification/Prelude.thy ===== *)
theory Prelude imports Complex_Main "HOL-Library.List_Lexorder" "HOL-Library.Char_ord" "HOL-Library.Product_Lexorder" "HOL-Library.Multiset" begin

text \<open>
  What every component shares: the reading of Go's scalar types, the reachability of a
  step relation with the locale of its invariants, the interface of a keyed store, and
  generic facts on sorted and filtered lists.

  Go \<open>string\<close> is a byte string, the Isabelle type \<open>string\<close>. \<open>time.Time\<close> is an
  \<open>int\<close> of nanoseconds; \<open>time.Duration\<close> is an \<open>int\<close> in the signed 64-bit range, and
  \<open>Time.Sub\<close> saturates as Go's does. A nullable column (\<open>pgtype\<close> with \<open>Valid\<close>) is an
  \<open>option\<close>.
\<close>

section \<open>Collections of facts\<close>

named_theorems inv_intros \<open>preservation of a component's invariant by one operation\<close>
named_theorems frame_simps \<open>what an operation leaves unchanged\<close>

section \<open>Time\<close>

type_synonym gotime = int
type_synonym duration = int

definition max_duration :: duration where
  "max_duration = 9223372036854775807"

definition min_duration :: duration where
  "min_duration = - 9223372036854775808"

definition second :: duration where
  "second = 1000000000"

definition minute :: duration where
  "minute = 60000000000"

definition hour :: duration where
  "hour = 3600000000000"

text \<open>\<open>t.Sub(u)\<close>, saturating at the bounds of \<open>Duration\<close>.\<close>

definition time_sub :: "gotime \<Rightarrow> gotime \<Rightarrow> duration" where
  "time_sub t u = max min_duration (min max_duration (t - u))"

lemma time_sub_exact:
  "\<bar>t - u\<bar> \<le> max_duration \<Longrightarrow> time_sub t u = t - u"
  by (simp add: time_sub_def max_duration_def min_duration_def)

lemma time_sub_nonneg: "u \<le> t \<Longrightarrow> 0 \<le> time_sub t u"
  by (simp add: time_sub_def max_duration_def min_duration_def)

lemma time_sub_self [simp]: "time_sub t t = 0"
  by (simp add: time_sub_def max_duration_def min_duration_def)

lemma time_sub_bounds: "min_duration \<le> time_sub t u \<and> time_sub t u \<le> max_duration"
  by (simp add: time_sub_def max_duration_def min_duration_def)

lemma time_sub_less:
  "w \<le> max_duration \<Longrightarrow> min_duration < w \<Longrightarrow> time_sub t u < w \<longleftrightarrow> t - u < w"
  by (auto simp: time_sub_def max_duration_def min_duration_def)

lemma time_sub_gt:
  "w < max_duration \<Longrightarrow> min_duration \<le> w \<Longrightarrow> w < time_sub t u \<longleftrightarrow> w < t - u"
  by (auto simp: time_sub_def max_duration_def min_duration_def)

section \<open>Integer conversions\<close>

text \<open>\<open>int32(x)\<close>: the low 32 bits read as two's complement.\<close>

definition to_int32 :: "int \<Rightarrow> int" where
  "to_int32 x = (x + 2147483648) mod 4294967296 - 2147483648"

lemma to_int32_id: "- 2147483648 \<le> x \<Longrightarrow> x < 2147483648 \<Longrightarrow> to_int32 x = x"
  by (simp add: to_int32_def)

text \<open>The same on 64 bits: \<open>int\<close>, \<open>int64\<close> and \<open>time.Duration\<close> arithmetic.\<close>

definition to_int64 :: "int \<Rightarrow> int" where
  "to_int64 x = (x + 9223372036854775808) mod 18446744073709551616 - 9223372036854775808"

lemma to_int64_id: "- 9223372036854775808 \<le> x \<Longrightarrow> x < 9223372036854775808 \<Longrightarrow> to_int64 x = x"
  by (simp add: to_int64_def)

lemma to_int64_bounds: "- (2 ^ 63) \<le> to_int64 x \<and> to_int64 x < 2 ^ 63"
  using pos_mod_bound [of 18446744073709551616 "x + 9223372036854775808"]
    pos_mod_sign [of 18446744073709551616 "x + 9223372036854775808"]
  by (simp add: to_int64_def)

text \<open>Integer division truncates towards zero.\<close>

definition go_div :: "int \<Rightarrow> int \<Rightarrow> int" where
  "go_div a b = (if 0 \<le> a * b then \<bar>a\<bar> div \<bar>b\<bar> else - (\<bar>a\<bar> div \<bar>b\<bar>))"

lemma go_div_nonneg: "0 \<le> a \<Longrightarrow> 0 < b \<Longrightarrow> go_div a b = a div b"
  by (simp add: go_div_def)

text \<open>\<open>time.Duration(x * float64(time.Second))\<close>: truncation towards zero.\<close>

definition trunc :: "real \<Rightarrow> int" where
  "trunc x = (if 0 \<le> x then \<lfloor>x\<rfloor> else \<lceil>x\<rceil>)"

definition dur_seconds :: "real \<Rightarrow> duration" where
  "dur_seconds x = trunc (x * real_of_int second)"

text \<open>The zero \<open>time.Time\<close>: January 1 of year 1.\<close>

definition zero_time :: gotime where
  "zero_time = - 62135596800000000000"

text \<open>\<open>COALESCE\<close> of SQL on two nullable values.\<close>

definition sql_coalesce :: "'a option \<Rightarrow> 'a option \<Rightarrow> 'a option" where
  "sql_coalesce a b = (case a of None \<Rightarrow> b | Some x \<Rightarrow> Some x)"

section \<open>Reachable states and their invariants\<close>

inductive reach :: "('s \<Rightarrow> bool) \<Rightarrow> ('s \<Rightarrow> 's \<Rightarrow> bool) \<Rightarrow> 's \<Rightarrow> bool"
  for init :: "'s \<Rightarrow> bool" and step :: "'s \<Rightarrow> 's \<Rightarrow> bool" where
  reach_init: "init s \<Longrightarrow> reach init step s"
| reach_step: "reach init step s \<Longrightarrow> step s t \<Longrightarrow> reach init step t"

text \<open>
  The contract of an invariant: it holds at the start and every step keeps it. A client
  that has discharged the two laws for its own step relation may use it of every
  reachable state, and of the end of every run of steps.
\<close>

locale step_invariant =
  fixes init :: "'s \<Rightarrow> bool"
    and step :: "'s \<Rightarrow> 's \<Rightarrow> bool"
    and invar :: "'s \<Rightarrow> bool"
  assumes start: "init s \<Longrightarrow> invar s"
    and preserve: "invar s \<Longrightarrow> step s t \<Longrightarrow> invar t"
begin

lemma reachable: "reach init step s \<Longrightarrow> invar s"
  by (induction rule: reach.induct) (auto intro: start preserve)

lemma run: "step\<^sup>*\<^sup>* s t \<Longrightarrow> invar s \<Longrightarrow> invar t"
  by (induction rule: rtranclp_induct) (auto intro: preserve)

end

section \<open>Keyed stores\<close>

text \<open>
  What the clients of a table with one value per key rely on: a write is read back under its
  key and disturbs no other key; the extended interface can also remove an entry.
\<close>

locale keyed_store =
  fixes look :: "'s \<Rightarrow> 'k \<Rightarrow> 'v option"
    and put :: "'k \<Rightarrow> 'v \<Rightarrow> 's \<Rightarrow> 's"
  assumes look_put_same: "look (put k v s) k = Some v"
    and look_put_other: "k' \<noteq> k \<Longrightarrow> look (put k v s) k' = look s k'"
begin

lemma look_put: "look (put k v s) k' = (if k' = k then Some v else look s k')"
  by (simp add: look_put_same look_put_other)

lemma last_write_wins:
  "look (fold (\<lambda>(k, v). put k v) kvs s) k = (case map_of (rev kvs) k of None \<Rightarrow> look s k | Some v \<Rightarrow> Some v)"
  by (induction kvs arbitrary: s) (auto simp: look_put map_add_def split: option.splits)

end

locale keyed_store_del = keyed_store look put
  for look :: "'s \<Rightarrow> 'k \<Rightarrow> 'v option" and put :: "'k \<Rightarrow> 'v \<Rightarrow> 's \<Rightarrow> 's" +
  fixes del :: "'k \<Rightarrow> 's \<Rightarrow> 's"
  assumes look_del_same: "look (del k s) k = None"
    and look_del_other: "k' \<noteq> k \<Longrightarrow> look (del k s) k' = look s k'"
begin

lemma look_del: "look (del k s) k' = (if k' = k then None else look s k')"
  by (simp add: look_del_same look_del_other)

lemma put_del_fresh: "look s k = None \<Longrightarrow> look (del k (put k v s)) k' = look s k'"
  by (simp add: look_del look_put)

end

section \<open>Lists\<close>

text \<open>
  In a list whose keys strictly increase, the elements with a key above that of the
  \<open>n\<close>-th element are the ones after it: what makes a keyset cursor (\<open>WHERE name > $after
  ORDER BY name\<close>) resume exactly where it stopped.
\<close>

lemma filter_after_nth:
  assumes "sorted_wrt R xs" and "n < length xs" and "\<And>x y. R x y \<Longrightarrow> \<not> R y x"
  shows "filter (R (xs ! n)) xs = drop (Suc n) xs"
  using assms(1,2)
proof (induction xs arbitrary: n)
  case Nil
  then show ?case by simp
next
  case (Cons a xs)
  show ?case
  proof (cases n)
    case 0
    with Cons.prems assms(3) [of a a] show ?thesis by (auto simp: filter_id_conv)
  next
    case (Suc m)
    with Cons.prems have "m < length xs" and "R a (xs ! m)" by auto
    with Suc Cons assms(3) show ?thesis by auto
  qed
qed

lemma sorted_fst_key: "sorted (map (\<lambda>x. (f x, g x)) xs) \<Longrightarrow> sorted (map f xs)"
  by (induction xs) auto

lemma sorted_wrt_strict_mono:
  assumes "sorted (map f xs)" and "distinct (map f xs)"
  shows "sorted_wrt (\<lambda>x y. f x < (f y :: 'k :: linorder)) xs"
  using assms by (simp add: strict_sorted_iff flip: sorted_wrt_map)

lemma find_Some_mem: "find P xs = Some x \<Longrightarrow> x \<in> set xs \<and> P x"
  by (auto simp: find_Some_iff)

lemma find_None_set: "find P xs = None \<longleftrightarrow> (\<forall>x \<in> set xs. \<not> P x)"
  by (auto simp: find_None_iff)

lemma sorted_hd_le_last: "sorted (map f xs) \<Longrightarrow> xs \<noteq> [] \<Longrightarrow> f (hd xs) \<le> f (last xs)"
  by (cases xs) auto

lemma bex_map: "(\<exists>x \<in> set (map f xs). P x) \<longleftrightarrow> (\<exists>x \<in> set xs. P (f x))"
  by auto

lemma map_filter_same: "(\<And>x. x \<in> set xs \<Longrightarrow> f x = g x) \<Longrightarrow> List.map_filter f xs = List.map_filter g xs"
  by (induction xs) (auto simp: map_filter_simps split: option.splits)

lemma map_filter_guard: "List.map_filter (\<lambda>x. if P x then Some (f x) else None) xs = map f (filter P xs)"
  by (induction xs) (simp_all add: map_filter_simps)

lemma bex_set_nth: "(\<exists>x \<in> set xs. P x) \<longleftrightarrow> (\<exists>i < length xs. P (xs ! i))"
  by (auto simp: set_conv_nth)

lemma find_app: "find P (xs @ ys) = (case find P xs of None \<Rightarrow> find P ys | Some x \<Rightarrow> Some x)"
  by (induction xs) auto

end
