(* ===== verification/RouteTable.thy ===== *)
theory RouteTable imports Prelude begin

text \<open>
  The rows of the \<open>routes\<close> table (\<open>internal/db/models.go\<close>, type \<open>Route\<close>) in the
  columns the modelled queries read, with the table's uniqueness constraint
  \<open>UNIQUE (dongle_id, route_name)\<close> and its primary key as a well-formedness predicate.
\<close>

record route =
  r_id :: int
  r_dongle :: string
  r_name :: string
  r_start :: "gotime option"
  r_end :: "gotime option"
  r_created :: gotime
  r_preserved :: bool

definition routes_wf :: "route list \<Rightarrow> bool" where
  "routes_wf rs \<longleftrightarrow> distinct (map r_id rs) \<and> distinct (map (\<lambda>r. (r_dongle r, r_name r)) rs)"

end
