(* ===== verification/BackfillDb.thy ===== *)
theory BackfillDb imports RouteTable begin

text \<open>
  The table \<open>alpr_backfill_jobs\<close> and the statements of
  \<open>internal/db/alpr_backfill_jobs.sql.go\<close>: the rows in insertion order, the \<open>BIGSERIAL\<close>
  counter, and the partial unique index that admits one row in state \<open>running\<close>. Text
  comparison on route names is the byte order (collation \<open>C\<close>).
\<close>

section \<open>Rows\<close>

text \<open>The \<open>state\<close> column under its \<open>CHECK\<close> constraint.\<close>

datatype bf_state = Queued | Running | Paused | Done | Failed

text \<open>
  The start request's filters, the struct the API marshals into \<open>filters_json\<close> and the
  worker decodes.
\<close>

record bf_filters =
  f_from :: "gotime option"
  f_to :: "gotime option"
  f_dongle :: string
  f_max :: int
  f_newest :: bool

definition no_filters :: bf_filters where
  "no_filters = \<lparr>f_from = None, f_to = None, f_dongle = [], f_max = 0, f_newest = False\<rparr>"

text \<open>The column \<open>filters_json\<close>, up to what \<open>json.Unmarshal\<close> makes of its bytes.\<close>

datatype filters_blob = EmptyBlob | JsonBlob bf_filters | MalformedBlob

record job =
  j_id :: int
  j_started :: gotime
  j_finished :: "gotime option"
  j_state :: bf_state
  j_filters :: filters_blob
  j_total :: "int option"
  j_processed :: int
  j_last :: "string option"
  j_error :: "string option"
  j_by :: "string option"

record bf_db =
  d_jobs :: "job list"
  d_next :: int
  d_routes :: "route list"

datatype db_error = NoRows | UniqueViolation | Transport

section \<open>Statements\<close>

text \<open>\<open>GetBackfillJob\<close> and \<open>GetRunningBackfillJob\<close>.\<close>

definition get_job :: "bf_db \<Rightarrow> int \<Rightarrow> db_error + job" where
  "get_job d i = (case find (\<lambda>j. j_id j = i) (d_jobs d) of None \<Rightarrow> Inl NoRows | Some j \<Rightarrow> Inr j)"

definition get_running :: "bf_db \<Rightarrow> db_error + job" where
  "get_running d = (case find (\<lambda>j. j_state j = Running) (d_jobs d) of None \<Rightarrow> Inl NoRows | Some j \<Rightarrow> Inr j)"

text \<open>\<open>GetLatestBackfillJob\<close>: \<open>ORDER BY started_at DESC, id DESC LIMIT 1\<close>.\<close>

definition newer :: "job \<Rightarrow> job \<Rightarrow> bool" where
  "newer a b \<longleftrightarrow> j_started b < j_started a \<or> (j_started a = j_started b \<and> j_id b < j_id a)"

fun latest_of :: "job list \<Rightarrow> job option" where
  "latest_of [] = None"
| "latest_of (j # js) =
     (case latest_of js of None \<Rightarrow> Some j | Some k \<Rightarrow> Some (if newer k j then k else j))"

definition get_latest :: "bf_db \<Rightarrow> db_error + job" where
  "get_latest d = (case latest_of (d_jobs d) of None \<Rightarrow> Inl NoRows | Some j \<Rightarrow> Inr j)"

text \<open>\<open>InsertBackfillJob\<close>: \<open>started_at\<close> defaults to \<open>now()\<close>.\<close>

definition insert_job ::
  "bf_db \<Rightarrow> bf_state \<Rightarrow> filters_blob \<Rightarrow> int option \<Rightarrow> string option \<Rightarrow> gotime \<Rightarrow> db_error + job \<times> bf_db" where
  "insert_job d st fb tot by now =
     (if st = Running \<and> (\<exists>j \<in> set (d_jobs d). j_state j = Running) then Inl UniqueViolation
      else
        (let j = \<lparr>j_id = d_next d, j_started = now, j_finished = None, j_state = st, j_filters = fb,
                  j_total = tot, j_processed = 0, j_last = None, j_error = None, j_by = by\<rparr>
         in Inr (j, d\<lparr>d_jobs := d_jobs d @ [j], d_next := d_next d + 1\<rparr>)))"

text \<open>
  \<open>UpdateBackfillJobState\<close>: a NULL \<open>finished_at\<close> or \<open>error_text\<close> leaves the column as it
  is (\<open>COALESCE\<close>), and the update fails on the index when another row is \<open>running\<close>.
\<close>

definition coalesce :: "'a option \<Rightarrow> 'a option \<Rightarrow> 'a option" where
  "coalesce a b = (case a of None \<Rightarrow> b | Some x \<Rightarrow> Some x)"

definition update_row :: "bf_state \<Rightarrow> gotime option \<Rightarrow> string option \<Rightarrow> job \<Rightarrow> job" where
  "update_row st fin err j =
     j\<lparr>j_state := st, j_finished := coalesce fin (j_finished j), j_error := coalesce err (j_error j)\<rparr>"

definition update_state ::
  "bf_db \<Rightarrow> int \<Rightarrow> bf_state \<Rightarrow> gotime option \<Rightarrow> string option \<Rightarrow> db_error + bf_db" where
  "update_state d i st fin err =
     (if st = Running \<and> (\<exists>j \<in> set (d_jobs d). j_id j = i)
         \<and> (\<exists>j \<in> set (d_jobs d). j_state j = Running \<and> j_id j \<noteq> i)
      then Inl UniqueViolation
      else Inr (d\<lparr>d_jobs := map (\<lambda>j. if j_id j = i then update_row st fin err j else j) (d_jobs d)\<rparr>))"

text \<open>\<open>IncrementBackfillJobProgress\<close>: counter and resume token in one statement.\<close>

definition increment_progress :: "bf_db \<Rightarrow> int \<Rightarrow> string \<Rightarrow> bf_db" where
  "increment_progress d i name =
     d\<lparr>d_jobs := map (\<lambda>j. if j_id j = i
        then j\<lparr>j_processed := j_processed j + 1, j_last := Some name\<rparr> else j) (d_jobs d)\<rparr>"

text \<open>
  The common \<open>WHERE\<close> clause of \<open>CountBackfillRoutes\<close> and the two \<open>ListBackfillRoutes\<close>
  queries. A comparison with a NULL \<open>start_time\<close> does not hold.
\<close>

definition opt_ge :: "gotime option \<Rightarrow> gotime option \<Rightarrow> bool" where
  "opt_ge x b = (case b of None \<Rightarrow> True | Some v \<Rightarrow> (case x of None \<Rightarrow> False | Some t \<Rightarrow> v \<le> t))"

definition opt_lt :: "gotime option \<Rightarrow> gotime option \<Rightarrow> bool" where
  "opt_lt x b = (case b of None \<Rightarrow> True | Some v \<Rightarrow> (case x of None \<Rightarrow> False | Some t \<Rightarrow> t < v))"

record route_params =
  p_from :: "gotime option"
  p_to :: "gotime option"
  p_dongle :: "string option"
  p_after :: "string option"

definition route_base_match :: "route_params \<Rightarrow> route \<Rightarrow> bool" where
  "route_base_match p r \<longleftrightarrow> opt_ge (r_start r) (p_from p) \<and> opt_lt (r_start r) (p_to p)
     \<and> (case p_dongle p of None \<Rightarrow> True | Some x \<Rightarrow> r_dongle r = x)"

definition count_routes :: "bf_db \<Rightarrow> route_params \<Rightarrow> int" where
  "count_routes d p = int (length (filter
     (\<lambda>r. route_base_match p r \<and> (case p_after p of None \<Rightarrow> True | Some a \<Rightarrow> a < r_name r)) (d_routes d)))"

definition list_routes_asc :: "bf_db \<Rightarrow> route_params \<Rightarrow> nat \<Rightarrow> route list" where
  "list_routes_asc d p limit = take limit (sort_key (\<lambda>r. (r_name r, r_id r)) (filter
     (\<lambda>r. route_base_match p r \<and> (case p_after p of None \<Rightarrow> True | Some a \<Rightarrow> a < r_name r)) (d_routes d)))"

definition list_routes_desc :: "bf_db \<Rightarrow> route_params \<Rightarrow> nat \<Rightarrow> route list" where
  "list_routes_desc d p limit = take limit (rev (sort_key (\<lambda>r. (r_name r, r_id r)) (filter
     (\<lambda>r. route_base_match p r \<and> (case p_after p of None \<Rightarrow> True | Some a \<Rightarrow> r_name r < a)) (d_routes d))))"

section \<open>The table's invariant\<close>

text \<open>
  Primary keys are distinct and below the serial counter, and at most one row is
  \<open>running\<close>.
\<close>

definition running_ids :: "bf_db \<Rightarrow> int list" where
  "running_ids d = map j_id (filter (\<lambda>j. j_state j = Running) (d_jobs d))"

definition jobs_wf :: "bf_db \<Rightarrow> bool" where
  "jobs_wf d \<longleftrightarrow> distinct (map j_id (d_jobs d)) \<and> (\<forall>j \<in> set (d_jobs d). j_id j < d_next d)
     \<and> length (running_ids d) \<le> 1"

lemma jobs_wfD:
  assumes "jobs_wf d"
  shows "distinct (map j_id (d_jobs d))" and "\<And>j. j \<in> set (d_jobs d) \<Longrightarrow> j_id j < d_next d"
    and "length (running_ids d) \<le> 1"
  using assms by (auto simp: jobs_wf_def)

lemma length_filter_le1:
  assumes "distinct (map f xs)" and "\<And>x y. x \<in> set xs \<Longrightarrow> y \<in> set xs \<Longrightarrow> P x \<Longrightarrow> P y \<Longrightarrow> f x = f y"
  shows "length (filter P xs) \<le> 1"
  using assms
proof (induction xs)
  case Nil
  then show ?case by simp
next
  case (Cons a xs)
  have IH: "length (filter P xs) \<le> 1" by (rule Cons.IH) (use Cons.prems in auto)
  show ?case
  proof (cases "P a")
    case True
    with Cons.prems have "\<forall>x \<in> set xs. \<not> P x" by (metis distinct.simps(2) image_eqI list.set_intros list.set_map list.simps(9))
    with True show ?thesis by simp
  next
    case False
    with IH show ?thesis by simp
  qed
qed

lemma running_unique:
  assumes "jobs_wf d" and "j \<in> set (d_jobs d)" and "k \<in> set (d_jobs d)"
    and "j_state j = Running" and "j_state k = Running"
  shows "j = k"
proof -
  have "length (filter (\<lambda>j. j_state j = Running) (d_jobs d)) \<le> 1"
    using assms(1) by (simp add: jobs_wf_def running_ids_def)
  moreover have "j \<in> set (filter (\<lambda>j. j_state j = Running) (d_jobs d))"
    and "k \<in> set (filter (\<lambda>j. j_state j = Running) (d_jobs d))"
    using assms by auto
  ultimately show ?thesis
    by (cases "filter (\<lambda>j. j_state j = Running) (d_jobs d)") auto
qed

lemma insert_job_wf [inv_intros]:
  assumes "jobs_wf d" and "insert_job d st fb tot by now = Inr (j, d')"
  shows "jobs_wf d'"
  using assms by (force simp: insert_job_def jobs_wf_def running_ids_def Let_def filter_empty_conv
      split: if_splits)

lemma map_j_id_update [simp]:
  "map j_id (map (\<lambda>j. if j_id j = i then update_row st fin err j else j) js) = map j_id js"
  by (induction js) (auto simp: update_row_def)

lemma update_state_wf [inv_intros]:
  assumes "jobs_wf d" and "update_state d i st fin err = Inr d'"
  shows "jobs_wf d'"
proof -
  let ?f = "\<lambda>j. if j_id j = i then update_row st fin err j else j"
  have jobs: "d_jobs d' = map ?f (d_jobs d)" and nxt: "d_next d' = d_next d"
    using assms(2) by (auto simp: update_state_def split: if_splits)
  have ids: "map j_id (d_jobs d') = map j_id (d_jobs d)"
    by (simp only: jobs map_j_id_update)
  have "length (filter (\<lambda>j. j_state j = Running) (d_jobs d')) \<le> 1"
  proof (rule length_filter_le1 [where f = j_id])
    show "distinct (map j_id (d_jobs d'))" using ids assms(1) by (simp add: jobs_wf_def)
  next
    fix x y assume "x \<in> set (d_jobs d')" "y \<in> set (d_jobs d')" and r: "j_state x = Running" "j_state y = Running"
    then obtain a b where a: "a \<in> set (d_jobs d)" "x = ?f a" and b: "b \<in> set (d_jobs d)" "y = ?f b"
      by (auto simp only: jobs set_map)
    have same: "j_id x = j_id a" "j_id y = j_id b" by (auto simp: a b update_row_def)
    show "j_id x = j_id y"
    proof (cases "j_id a = i \<longleftrightarrow> j_id b = i")
      case True
      then show ?thesis
        using a b r running_unique [OF assms(1) a(1) b(1)] same by (auto split: if_splits)
    next
      case False
      then show ?thesis
        using a b r assms(2) by (auto simp: update_state_def update_row_def split: if_splits)
    qed
  qed
  moreover have "\<forall>j \<in> set (d_jobs d'). j_id j < d_next d'"
  proof
    fix j assume "j \<in> set (d_jobs d')"
    then have "j_id j \<in> set (map j_id (d_jobs d))" by (metis ids image_eqI list.set_map)
    then show "j_id j < d_next d'" using assms(1) nxt by (auto simp: jobs_wf_def)
  qed
  ultimately show ?thesis using ids assms(1) by (simp add: jobs_wf_def running_ids_def)
qed

lemma increment_wf [inv_intros]:
  assumes "jobs_wf d"
  shows "jobs_wf (increment_progress d i name)"
proof -
  let ?f = "\<lambda>j. if j_id j = i then j\<lparr>j_processed := j_processed j + 1, j_last := Some name\<rparr> else j"
  have "map j_id (map ?f js) = map j_id js" for js :: "job list"
    by (induction js) auto
  moreover have "length (filter (\<lambda>j. j_state j = Running) (map ?f js))
      = length (filter (\<lambda>j. j_state j = Running) js)" for js :: "job list"
    by (induction js) auto
  ultimately show ?thesis
    using assms unfolding jobs_wf_def increment_progress_def running_ids_def
    by (simp del: map_map) auto
qed

section \<open>Facts on the reads\<close>

lemma get_job_mem: "get_job d i = Inr j \<Longrightarrow> j \<in> set (d_jobs d) \<and> j_id j = i"
  by (auto simp: get_job_def split: option.splits dest: find_Some_mem)

lemma get_running_mem: "get_running d = Inr j \<Longrightarrow> j \<in> set (d_jobs d) \<and> j_state j = Running"
  by (auto simp: get_running_def split: option.splits dest: find_Some_mem)

lemma get_running_none:
  "get_running d = Inl e \<longleftrightarrow> e = NoRows \<and> (\<forall>j \<in> set (d_jobs d). j_state j \<noteq> Running)"
  by (auto simp: get_running_def find_None_set split: option.splits dest: find_Some_mem)

lemma latest_of_None [simp]: "latest_of js = None \<longleftrightarrow> js = []"
  by (cases js) (auto split: option.splits)

lemma latest_of_mem: "latest_of js = Some j \<Longrightarrow> j \<in> set js"
  by (induction js arbitrary: j) (auto split: option.splits if_splits)

lemma newer_key: "newer a b \<longleftrightarrow> (j_started b, j_id b) < (j_started a, j_id a)"
  by (auto simp: newer_def)

lemma newer_asym: "newer a b \<Longrightarrow> \<not> newer b a"
  by (simp only: newer_key not_less less_imp_le)

lemma not_newer_trans: "\<not> newer k b \<Longrightarrow> \<not> newer b a \<Longrightarrow> \<not> newer k a"
  unfolding newer_key not_less by (rule order.trans)

lemma newer_total: "j_id a \<noteq> j_id b \<Longrightarrow> newer a b \<or> newer b a"
  by (auto simp: newer_def)

lemma latest_of_newest:
  "latest_of js = Some j \<Longrightarrow> k \<in> set js \<Longrightarrow> \<not> newer k j"
proof (induction js arbitrary: j)
  case Nil
  then show ?case by simp
next
  case (Cons a js)
  show ?case
  proof (cases "latest_of js")
    case None
    with Cons.prems show ?thesis by (simp add: newer_def)
  next
    case (Some b)
    with Cons.prems have j: "j = (if newer b a then b else a)" by simp
    have old: "\<not> newer k b" if "k \<in> set js" using Cons.IH [OF Some that] .
    show ?thesis
    proof (cases "newer b a")
      case True
      with j old Cons.prems(2) show ?thesis using newer_asym by auto
    next
      case False
      then have "k \<in> set js \<Longrightarrow> \<not> newer k a" using old not_newer_trans by metis
      with False j Cons.prems(2) show ?thesis using newer_asym by auto
    qed
  qed
qed

lemma get_latest_mem: "get_latest d = Inr j \<Longrightarrow> j \<in> set (d_jobs d)"
  by (auto simp: get_latest_def split: option.splits dest: latest_of_mem)

lemma find_by_id:
  "distinct (map j_id js) \<Longrightarrow> j \<in> set js \<Longrightarrow> find (\<lambda>k. j_id k = j_id j) js = Some j"
  by (induction js) (auto simp: image_iff)

lemma get_job_id:
  "jobs_wf d \<Longrightarrow> j \<in> set (d_jobs d) \<Longrightarrow> get_job d (j_id j) = Inr j"
  by (simp add: get_job_def find_by_id jobs_wf_def)

lemma find_map_id:
  "(\<And>j. j_id (f j) = j_id j) \<Longrightarrow> find (\<lambda>j. j_id j = i) (map f js) = map_option f (find (\<lambda>j. j_id j = i) js)"
  by (induction js) auto

lemma get_job_Inr: "get_job d i = Inr j \<longleftrightarrow> find (\<lambda>k. j_id k = i) (d_jobs d) = Some j"
  by (simp add: get_job_def split: option.splits)

lemma get_job_update:
  assumes "update_state d i st fin err = Inr d'" and "get_job d i = Inr j"
  shows "get_job d' i = Inr (update_row st fin err j)"
proof -
  have "j_id j = i" using get_job_mem [OF assms(2)] by simp
  moreover have "d_jobs d' = map (\<lambda>j. if j_id j = i then update_row st fin err j else j) (d_jobs d)"
    using assms(1) by (auto simp: update_state_def split: if_splits)
  ultimately show ?thesis
    using assms(2) by (simp add: get_job_Inr find_map_id update_row_def)
qed

lemma get_job_increment:
  assumes "get_job d i = Inr j"
  shows "get_job (increment_progress d i name) i = Inr (j\<lparr>j_processed := j_processed j + 1, j_last := Some name\<rparr>)"
proof -
  have "j_id j = i" using get_job_mem [OF assms] by simp
  then show ?thesis
    using assms by (simp add: get_job_Inr increment_progress_def find_map_id)
qed

lemma update_state_routes [frame_simps]:
  "update_state d i st fin err = Inr d' \<Longrightarrow> d_routes d' = d_routes d"
  by (auto simp: update_state_def split: if_splits)

lemma increment_routes [frame_simps, simp]: "d_routes (increment_progress d i name) = d_routes d"
  by (simp add: increment_progress_def)

end
