(* ===== verification/GoStrings.thy ===== *)
theory GoStrings imports Prelude begin

text \<open>
  The functions of Go's \<open>strings\<close> package on byte strings that several components use:
  \<open>TrimSpace\<close> with the Unicode white space in its UTF-8 encodings, and \<open>EqualFold\<close>
  against ASCII constants.
\<close>

definition byte :: "char \<Rightarrow> nat" where
  "byte c = of_char c"

definition ascii_space :: "char \<Rightarrow> bool" where
  "ascii_space c \<longleftrightarrow> c \<in> {CHR 0x20, CHR 0x09, CHR 0x0A, CHR 0x0B, CHR 0x0C, CHR 0x0D}"

text \<open>U+0085 and U+00A0 take two bytes, the other white space outside ASCII three.\<close>

definition space2 :: "char \<Rightarrow> char \<Rightarrow> bool" where
  "space2 a b \<longleftrightarrow> byte a = 0xC2 \<and> (byte b = 0x85 \<or> byte b = 0xA0)"

definition space3 :: "char \<Rightarrow> char \<Rightarrow> char \<Rightarrow> bool" where
  "space3 a b c \<longleftrightarrow>
     byte a = 0xE1 \<and> byte b = 0x9A \<and> byte c = 0x80
   \<or> byte a = 0xE2 \<and> byte b = 0x80 \<and> (0x80 \<le> byte c \<and> byte c \<le> 0x8A \<or> byte c = 0xA8 \<or> byte c = 0xA9 \<or> byte c = 0xAF)
   \<or> byte a = 0xE2 \<and> byte b = 0x81 \<and> byte c = 0x9F
   \<or> byte a = 0xE3 \<and> byte b = 0x80 \<and> byte c = 0x80"

fun trim_left :: "string \<Rightarrow> string" where
  "trim_left (a # b # c # s) =
     (if ascii_space a then trim_left (b # c # s)
      else if space2 a b then trim_left (c # s)
      else if space3 a b c then trim_left s else a # b # c # s)"
| "trim_left [a, b] =
     (if ascii_space a then (if ascii_space b then [] else [b]) else if space2 a b then [] else [a, b])"
| "trim_left [a] = (if ascii_space a then [] else [a])"
| "trim_left [] = []"

text \<open>The same on the reversed string.\<close>

fun trim_rev :: "string \<Rightarrow> string" where
  "trim_rev (c # b # a # s) =
     (if ascii_space c then trim_rev (b # a # s)
      else if space2 b c then trim_rev (a # s)
      else if space3 a b c then trim_rev s else c # b # a # s)"
| "trim_rev [b, a] =
     (if ascii_space b then (if ascii_space a then [] else [a]) else if space2 a b then [] else [b, a])"
| "trim_rev [a] = (if ascii_space a then [] else [a])"
| "trim_rev [] = []"

definition trim_space :: "string \<Rightarrow> string" where
  "trim_space s = rev (trim_rev (rev (trim_left s)))"

definition lower :: "char \<Rightarrow> char" where
  "lower c = (if 65 \<le> byte c \<and> byte c \<le> 90 then char_of (byte c + 32) else c)"

definition upper :: "char \<Rightarrow> char" where
  "upper c = (if 97 \<le> byte c \<and> byte c \<le> 122 then char_of (byte c - 32) else c)"

text \<open>
  \<open>EqualFold\<close> against an ASCII constant: letters without case, U+017F folds to s and U+212A
  to k.
\<close>

fun fold_norm :: "string \<Rightarrow> string" where
  "fold_norm (a # b # c # s) =
     (if byte a = 0xC5 \<and> byte b = 0xBF then CHR ''s'' # fold_norm (c # s)
      else if byte a = 0xE2 \<and> byte b = 0x84 \<and> byte c = 0xAA then CHR ''k'' # fold_norm s
      else lower a # fold_norm (b # c # s))"
| "fold_norm [a, b] = (if byte a = 0xC5 \<and> byte b = 0xBF then ''s'' else [lower a, lower b])"
| "fold_norm [a] = [lower a]"
| "fold_norm [] = []"

definition equal_fold :: "string \<Rightarrow> string \<Rightarrow> bool" where
  "equal_fold s t \<longleftrightarrow> fold_norm s = fold_norm t"

lemma trim_space_nil [simp]: "trim_space [] = []"
  by (simp add: trim_space_def)

text \<open>An ASCII string that neither starts nor ends in a space is its own trimming.\<close>

lemma trim_left_id:
  "s = [] \<or> \<not> ascii_space (hd s) \<and> byte (hd s) < 128 \<Longrightarrow> trim_left s = s"
  by (induction s rule: trim_left.induct) (auto simp: space2_def space3_def)

lemma trim_rev_id:
  "s = [] \<or> \<not> ascii_space (hd s) \<and> byte (hd s) < 128 \<Longrightarrow> trim_rev s = s"
  by (induction s rule: trim_rev.induct) (auto simp: space2_def space3_def)

lemma trim_space_id:
  "\<not> ascii_space (hd s) \<Longrightarrow> byte (hd s) < 128 \<Longrightarrow> \<not> ascii_space (last s) \<Longrightarrow> byte (last s) < 128
     \<Longrightarrow> trim_space s = s"
  by (cases "s = []") (auto simp: trim_space_def trim_left_id trim_rev_id hd_rev)

end
