(* ===== verification/BackfillApi.thy ===== *)
theory BackfillApi imports BackfillDb GoStrings begin

text \<open>
  The HTTP handlers of \<open>internal/api/alpr_backfill.go\<close>. A handler reads and writes the
  table through the statements of \<open>BackfillDb\<close>; \<open>flt q\<close> says that the statement \<open>q\<close>
  fails on the connection, so every error answer is a branch. The current time and the
  acting user are arguments. RFC 3339 rendering of times is left out: the status carries
  the times themselves. Floating point is exact arithmetic on \<open>real\<close>.
\<close>

section \<open>State, requests and answers\<close>

text \<open>
  The server's part: the database and the worker's wake channel, buffered to one signal.
\<close>

record bf_srv =
  srv_db :: bf_db
  srv_trigger :: bool
  srv_wake :: bool

datatype bf_query = QGetRunning | QGetLatest | QGetJob | QCount | QInsert | QUpdate | QIncrement
  | QList | QIsProcessed | QMark

type_synonym faults = "bf_query \<Rightarrow> bool"

record bf_status =
  s_id :: int
  s_started :: gotime
  s_finished :: "gotime option"
  s_state :: bf_state
  s_total :: "int option"
  s_processed :: int
  s_last :: "string option"
  s_eta :: "int option"
  s_error :: "string option"

datatype bf_resp =
    BfErr nat string
  | BfStarted int
  | BfState bf_state
  | BfNone
  | BfStatus bf_status

definition eta_cap :: int where
  "eta_cap = 999999"

definition faulty :: "faults \<Rightarrow> bf_query \<Rightarrow> db_error + 'a \<Rightarrow> db_error + 'a" where
  "faulty flt q r = (if flt q then Inl Transport else r)"

definition wake :: "bf_srv \<Rightarrow> bf_srv" where
  "wake s = (if srv_trigger s then s\<lparr>srv_wake := True\<rparr> else s)"

section \<open>Handlers\<close>

definition build_count_params :: "bf_filters \<Rightarrow> string \<Rightarrow> route_params" where
  "build_count_params f after =
     \<lparr>p_from = f_from f, p_to = f_to f,
      p_dongle = (if trim_space (f_dongle f) \<noteq> [] then Some (f_dongle f) else None),
      p_after = (if after \<noteq> [] then Some after else None)\<rparr>"

definition start ::
  "faults \<Rightarrow> gotime \<Rightarrow> string option \<Rightarrow> bf_filters option \<Rightarrow> bf_srv \<Rightarrow> bf_resp \<times> bf_srv" where
  "start flt now actor body s =
     (case body of
        None \<Rightarrow> (BfErr 400 ''failed to parse request body'', s)
      | Some req \<Rightarrow>
          if (case (f_from req, f_to req) of (Some a, Some b) \<Rightarrow> b < a | _ \<Rightarrow> False)
          then (BfErr 400 ''to_date must be on or after from_date'', s)
          else if f_max req < 0 then (BfErr 400 ''max_routes must be >= 0'', s)
          else
            (case faulty flt QGetRunning (get_running (srv_db s)) of
               Inr _ \<Rightarrow> (BfErr 409 ''a backfill job is already running'', s)
             | Inl NoRows \<Rightarrow>
                 (case faulty flt QCount (Inr (count_routes (srv_db s) (build_count_params req []))) of
                    Inl _ \<Rightarrow> (BfErr 500 ''failed to count routes for backfill'', s)
                  | Inr n \<Rightarrow>
                      (let n' = (if 0 < f_max req \<and> f_max req < n then f_max req else n)
                       in case faulty flt QInsert
                            (insert_job (srv_db s) Running (JsonBlob req) (Some (to_int32 n')) actor now) of
                            Inl UniqueViolation \<Rightarrow> (BfErr 409 ''a backfill job is already running'', s)
                          | Inl _ \<Rightarrow> (BfErr 500 ''failed to insert backfill job'', s)
                          | Inr (j, d) \<Rightarrow> (BfStarted (j_id j), wake (s\<lparr>srv_db := d\<rparr>))))
             | Inl _ \<Rightarrow> (BfErr 500 ''failed to check running backfill job'', s)))"

text \<open>
  \<open>transitionFrom\<close>, the body of \<open>Pause\<close>: write the state only when the latest job is in
  the source state, otherwise report the state it is in.
\<close>

definition transition_from ::
  "faults \<Rightarrow> gotime \<Rightarrow> bf_state \<Rightarrow> bf_state \<Rightarrow> bool \<Rightarrow> string \<Rightarrow> bf_srv \<Rightarrow> bf_resp \<times> bf_srv" where
  "transition_from flt now src dst fin msg s =
     (case faulty flt QGetLatest (get_latest (srv_db s)) of
        Inl NoRows \<Rightarrow> (BfNone, s)
      | Inl _ \<Rightarrow> (BfErr 500 ''failed to read backfill state'', s)
      | Inr j \<Rightarrow>
          if j_state j \<noteq> src then (BfState (j_state j), s)
          else
            (case faulty flt QUpdate (update_state (srv_db s) (j_id j) dst
                    (if fin then Some now else None) (if msg \<noteq> [] then Some msg else None)) of
               Inl _ \<Rightarrow> (BfErr 500 ''failed to transition backfill job'', s)
             | Inr d \<Rightarrow> (BfState dst, s\<lparr>srv_db := d\<rparr>)))"

definition pause :: "faults \<Rightarrow> gotime \<Rightarrow> bf_srv \<Rightarrow> bf_resp \<times> bf_srv" where
  "pause flt now s = transition_from flt now Running Paused False [] s"

definition resume :: "faults \<Rightarrow> bf_srv \<Rightarrow> bf_resp \<times> bf_srv" where
  "resume flt s =
     (case faulty flt QGetLatest (get_latest (srv_db s)) of
        Inl NoRows \<Rightarrow> (BfErr 409 ''no paused backfill job to resume'', s)
      | Inl _ \<Rightarrow> (BfErr 500 ''failed to read backfill state'', s)
      | Inr j \<Rightarrow>
          if j_state j \<noteq> Paused then (BfErr 409 ''no paused backfill job to resume'', s)
          else
            (case faulty flt QUpdate (update_state (srv_db s) (j_id j) Running None None) of
               Inl UniqueViolation \<Rightarrow> (BfErr 409 ''a backfill job is already running'', s)
             | Inl _ \<Rightarrow> (BfErr 500 ''failed to resume backfill job'', s)
             | Inr d \<Rightarrow> (BfState Running, wake (s\<lparr>srv_db := d\<rparr>))))"

definition cancel :: "faults \<Rightarrow> gotime \<Rightarrow> bf_srv \<Rightarrow> bf_resp \<times> bf_srv" where
  "cancel flt now s =
     (case faulty flt QGetLatest (get_latest (srv_db s)) of
        Inl NoRows \<Rightarrow> (BfErr 409 ''no backfill job to cancel'', s)
      | Inl _ \<Rightarrow> (BfErr 500 ''failed to read backfill state'', s)
      | Inr j \<Rightarrow>
          if j_state j = Done \<or> j_state j = Failed then (BfState (j_state j), s)
          else
            (case faulty flt QUpdate (update_state (srv_db s) (j_id j) Failed (Some now)
                    (Some ''cancelled by user'')) of
               Inl _ \<Rightarrow> (BfErr 500 ''failed to cancel backfill job'', s)
             | Inr d \<Rightarrow> (BfState Failed, s\<lparr>srv_db := d\<rparr>)))"

text \<open>\<open>computeETASeconds\<close> and \<open>statusFromJob\<close>.\<close>

definition compute_eta :: "job \<Rightarrow> gotime \<Rightarrow> int option" where
  "compute_eta j now =
     (case j_total j of
        None \<Rightarrow> None
      | Some tot \<Rightarrow>
          (let processed = j_processed j in
           if processed \<le> 0 then None
           else if tot \<le> processed then Some 0
           else
             (let elapsed = time_sub now (j_started j) in
              if elapsed \<le> 0 then None
              else
                (let minutes = real_of_int elapsed / real_of_int minute in
                 if minutes \<le> 0 then None
                 else
                   (let rpm = real_of_int processed / minutes in
                    if rpm \<le> 0 then None
                    else
                      (let eta = \<lfloor>real_of_int (tot - processed) / rpm * 60\<rfloor>
                       in Some (if eta < 0 \<or> eta_cap < eta then eta_cap else eta)))))))"

definition status_from_job :: "job \<Rightarrow> gotime \<Rightarrow> bf_status" where
  "status_from_job j now =
     \<lparr>s_id = j_id j, s_started = j_started j, s_finished = j_finished j, s_state = j_state j,
      s_total = j_total j, s_processed = j_processed j, s_last = j_last j,
      s_eta = (if j_state j = Running \<or> j_state j = Paused then compute_eta j now else None),
      s_error = j_error j\<rparr>"

definition status :: "faults \<Rightarrow> gotime \<Rightarrow> bf_srv \<Rightarrow> bf_resp" where
  "status flt now s =
     (case faulty flt QGetLatest (get_latest (srv_db s)) of
        Inl NoRows \<Rightarrow> BfNone
      | Inl _ \<Rightarrow> BfErr 500 ''failed to read backfill status''
      | Inr j \<Rightarrow> BfStatus (status_from_job j now))"

section \<open>Interleavings of requests and worker statements\<close>

text \<open>
  What can happen to the table: a handler runs a single statement at a time, and so does
  the worker, in any order and with any arguments. A handler that has checked something
  earlier gets no protection from it here.
\<close>

inductive bf_stmt :: "bf_db \<Rightarrow> bf_db \<Rightarrow> bool" where
  stmt_insert: "insert_job d st fb tot by now = Inr (j, d') \<Longrightarrow> bf_stmt d d'"
| stmt_update: "update_state d i st fin err = Inr d' \<Longrightarrow> bf_stmt d d'"
| stmt_increment: "bf_stmt d (increment_progress d i name)"

definition bf_init :: "bf_db \<Rightarrow> bool" where
  "bf_init d \<longleftrightarrow> d_jobs d = []"

lemma bf_stmt_wf: "bf_stmt d d' \<Longrightarrow> jobs_wf d \<Longrightarrow> jobs_wf d'"
  by (induction rule: bf_stmt.induct) (auto intro: inv_intros)

lemma bf_init_wf: "bf_init d \<Longrightarrow> jobs_wf d"
  by (simp add: bf_init_def jobs_wf_def running_ids_def)

interpretation bf_table: step_invariant bf_init bf_stmt jobs_wf
  by unfold_locales (auto intro: bf_init_wf bf_stmt_wf)

lemmas handler_defs = start_def transition_from_def pause_def resume_def cancel_def faulty_def wake_def

text \<open>Every handler is a run of statements.\<close>

lemma run_insert: "insert_job d st fb tot by now = Inr (j, d') \<Longrightarrow> bf_stmt\<^sup>*\<^sup>* d d'"
  and run_update: "update_state d i st fin err = Inr d' \<Longrightarrow> bf_stmt\<^sup>*\<^sup>* d d'"
  by (blast intro: stmt_insert stmt_update r_into_rtranclp)+

lemma start_db:
  "start flt now actor body s = (r, s') \<Longrightarrow> srv_db s' = srv_db s
    \<or> (\<exists>fb tot k. insert_job (srv_db s) Running fb tot actor now = Inr (k, srv_db s'))"
  by (auto simp: start_def faulty_def wake_def Let_def
      split: option.splits if_splits sum.splits db_error.splits prod.splits)

lemma start_stmts: "start flt now actor body s = (r, s') \<Longrightarrow> bf_stmt\<^sup>*\<^sup>* (srv_db s) (srv_db s')"
  by (drule start_db) (auto dest: run_insert)

lemma transition_stmts:
  "transition_from flt now src dst fin msg s = (r, s') \<Longrightarrow> bf_stmt\<^sup>*\<^sup>* (srv_db s) (srv_db s')"
  by (auto simp: transition_from_def faulty_def dest: run_update
      split: if_splits sum.splits db_error.splits)

lemma resume_stmts: "resume flt s = (r, s') \<Longrightarrow> bf_stmt\<^sup>*\<^sup>* (srv_db s) (srv_db s')"
  by (auto simp: resume_def faulty_def wake_def dest: run_update
      split: if_splits sum.splits db_error.splits)

lemma cancel_stmts: "cancel flt now s = (r, s') \<Longrightarrow> bf_stmt\<^sup>*\<^sup>* (srv_db s) (srv_db s')"
  by (auto simp: cancel_def faulty_def dest: run_update
      split: if_splits sum.splits db_error.splits)

section \<open>Requests against a job in a terminal state\<close>

text \<open>One request of the dashboard, with its faults, its time and its arguments.\<close>

datatype api_call = CStart gotime "string option" "bf_filters option" | CPause gotime | CResume
  | CCancel gotime

fun api_exec :: "faults \<Rightarrow> api_call \<Rightarrow> bf_srv \<Rightarrow> bf_resp \<times> bf_srv" where
  "api_exec flt (CStart now who body) s = start flt now who body s"
| "api_exec flt (CPause now) s = pause flt now s"
| "api_exec flt CResume s = resume flt s"
| "api_exec flt (CCancel now) s = cancel flt now s"

fun api_run :: "(faults \<times> api_call) list \<Rightarrow> bf_srv \<Rightarrow> bf_srv" where
  "api_run [] s = s"
| "api_run ((flt, c) # cs) s = api_run cs (snd (api_exec flt c s))"

definition terminal :: "bf_state \<Rightarrow> bool" where
  "terminal st \<longleftrightarrow> st = Done \<or> st = Failed"

lemma api_exec_stmts: "bf_stmt\<^sup>*\<^sup>* (srv_db s) (srv_db (snd (api_exec flt c s)))"
  by (cases c; cases "api_exec flt c s")
    (auto simp: pause_def dest: start_stmts transition_stmts resume_stmts cancel_stmts)

lemma api_run_stmts: "bf_stmt\<^sup>*\<^sup>* (srv_db s) (srv_db (api_run cs s))"
proof (induction cs arbitrary: s)
  case Nil
  then show ?case by simp
next
  case (Cons a cs)
  obtain flt c where [simp]: "a = (flt, c)" by (cases a)
  show ?case using rtranclp_trans [OF api_exec_stmts [of s flt c] Cons.IH] by simp
qed

lemma insert_job_other:
  "insert_job d st fb tot by now = Inr (k, d') \<Longrightarrow> get_job d i = Inr j \<Longrightarrow> get_job d' i = Inr j"
  by (auto simp: insert_job_def get_job_Inr find_app Let_def split: if_splits)

lemma update_state_other:
  assumes "update_state d i' st fin err = Inr d'" and "get_job d i = Inr j" and "i \<noteq> i'"
  shows "get_job d' i = Inr j"
proof -
  have "j_id j = i" using get_job_mem [OF assms(2)] by simp
  with assms show ?thesis
    by (auto simp: update_state_def get_job_Inr find_map_id update_row_def split: if_splits)
qed

lemma latest_other:
  assumes "jobs_wf d" and "get_latest d = Inr l" and "get_job d i = Inr j" and "j_state l \<noteq> j_state j"
  shows "i \<noteq> j_id l"
  using get_job_id [OF assms(1) get_latest_mem [OF assms(2)]] assms(3,4) by auto

lemma api_exec_terminal:
  assumes "jobs_wf (srv_db s)" and "get_job (srv_db s) i = Inr j" and "terminal (j_state j)"
  shows "get_job (srv_db (snd (api_exec flt c s))) i = Inr j"
proof (cases c)
  case (CStart now who body)
  then show ?thesis
    using assms(2) start_db [of flt now who body s] insert_job_other
    by (cases "start flt now who body s") (metis api_exec.simps(1) snd_conv)
next
  case (CPause now)
  then show ?thesis
    using assms latest_other [OF assms(1) _ assms(2)]
    by (fastforce simp: pause_def transition_from_def faulty_def terminal_def dest: update_state_other
        split: if_splits sum.splits db_error.splits)
next
  case CResume
  then show ?thesis
    using assms latest_other [OF assms(1) _ assms(2)]
    by (fastforce simp: resume_def faulty_def wake_def terminal_def dest: update_state_other
        split: if_splits sum.splits db_error.splits)
next
  case (CCancel now)
  then show ?thesis
    using assms latest_other [OF assms(1) _ assms(2)]
    by (fastforce simp: cancel_def faulty_def terminal_def dest: update_state_other
        split: if_splits sum.splits db_error.splits)
qed

section \<open>Properties\<close>



text \<open>C33: a job that is \<open>done\<close> or \<open>failed\<close> is left unchanged by every sequence of start, pause,
  resume and cancel requests, whichever statements fail.\<close>

theorem api_keeps_terminal_job:
  assumes "jobs_wf (srv_db s)" and "get_job (srv_db s) i = Inr j" and "terminal (j_state j)"
  shows "get_job (srv_db (api_run cs s)) i = Inr j"
  using assms
proof (induction cs arbitrary: s)
  case Nil
  then show ?case by simp
next
  case (Cons a cs)
  obtain flt c where [simp]: "a = (flt, c)" by (cases a)
  have "jobs_wf (srv_db (snd (api_exec flt c s)))"
    using bf_table.run [OF api_exec_stmts] Cons.prems(1) by blast
  then show ?case using Cons.IH api_exec_terminal Cons.prems by simp
qed

definition demo_job :: "int \<Rightarrow> bf_state \<Rightarrow> job" where
  "demo_job i st = \<lparr>j_id = i, j_started = 0, j_finished = None, j_state = st, j_filters = JsonBlob no_filters,
     j_total = Some 10, j_processed = 0, j_last = None, j_error = None, j_by = None\<rparr>"

definition demo_srv :: "bf_state \<Rightarrow> bf_srv" where
  "demo_srv st = \<lparr>srv_db = \<lparr>d_jobs = [demo_job 1 st], d_next = 2, d_routes = []\<rparr>,
     srv_trigger = True, srv_wake = False\<rparr>"

lemmas demo_defs = demo_srv_def demo_job_def

theorem api_keeps_terminal_job_witness:
  "get_job (srv_db (api_run [(\<lambda>_. False, CCancel 5), (\<lambda>_. False, CResume),
     (\<lambda>_. False, CStart 7 None (Some no_filters))] (demo_srv Failed))) 1 = Inr (demo_job 1 Failed)"
  by (rule api_keeps_terminal_job)
    (simp_all add: demo_defs jobs_wf_def running_ids_def get_job_def terminal_def)

text \<open>A well-formed start request whose statements succeed is refused with 409 exactly when a
  job is running, and otherwise inserts a fresh running job whose total is the count of
  matching routes capped by \<open>max_routes\<close>.\<close>

theorem start_outcome:
  assumes "jobs_wf (srv_db s)" and "0 \<le> f_max req"
    and "\<And>a b. f_from req = Some a \<Longrightarrow> f_to req = Some b \<Longrightarrow> a \<le> b"
    and "start (\<lambda>_. False) now actor (Some req) s = (r, s')"
  shows "if \<exists>j \<in> set (d_jobs (srv_db s)). j_state j = Running
    then r = BfErr 409 ''a backfill job is already running'' \<and> s' = s
    else let n = count_routes (srv_db s) (build_count_params req []) in
      r = BfStarted (d_next (srv_db s))
      \<and> get_job (srv_db s) (d_next (srv_db s)) = Inl NoRows
      \<and> (\<exists>j. get_running (srv_db s') = Inr j \<and> j_id j = d_next (srv_db s)
          \<and> j_total j = Some (to_int32 (if f_max req = 0 then n else min n (f_max req)))
          \<and> j_processed j = 0 \<and> j_last j = None)"
proof -
  have dates: "\<not> (case (f_from req, f_to req) of (Some a, Some b) \<Rightarrow> b < a | _ \<Rightarrow> False)"
    using assms(3) by (auto split: option.splits simp: not_less)
  show ?thesis
  proof (cases "\<exists>j \<in> set (d_jobs (srv_db s)). j_state j = Running")
    case True
    then obtain j where "get_running (srv_db s) = Inr j"
      by (metis get_running_none sum.exhaust)
    with True dates assms(2,4) show ?thesis
      by (simp add: start_def faulty_def split: option.splits)
  next
    case False
    have fresh: "find (\<lambda>j. j_id j = d_next (srv_db s)) (d_jobs (srv_db s)) = None"
      using jobs_wfD(2) [OF assms(1)] by (force simp: find_None_set)
    have none: "get_running (srv_db s) = Inl NoRows"
      and fnone: "find (\<lambda>j. j_state j = Running) (d_jobs (srv_db s)) = None"
      using False by (simp_all add: get_running_none find_None_set)
    show ?thesis
      using assms(2,4) dates False none fnone fresh
      by (cases "srv_trigger s")
        (auto simp: start_def faulty_def insert_job_def wake_def get_running_def get_job_def find_app
          Let_def min_def split: option.splits if_splits)
  qed
qed

theorem start_outcome_witness:
  "fst (start (\<lambda>_. False) 3 None (Some no_filters) (demo_srv Paused)) = BfStarted 2"
  using start_outcome [of "demo_srv Paused" no_filters 3 None]
  by (cases "start (\<lambda>_. False) 3 None (Some no_filters) (demo_srv Paused)")
    (simp add: demo_defs no_filters_def jobs_wf_def running_ids_def Let_def)

text \<open>For a job in progress the ETA is the remaining routes times the elapsed time per
  processed route, in whole seconds rounded down, capped at 999999; it never overflows the cap
  and is never negative.\<close>

theorem eta_formula:
  assumes "j_total j = Some tot" and "0 < j_processed j" and "j_processed j < tot"
    and "0 < time_sub now (j_started j)"
  shows "compute_eta j now =
    Some (min eta_cap ((tot - j_processed j) * time_sub now (j_started j) div (j_processed j * second)))"
proof -
  let ?E = "time_sub now (j_started j)" and ?P = "j_processed j" and ?R = "tot - j_processed j"
  have "real_of_int ?R / (real_of_int ?P / (real_of_int ?E / real_of_int minute)) * 60
      = real_of_int (?R * ?E) / real_of_int (?P * second)"
    using assms(2,4) by (simp add: minute_def second_def field_simps)
  then have fl: "\<lfloor>real_of_int ?R / (real_of_int ?P / (real_of_int ?E / real_of_int minute)) * 60\<rfloor>
      = ?R * ?E div (?P * second)"
    by (simp only: floor_divide_of_int_eq)
  have "0 \<le> ?R * ?E div (?P * second)"
    using assms by (simp add: second_def pos_imp_zdiv_nonneg_iff)
  moreover have "0 < real_of_int ?E / real_of_int minute"
    and "0 < real_of_int ?P / (real_of_int ?E / real_of_int minute)"
    using assms(2,4) by (simp_all add: minute_def)
  ultimately show ?thesis
    unfolding compute_eta_def assms(1) option.case Let_def fl using assms by (simp add: min_def)
qed

theorem eta_formula_witness:
  "compute_eta ((demo_job 1 Running)\<lparr>j_processed := 4\<rparr>) (8 * second) = Some 12"
  using eta_formula [of "(demo_job 1 Running)\<lparr>j_processed := 4\<rparr>" 10 "8 * second"]
  by (simp add: demo_job_def time_sub_def second_def eta_cap_def max_duration_def min_duration_def)

end
