(* ===== verification/BackfillWorker.thy ===== *)
theory BackfillWorker imports BackfillApi begin

text \<open>
  The backfill worker of \<open>internal/worker/alpr_backfill.go\<close>: \<open>runOnce\<close>, \<open>processJob\<close>,
  \<open>fetchRouteBatch\<close>, \<open>processRoute\<close> and \<open>setState\<close>. The worker shares the job table with
  the API handlers, the runtime flag \<open>alpr_enabled\<close> and the process context. What others do
  meanwhile is a schedule: a list of batches of events, one batch taken before each point
  where the worker looks at the shared state again. The storage tree and the outcome of
  ffmpeg on a segment are arguments; the frames pushed to the sink are not modelled.
  The outer \<open>for\<close> of \<open>processJob\<close> takes fuel.
\<close>

section \<open>The worker's world\<close>

datatype env_event = EnvApi faults api_call | EnvAlpr bool | EnvShutdown

record bf_world =
  w_srv :: bf_srv
  w_sched :: "env_event list list"
  w_cancelled :: bool
  w_alpr :: bool
  w_marked :: "(string \<times> string \<times> int) list"
  w_now :: gotime

record bf_env =
  e_segments :: "string \<Rightarrow> string \<Rightarrow> int list option"
  e_fcamera :: "string \<Rightarrow> string \<Rightarrow> int \<Rightarrow> bool"
  e_ffmpeg :: "string \<Rightarrow> string \<Rightarrow> int \<Rightarrow> bool"
  e_batch :: int
  e_flt :: faults
  e_errtext :: string

fun env_apply :: "env_event \<Rightarrow> bf_world \<Rightarrow> bf_world" where
  "env_apply (EnvApi flt c) w = w\<lparr>w_srv := snd (api_exec flt c (w_srv w))\<rparr>"
| "env_apply (EnvAlpr b) w = w\<lparr>w_alpr := b\<rparr>"
| "env_apply EnvShutdown w = w\<lparr>w_cancelled := True\<rparr>"

definition tick :: "bf_world \<Rightarrow> bf_world" where
  "tick w = (case w_sched w of [] \<Rightarrow> w
     | es # rest \<Rightarrow> fold env_apply es (w\<lparr>w_sched := rest\<rparr>))"

text \<open>A statement issued on a cancelled context fails.\<close>

definition wq :: "bf_env \<Rightarrow> bf_world \<Rightarrow> bf_query \<Rightarrow> db_error + 'a \<Rightarrow> db_error + 'a" where
  "wq env w q r = (if w_cancelled w \<or> e_flt env q then Inl Transport else r)"

abbreviation w_db :: "bf_world \<Rightarrow> bf_db" where
  "w_db w \<equiv> srv_db (w_srv w)"

definition with_db :: "bf_world \<Rightarrow> bf_db \<Rightarrow> bf_world" where
  "with_db w d = w\<lparr>w_srv := (w_srv w)\<lparr>srv_db := d\<rparr>\<rparr>"

definition alpr_enabled :: "bf_world \<Rightarrow> bool" where
  "alpr_enabled w \<longleftrightarrow> w_alpr w \<and> \<not> w_cancelled w"

text \<open>\<open>setState\<close>: an empty error text and a zero time leave their columns alone; a failing
  statement is only logged.\<close>

definition set_state :: "bf_env \<Rightarrow> bf_world \<Rightarrow> int \<Rightarrow> bf_state \<Rightarrow> string \<Rightarrow> bool \<Rightarrow> bf_world" where
  "set_state env w i st err fin =
     (case wq env w QUpdate (update_state (w_db w) i st (if fin then Some (w_now w) else None)
             (if err \<noteq> [] then Some err else None)) of
        Inl _ \<Rightarrow> w
      | Inr d \<Rightarrow> with_db w d)"

section \<open>Filters and batches\<close>

definition decode_filters :: "filters_blob \<Rightarrow> bf_filters option" where
  "decode_filters b = (case b of EmptyBlob \<Rightarrow> Some no_filters | JsonBlob f \<Rightarrow> Some f | MalformedBlob \<Rightarrow> None)"

definition apply_filters :: "bf_filters \<Rightarrow> string \<Rightarrow> route_params" where
  "apply_filters f after =
     \<lparr>p_from = f_from f, p_to = f_to f, p_dongle = (if f_dongle f \<noteq> [] then Some (f_dongle f) else None),
      p_after = (if after \<noteq> [] then Some after else None)\<rparr>"

definition default_batch :: int where
  "default_batch = 50"

definition batch_limit :: "bf_env \<Rightarrow> nat" where
  "batch_limit env = nat (if e_batch env \<le> 0 then default_batch else e_batch env)"

definition fetch_route_batch :: "bf_env \<Rightarrow> bf_world \<Rightarrow> bf_filters \<Rightarrow> string \<Rightarrow> db_error + route list" where
  "fetch_route_batch env w f after =
     wq env w QList (Inr
       (if f_newest f then list_routes_desc (w_db w) (apply_filters f after) (batch_limit env)
        else list_routes_asc (w_db w) (apply_filters f after) (batch_limit env)))"

section \<open>One route\<close>

text \<open>
  The segment loop of \<open>processRoute\<close>: the job's state is read again before each segment and
  a job that is not running ends the loop; an unreadable job row does not. Within
  \<open>processSegment\<close> time passes, so the schedule advances once more; a context cancelled
  meanwhile makes it fail with the context's error.
\<close>

fun seg_loop :: "bf_env \<Rightarrow> int \<Rightarrow> route \<Rightarrow> int list \<Rightarrow> bf_world \<Rightarrow> bf_world" where
  "seg_loop env i r [] w = w"
| "seg_loop env i r (s # ss) w =
     (let w = tick w in
      if w_cancelled w then w
      else if (case wq env w QGetJob (get_job (w_db w) i) of Inr cur \<Rightarrow> j_state cur \<noteq> Running | Inl _ \<Rightarrow> False)
      then w
      else if \<not> e_fcamera env (r_dongle r) (r_name r) s then seg_loop env i r ss w
      else
        (case wq env w QIsProcessed (Inr ((r_dongle r, r_name r, s) \<in> set (w_marked w))) of
           Inl _ \<Rightarrow> seg_loop env i r ss w
         | Inr True \<Rightarrow> seg_loop env i r ss w
         | Inr False \<Rightarrow>
             (let w = tick w in
              if w_cancelled w then w
              else if \<not> e_ffmpeg env (r_dongle r) (r_name r) s then seg_loop env i r ss w
              else
                (case wq env w QMark (Inr ()) of
                   Inl _ \<Rightarrow> seg_loop env i r ss w
                 | Inr _ \<Rightarrow> seg_loop env i r ss
                     (w\<lparr>w_marked := (r_dongle r, r_name r, s) # w_marked w\<rparr>)))))"

definition process_route :: "bf_env \<Rightarrow> int \<Rightarrow> route \<Rightarrow> bf_world \<Rightarrow> bf_world" where
  "process_route env i r w =
     (case e_segments env (r_dongle r) (r_name r) of
        None \<Rightarrow> w
      | Some segs \<Rightarrow> seg_loop env i r segs w)"

section \<open>One job\<close>

definition max_reached :: "bf_filters \<Rightarrow> job \<Rightarrow> bool" where
  "max_reached f j \<longleftrightarrow> 0 < f_max f \<and> f_max f \<le> j_processed j"

definition increment :: "bf_env \<Rightarrow> int \<Rightarrow> string \<Rightarrow> bf_world \<Rightarrow> bf_world" where
  "increment env i name w =
     (case wq env w QIncrement (Inr (increment_progress (w_db w) i name)) of
        Inl _ \<Rightarrow> w
      | Inr d \<Rightarrow> with_db w d)"

text \<open>
  The inner \<open>for\<close> over a batch. The flag is \<open>False\<close> when \<open>processJob\<close> returns from inside
  it.
\<close>

fun batch_loop :: "bf_env \<Rightarrow> int \<Rightarrow> bf_filters \<Rightarrow> route list \<Rightarrow> bf_world \<Rightarrow> bf_world \<times> bool" where
  "batch_loop env i f [] w = (w, True)"
| "batch_loop env i f (r # rs) w =
     (let w = tick w in
      if w_cancelled w then (w, False)
      else
        (case wq env w QGetJob (get_job (w_db w) i) of
           Inl _ \<Rightarrow> (w, False)
         | Inr cur \<Rightarrow>
             if j_state cur \<noteq> Running then (w, False)
             else if \<not> alpr_enabled w then (set_state env w i Paused [] False, False)
             else if max_reached f cur then (set_state env w i Done [] True, False)
             else batch_loop env i f rs (increment env i (r_name r) (process_route env i r w))))"

fun job_loop :: "nat \<Rightarrow> bf_env \<Rightarrow> int \<Rightarrow> bf_world \<Rightarrow> bf_world option" where
  "job_loop 0 env i w = None"
| "job_loop (Suc n) env i w =
     (let w = tick w in
      if w_cancelled w then Some w
      else
        (case wq env w QGetJob (get_job (w_db w) i) of
           Inl _ \<Rightarrow> Some w
         | Inr fresh \<Rightarrow>
             if j_state fresh \<noteq> Running then Some w
             else if \<not> alpr_enabled w then Some (set_state env w i Paused [] False)
             else
               (case decode_filters (j_filters fresh) of
                  None \<Rightarrow> Some (set_state env w i Failed (''decode filters: '' @ e_errtext env) True)
                | Some f \<Rightarrow>
                    (let after = (case j_last fresh of None \<Rightarrow> [] | Some a \<Rightarrow> a) in
                     if max_reached f fresh then Some (set_state env w i Done [] True)
                     else
                       (case fetch_route_batch env w f after of
                          Inl _ \<Rightarrow> Some (set_state env w i Failed (''list routes: '' @ e_errtext env) True)
                        | Inr [] \<Rightarrow> Some (set_state env w i Done [] True)
                        | Inr rs \<Rightarrow>
                            (case batch_loop env i f rs w of
                               (w', True) \<Rightarrow> job_loop n env i w'
                             | (w', False) \<Rightarrow> Some w'))))))"

definition process_job :: "nat \<Rightarrow> bf_env \<Rightarrow> job \<Rightarrow> bf_world \<Rightarrow> bf_world option" where
  "process_job n env initial w =
     (if \<not> alpr_enabled w then Some (set_state env w (j_id initial) Paused [] False)
      else job_loop n env (j_id initial) w)"

definition run_once :: "nat \<Rightarrow> bf_env \<Rightarrow> bf_world \<Rightarrow> bf_world option" where
  "run_once n env w =
     (let w = tick w in
      (case wq env w QGetRunning (get_running (w_db w)) of
         Inl _ \<Rightarrow> Some w
       | Inr j \<Rightarrow> process_job n env j w))"

section \<open>The undisturbed run\<close>

text \<open>
  Nothing else happens, nothing fails: the schedule is empty, the context is live, ALPR is
  on, every statement succeeds and so does ffmpeg.
\<close>

definition quiet :: "bf_env \<Rightarrow> bf_world \<Rightarrow> bool" where
  "quiet env w \<longleftrightarrow> w_sched w = [] \<and> \<not> w_cancelled w \<and> w_alpr w \<and> (\<forall>q. \<not> e_flt env q)"

definition work_list :: "bf_filters \<Rightarrow> bf_db \<Rightarrow> route list" where
  "work_list f d =
     (let L = sort_key (\<lambda>r. (r_name r, r_id r)) (filter (route_base_match (apply_filters f [])) (d_routes d))
      in if f_newest f then rev L else L)"

text \<open>Every segment of a route with an \<open>fcamera.hevc\<close> that ffmpeg accepts is marked.\<close>

definition covered :: "bf_env \<Rightarrow> bf_world \<Rightarrow> route \<Rightarrow> bool" where
  "covered env w r \<longleftrightarrow> (\<forall>segs s. e_segments env (r_dongle r) (r_name r) = Some segs \<longrightarrow> s \<in> set segs \<longrightarrow>
     e_fcamera env (r_dongle r) (r_name r) s \<longrightarrow> e_ffmpeg env (r_dongle r) (r_name r) s \<longrightarrow>
     (r_dongle r, r_name r, s) \<in> set (w_marked w))"

lemma quietD [simp]:
  assumes "quiet env w"
  shows "tick w = w" and "w_cancelled w = False" and "alpr_enabled w = True" and "wq env w q x = x"
  using assms by (simp_all add: quiet_def tick_def alpr_enabled_def wq_def)

lemma quiet_updates [simp]:
  "quiet env (w\<lparr>w_marked := M\<rparr>) = quiet env w" "quiet env (with_db w d) = quiet env w"
  by (simp_all add: quiet_def with_db_def)

lemma with_db_simps [simp]:
  "w_db (with_db w d) = d" "w_marked (with_db w d) = w_marked w"
  by (simp_all add: with_db_def)

lemma covered_mono: "covered env w r \<Longrightarrow> set (w_marked w) \<subseteq> set (w_marked w') \<Longrightarrow> covered env w' r"
  unfolding covered_def by blast

lemma seg_loop_quiet:
  assumes "quiet env w" and "get_job (w_db w) i = Inr j" and "j_state j = Running"
  shows "\<exists>M. seg_loop env i r segs w = w\<lparr>w_marked := M\<rparr> \<and> set (w_marked w) \<subseteq> set M
    \<and> (\<forall>s \<in> set segs. e_fcamera env (r_dongle r) (r_name r) s \<longrightarrow> e_ffmpeg env (r_dongle r) (r_name r) s
         \<longrightarrow> (r_dongle r, r_name r, s) \<in> set M)"
  using assms(1,2)
proof (induction segs arbitrary: w)
  case Nil
  show ?case by (rule exI [of _ "w_marked w"]) simp
next
  case (Cons s segs)
  let ?mark = "w\<lparr>w_marked := (r_dongle r, r_name r, s) # w_marked w\<rparr>"
  obtain M where M: "seg_loop env i r segs w = w\<lparr>w_marked := M\<rparr>" "set (w_marked w) \<subseteq> set M"
    "\<forall>s \<in> set segs. e_fcamera env (r_dongle r) (r_name r) s \<longrightarrow> e_ffmpeg env (r_dongle r) (r_name r) s
       \<longrightarrow> (r_dongle r, r_name r, s) \<in> set M"
    using Cons.IH [OF Cons.prems] by blast
  obtain M' where M': "seg_loop env i r segs ?mark = w\<lparr>w_marked := M'\<rparr>" "set (w_marked ?mark) \<subseteq> set M'"
    "\<forall>s \<in> set segs. e_fcamera env (r_dongle r) (r_name r) s \<longrightarrow> e_ffmpeg env (r_dongle r) (r_name r) s
       \<longrightarrow> (r_dongle r, r_name r, s) \<in> set M'"
    using Cons.IH [of ?mark] Cons.prems by auto
  show ?case
  proof (cases "e_fcamera env (r_dongle r) (r_name r) s \<and> (r_dongle r, r_name r, s) \<notin> set (w_marked w)
      \<and> e_ffmpeg env (r_dongle r) (r_name r) s")
    case True
    then have "seg_loop env i r (s # segs) w = w\<lparr>w_marked := M'\<rparr>"
      using M'(1) Cons.prems assms(3) by (simp add: Let_def)
    then show ?thesis using M'(2,3) by (intro exI [of _ M']) auto
  next
    case False
    then have "seg_loop env i r (s # segs) w = w\<lparr>w_marked := M\<rparr>"
      using M(1) Cons.prems assms(3) by (auto simp: Let_def split: bool.split)
    then show ?thesis using M(2,3) False by (intro exI [of _ M]) auto
  qed
qed

lemma process_route_quiet:
  assumes "quiet env w" and "get_job (w_db w) i = Inr j" and "j_state j = Running"
  shows "\<exists>M. process_route env i r w = w\<lparr>w_marked := M\<rparr> \<and> set (w_marked w) \<subseteq> set M
    \<and> covered env (w\<lparr>w_marked := M\<rparr>) r"
proof (cases "e_segments env (r_dongle r) (r_name r)")
  case None
  then show ?thesis by (intro exI [of _ "w_marked w"]) (simp add: process_route_def covered_def)
next
  case (Some segs)
  then show ?thesis
    using seg_loop_quiet [OF assms, of r segs] by (auto simp: process_route_def covered_def)
qed

text \<open>
  The loop invariant after \<open>k\<close> routes of the work list: the cursor names the last of them,
  the counter has grown by \<open>k\<close>, and all of them are covered.
\<close>

definition job_at :: "job \<Rightarrow> route list \<Rightarrow> nat \<Rightarrow> job" where
  "job_at j L k = j\<lparr>j_processed := j_processed j + int k,
     j_last := (if k = 0 then None else Some (r_name (L ! (k - 1))))\<rparr>"

definition at_step :: "bf_env \<Rightarrow> int \<Rightarrow> job \<Rightarrow> route list \<Rightarrow> bf_world \<Rightarrow> nat \<Rightarrow> bf_world \<Rightarrow> bool" where
  "at_step env i j L w0 k w \<longleftrightarrow> quiet env w \<and> get_job (w_db w) i = Inr (job_at j L k)
     \<and> d_routes (w_db w) = d_routes (w_db w0) \<and> (\<forall>r \<in> set (take k L). covered env w r)"

lemma at_step_next:
  assumes "at_step env i j L w0 k w" and "j_state j = Running" and "k < length L"
  shows "at_step env i j L w0 (Suc k) (increment env i (r_name (L ! k)) (process_route env i (L ! k) w))"
proof -
  let ?r = "L ! k"
  have q: "quiet env w" and g: "get_job (w_db w) i = Inr (job_at j L k)"
    using assms(1) by (simp_all add: at_step_def)
  obtain M where M: "process_route env i ?r w = w\<lparr>w_marked := M\<rparr>" "set (w_marked w) \<subseteq> set M"
    "covered env (w\<lparr>w_marked := M\<rparr>) ?r"
    using process_route_quiet [OF q g] assms(2) by (auto simp: job_at_def)
  let ?w' = "with_db (w\<lparr>w_marked := M\<rparr>) (increment_progress (w_db w) i (r_name ?r))"
  have step: "increment env i (r_name ?r) (process_route env i ?r w) = ?w'"
    using q by (simp add: M(1) increment_def)
  have old: "covered env ?w' r" if "r \<in> set (take k L)" for r
    by (rule covered_mono [of env w]) (use that assms(1) M(2) in \<open>auto simp: at_step_def\<close>)
  have "covered env ?w' ?r" by (rule covered_mono [OF M(3)]) simp
  with old have "\<forall>r \<in> set (take (Suc k) L). covered env ?w' r"
    using assms(3) by (auto simp: take_Suc_conv_app_nth)
  then show ?thesis
    using assms(1) q get_job_increment [OF g, of "r_name ?r"]
    unfolding step at_step_def by (simp add: job_at_def)
qed

text \<open>The job row after the run: \<open>done\<close>, with the finishing time stamped.\<close>

definition finished_at :: "bf_env \<Rightarrow> int \<Rightarrow> job \<Rightarrow> route list \<Rightarrow> nat \<Rightarrow> bf_world \<Rightarrow> bool" where
  "finished_at env i j L k w \<longleftrightarrow>
     (\<exists>t. get_job (w_db w) i = Inr (update_row Done (Some t) None (job_at j L k)))
     \<and> (\<forall>r \<in> set (take k L). covered env w r)"

lemma at_step_done:
  assumes "at_step env i j L w0 k w"
  shows "finished_at env i j L k (set_state env w i Done [] True)"
proof -
  have q: "quiet env w" and g: "get_job (w_db w) i = Inr (job_at j L k)"
    using assms by (simp_all add: at_step_def)
  obtain d where d: "update_state (w_db w) i Done (Some (w_now w)) None = Inr d"
    by (simp add: update_state_def)
  then have "set_state env w i Done [] True = with_db w d" using q by (simp add: set_state_def)
  moreover have "covered env (with_db w d) r" if "r \<in> set (take k L)" for r
    by (rule covered_mono [of env w]) (use that assms in \<open>auto simp: at_step_def\<close>)
  ultimately show ?thesis using get_job_update [OF d g] by (auto simp: finished_at_def)
qed

text \<open>How many routes a fresh job with this work list processes.\<close>

definition quota :: "bf_filters \<Rightarrow> route list \<Rightarrow> nat" where
  "quota f L = (if 0 < f_max f then min (length L) (nat (f_max f)) else length L)"

lemma max_reached_quota:
  assumes "k < length L" and "j_processed j = 0"
  shows "max_reached f (job_at j L k) \<longleftrightarrow> quota f L \<le> k"
  using assms by (auto simp: max_reached_def quota_def job_at_def)

lemma batch_loop_quiet:
  assumes "at_step env i j L w0 k w" and "j_state j = Running" and "j_processed j = 0"
    and "k + length rs \<le> length L" and "rs = take (length rs) (drop k L)" and "k \<le> quota f L"
  shows "case batch_loop env i f rs w of
      (w', True) \<Rightarrow> at_step env i j L w0 (k + length rs) w' \<and> k + length rs \<le> quota f L
    | (w', False) \<Rightarrow> finished_at env i j L (quota f L) w'"
  using assms(1,4-6)
proof (induction rs arbitrary: k w)
  case Nil
  then show ?case by simp
next
  case (Cons r rs)
  have kL: "k < length L" using Cons.prems(2) by simp
  have split: "drop k L = L ! k # drop (Suc k) L" using kL by (simp add: Cons_nth_drop_Suc)
  with Cons.prems(3) have r: "r = L ! k" and rs: "rs = take (length rs) (drop (Suc k) L)"
    by (simp_all add: take_Cons')
  have q: "quiet env w" and g: "get_job (w_db w) i = Inr (job_at j L k)"
    and st: "j_state (job_at j L k) = Running"
    using Cons.prems(1) assms(2) by (simp_all add: at_step_def job_at_def)
  show ?case
  proof (cases "quota f L \<le> k")
    case True
    then have "batch_loop env i f (r # rs) w = (set_state env w i Done [] True, False)"
      using q g st max_reached_quota [OF kL assms(3), of f] by (simp add: Let_def)
    then show ?thesis using at_step_done [OF Cons.prems(1)] True Cons.prems(4) by simp
  next
    case False
    let ?w' = "increment env i (r_name r) (process_route env i r w)"
    have "at_step env i j L w0 (Suc k) ?w'" using at_step_next [OF Cons.prems(1) assms(2) kL] r by simp
    then have IH: "case batch_loop env i f rs ?w' of
        (w', True) \<Rightarrow> at_step env i j L w0 (Suc k + length rs) w' \<and> Suc k + length rs \<le> quota f L
      | (w', False) \<Rightarrow> finished_at env i j L (quota f L) w'"
      by (rule Cons.IH) (use Cons.prems(2) rs False in simp_all)
    have eq: "batch_loop env i f (r # rs) w = batch_loop env i f rs ?w'"
      using False q g st max_reached_quota [OF kL assms(3), of f] by (simp add: Let_def)
    show ?thesis unfolding eq using IH by (simp split: prod.splits bool.splits)
  qed
qed

lemma fetch_batch_quiet:
  assumes "at_step env i j L w0 k w" and "L = work_list f (w_db w0)"
    and "distinct (map r_name L)" and "k \<le> length L" and "\<forall>r \<in> set L. r_name r \<noteq> []"
  shows "fetch_route_batch env w f (case j_last (job_at j L k) of None \<Rightarrow> [] | Some a \<Rightarrow> a)
    = Inr (take (batch_limit env) (drop k L))"
proof -
  let ?a = "case j_last (job_at j L k) of None \<Rightarrow> [] | Some a \<Rightarrow> a"
  let ?B = "filter (route_base_match (apply_filters f [])) (d_routes (w_db w0))"
  let ?S = "sort_key (\<lambda>r. (r_name r, r_id r)) ?B"
  have q: "quiet env w" and routes: "d_routes (w_db w) = d_routes (w_db w0)"
    using assms(1) by (simp_all add: at_step_def)
  have base: "route_base_match (apply_filters f a) = route_base_match (apply_filters f [])" for a
    by (simp add: route_base_match_def apply_filters_def fun_eq_iff)
  have flt: "filter (\<lambda>r. route_base_match (apply_filters f ?a) r \<and> Q r) (d_routes (w_db w))
      = filter Q ?B" for Q
    unfolding base [of ?a] routes by simp
  have srt: "sorted (map (\<lambda>r. (r_name r, r_id r)) ?S)" by simp
  have "sorted (map r_name ?S)" using srt by (rule sorted_fst_key)
  moreover have "distinct (map r_name ?S)"
    using assms(3) unfolding assms(2) work_list_def Let_def
    by (cases "f_newest f") (simp_all only: if_True if_False distinct_rev flip: rev_map)
  ultimately have strict: "sorted_wrt (\<lambda>x y. r_name x < r_name y) ?S" by (rule sorted_wrt_strict_mono)
  show ?thesis
  proof (cases "k = 0")
    case True
    then have "?a = []" by (simp add: job_at_def)
    with True q routes assms(2) show ?thesis
      by (auto simp: fetch_route_batch_def list_routes_asc_def list_routes_desc_def work_list_def Let_def
          apply_filters_def)
  next
    case False
    let ?n = "k - 1"
    have a: "?a = r_name (L ! ?n)" and nL: "?n < length L" and kn: "Suc ?n = k"
      using False assms(4) by (simp_all add: job_at_def)
    then have "?a \<noteq> []" using assms(5) by simp
    then have pa: "p_after (apply_filters f ?a) = Some (r_name (L ! ?n))" by (simp add: apply_filters_def a)
    show ?thesis
    proof (cases "f_newest f")
      case True
      then have L: "L = rev ?S" by (simp add: assms(2) work_list_def Let_def)
      have "filter (\<lambda>r. r_name r < r_name (L ! ?n)) L = drop (Suc ?n) L"
        by (rule filter_after_nth [where R = "\<lambda>x y. r_name y < r_name x"])
          (use strict nL in \<open>auto simp: L sorted_wrt_rev dest: order.asym\<close>)
      then have "rev (sort_key (\<lambda>r. (r_name r, r_id r)) (filter (\<lambda>r. r_name r < r_name (L ! ?n)) ?B)) = drop k L"
        unfolding kn unfolding L rev_filter [symmetric] filter_sort .
      then show ?thesis
        using q True by (simp add: fetch_route_batch_def list_routes_desc_def flt pa)
    next
      case False
      then have L: "L = ?S" by (simp add: assms(2) work_list_def Let_def)
      have "filter (\<lambda>r. r_name (L ! ?n) < r_name r) L = drop (Suc ?n) L"
        by (rule filter_after_nth [where R = "\<lambda>x y. r_name x < r_name y"])
          (use strict nL in \<open>auto simp: L dest: order.asym\<close>)
      then have "sort_key (\<lambda>r. (r_name r, r_id r)) (filter (\<lambda>r. r_name (L ! ?n) < r_name r) ?B) = drop k L"
        unfolding kn unfolding L filter_sort .
      then show ?thesis
        using q False by (simp add: fetch_route_batch_def list_routes_asc_def flt pa)
    qed
  qed
qed

lemma batch_limit_pos: "0 < batch_limit env"
  by (simp add: batch_limit_def default_batch_def)

lemma job_loop_quiet:
  assumes "at_step env i j L w0 k w" and "L = work_list f (w_db w0)"
    and "distinct (map r_name L)" and "\<forall>r \<in> set L. r_name r \<noteq> []"
    and "j_state j = Running" and "j_processed j = 0" and "decode_filters (j_filters j) = Some f"
    and "k \<le> quota f L" and "length L - k < n"
  shows "\<exists>w'. job_loop n env i w = Some w' \<and> finished_at env i j L (quota f L) w'"
  using assms(1,8,9)
proof (induction n arbitrary: k w)
  case 0
  then show ?case by simp
next
  case (Suc n)
  have q: "quiet env w" and g: "get_job (w_db w) i = Inr (job_at j L k)"
    and st: "j_state (job_at j L k) = Running" and dec: "decode_filters (j_filters (job_at j L k)) = Some f"
    using Suc.prems(1) assms(5,7) by (simp_all add: at_step_def job_at_def)
  have kL: "k \<le> length L" using Suc.prems(2) by (simp add: quota_def split: if_splits)
  let ?rs = "take (batch_limit env) (drop k L)"
  have fetch: "fetch_route_batch env w f (case j_last (job_at j L k) of None \<Rightarrow> [] | Some a \<Rightarrow> a) = Inr ?rs"
    by (rule fetch_batch_quiet [OF Suc.prems(1) assms(2,3) kL assms(4)])
  show ?case
  proof (cases "max_reached f (job_at j L k) \<or> ?rs = []")
    case True
    then have full: "quota f L = k"
      using Suc.prems(2) kL batch_limit_pos [of env] assms(6)
      by (auto simp: max_reached_def quota_def job_at_def)
    have "job_loop (Suc n) env i w = Some (set_state env w i Done [] True)"
      using True q g st dec fetch by (auto simp: Let_def)
    then show ?thesis using at_step_done [OF Suc.prems(1)] full by simp
  next
    case False
    then obtain r rs where rs: "?rs = r # rs" by (cases ?rs) auto
    have loop: "job_loop (Suc n) env i w =
        (case batch_loop env i f ?rs w of (w', True) \<Rightarrow> job_loop n env i w' | (w', False) \<Rightarrow> Some w')"
      using False q g st dec fetch rs by (simp add: Let_def del: batch_loop.simps)
    have "case batch_loop env i f ?rs w of
        (w', True) \<Rightarrow> at_step env i j L w0 (k + length ?rs) w' \<and> k + length ?rs \<le> quota f L
      | (w', False) \<Rightarrow> finished_at env i j L (quota f L) w'"
      by (rule batch_loop_quiet [OF Suc.prems(1) assms(5,6)])
        (use kL Suc.prems(2) in \<open>auto simp: min_def\<close>)
    moreover have "length L - (k + length ?rs) < n"
      using Suc.prems(3) False batch_limit_pos [of env] by auto
    ultimately show ?thesis
      unfolding loop using Suc.IH by (auto split: prod.splits bool.splits)
  qed
qed

section \<open>Properties\<close>


definition demo_route :: "int \<Rightarrow> string \<Rightarrow> string \<Rightarrow> route" where
  "demo_route i dg name = \<lparr>r_id = i, r_dongle = dg, r_name = name, r_start = Some 0, r_end = Some 1,
     r_created = 0, r_preserved = False\<rparr>"

definition demo_env :: bf_env where
  "demo_env = \<lparr>e_segments = (\<lambda>_ _. Some [0, 1]), e_fcamera = (\<lambda>_ _ _. True), e_ffmpeg = (\<lambda>_ _ _. True),
     e_batch = 1, e_flt = (\<lambda>_. False), e_errtext = []\<rparr>"

definition demo_world :: "route list \<Rightarrow> env_event list list \<Rightarrow> bf_world" where
  "demo_world rs sched = \<lparr>w_srv = (demo_srv Running)\<lparr>srv_db :=
       \<lparr>d_jobs = [demo_job 1 Running], d_next = 2, d_routes = rs\<rparr>\<rparr>,
     w_sched = sched, w_cancelled = False, w_alpr = True, w_marked = [], w_now = 9\<rparr>"

lemmas demo_world_defs = demo_world_def demo_env_def demo_route_def demo_defs no_filters_def


text \<open>When a pause request lands while the worker is inside a route, \<open>processRoute\<close> stops at the
  next segment boundary, but \<open>processJob\<close> still counts the route as processed and moves the
  resume token past it: with the pause before the first segment nothing of the route is marked,
  and no batch fetched after the resume token can contain the route again.\<close>

theorem pause_skips_route:
  assumes "w_sched w = [] # [EnvApi (\<lambda>_. False) (CPause t)] # rest"
    and "\<not> w_cancelled w" and "w_alpr w" and "\<forall>q. \<not> e_flt env q"
    and "get_latest (w_db w) = Inr j" and "get_job (w_db w) (j_id j) = Inr j"
    and "j_state j = Running" and "\<not> max_reached f j"
    and "e_segments env (r_dongle r) (r_name r) = Some (s # ss)" and "r_name r \<noteq> []"
  shows "\<exists>w'. batch_loop env (j_id j) f [r] w = (w', True)
    \<and> get_job (w_db w') (j_id j)
        = Inr (j\<lparr>j_state := Paused, j_processed := j_processed j + 1, j_last := Some (r_name r)\<rparr>)
    \<and> w_marked w' = w_marked w
    \<and> (\<forall>w2 rs. fetch_route_batch env w2 f (r_name r) = Inr rs \<longrightarrow> r \<notin> set rs)"
proof -
  obtain d where d: "update_state (w_db w) (j_id j) Paused None None = Inr d"
    by (simp add: update_state_def)
  let ?w1 = "w\<lparr>w_sched := [EnvApi (\<lambda>_. False) (CPause t)] # rest\<rparr>"
  let ?w2 = "(with_db w d)\<lparr>w_sched := rest\<rparr>"
  have gd: "get_job d (j_id j) = Inr (j\<lparr>j_state := Paused\<rparr>)"
    using get_job_update [OF d assms(6)] by (simp add: update_row_def coalesce_def)
  have t1: "tick w = ?w1" using assms(1) by (simp add: tick_def)
  have t2: "tick ?w1 = ?w2"
    using d assms(5,7) by (simp add: tick_def pause_def transition_from_def faulty_def with_db_def)
  have stop: "process_route env (j_id j) r ?w1 = ?w2"
    using assms(2,4,9) gd by (simp add: process_route_def t2 wq_def with_db_def)
  have "batch_loop env (j_id j) f [r] w = (increment env (j_id j) (r_name r) ?w2, True)"
    using assms by (simp add: t1 stop wq_def alpr_enabled_def)
  moreover have "increment env (j_id j) (r_name r) ?w2 = with_db ?w2 (increment_progress d (j_id j) (r_name r))"
    using assms(2,4) by (simp add: increment_def wq_def with_db_def)
  moreover have "r \<notin> set rs" if "fetch_route_batch env w2 f (r_name r) = Inr rs" for w2 rs
    using that assms(10)
    by (auto simp: fetch_route_batch_def wq_def list_routes_asc_def list_routes_desc_def apply_filters_def
        dest!: in_set_takeD split: if_splits)
  ultimately show ?thesis
    using get_job_increment [OF gd, of "r_name r"] by (auto simp: with_db_def)
qed

theorem pause_skips_route_witness:
  "snd (batch_loop demo_env 1 no_filters [demo_route 1 ''a'' ''r1'']
     (demo_world [demo_route 1 ''a'' ''r1''] [[], [EnvApi (\<lambda>_. False) (CPause 5)]]))"
  using pause_skips_route [of "demo_world [demo_route 1 ''a'' ''r1''] [[], [EnvApi (\<lambda>_. False) (CPause 5)]]"
      5 "[]" demo_env "demo_job 1 Running" no_filters "demo_route 1 ''a'' ''r1''" 0 "[1]"]
  by (simp add: demo_world_defs get_latest_def get_job_def max_reached_def del: batch_loop.simps) auto

text \<open>The same over a whole job: a pause during the first route, a resume, and a second pass to
  the end leave the job \<open>done\<close> with every route counted, while the front camera segment that
  was waiting when the pause came is not marked.\<close>

definition pause_resume_run :: "bf_world option" where
  "pause_resume_run =
     (let w0 = demo_world [demo_route 1 ''a'' ''r1'', demo_route 2 ''a'' ''r2'']
          [[], [], [], [], [], [EnvApi (\<lambda>_. False) (CPause 5)]]
      in case run_once 9 demo_env w0 of None \<Rightarrow> None
         | Some w1 \<Rightarrow> run_once 9 demo_env (env_apply (EnvApi (\<lambda>_. False) CResume) w1))"

theorem pause_resume_loses_segment:
  "\<exists>w j. pause_resume_run = Some w \<and> get_job (w_db w) 1 = Inr j
     \<and> j_state j = Done \<and> j_processed j = 2
     \<and> (''a'', ''r1'', 0) \<in> set (w_marked w) \<and> (''a'', ''r2'', 1) \<in> set (w_marked w)
     \<and> (''a'', ''r1'', 1) \<notin> set (w_marked w)"
proof -
  have "case pause_resume_run of None \<Rightarrow> False | Some w \<Rightarrow>
      (case get_job (w_db w) 1 of Inl _ \<Rightarrow> False | Inr j \<Rightarrow> j_state j = Done \<and> j_processed j = 2)
      \<and> (''a'', ''r1'', 0) \<in> set (w_marked w) \<and> (''a'', ''r2'', 1) \<in> set (w_marked w)
      \<and> (''a'', ''r1'', 1) \<notin> set (w_marked w)"
    by code_simp
  then show ?thesis by (auto split: option.splits sum.splits)
qed

text \<open>Two devices may have recorded routes of the same name, which the table allows. When a batch
  ends between the two, the keyset cursor on the name alone skips the second: the job is \<open>done\<close>
  with one of its two routes processed.\<close>

theorem same_name_routes_skipped:
  "\<exists>w j. run_once 9 demo_env (demo_world [demo_route 1 ''a'' ''r1'', demo_route 2 ''b'' ''r1''] []) = Some w
     \<and> routes_wf (d_routes (w_db w)) \<and> get_job (w_db w) 1 = Inr j \<and> j_state j = Done \<and> j_processed j = 1
     \<and> (''b'', ''r1'', 0) \<notin> set (w_marked w)"
proof -
  have "case run_once 9 demo_env (demo_world [demo_route 1 ''a'' ''r1'', demo_route 2 ''b'' ''r1''] []) of
      None \<Rightarrow> False | Some w \<Rightarrow> routes_wf (d_routes (w_db w))
      \<and> (case get_job (w_db w) 1 of Inl _ \<Rightarrow> False | Inr j \<Rightarrow> j_state j = Done \<and> j_processed j = 1)
      \<and> (''b'', ''r1'', 0) \<notin> set (w_marked w)"
    by code_simp
  then show ?thesis by (auto split: option.splits sum.splits)
qed

end
