(* ===== verification/Aggregator.thy ===== *)
theory Aggregator imports Prelude begin

text \<open>
  The encounter aggregator of \<open>internal/worker/alpr_aggregator.go\<close>: the pure grouping of a
  route's plate detections into encounters (\<open>computeEncounters\<close>), and \<open>processRoute\<close> with
  the transaction that replaces the route's rows in \<open>plate_encounters\<close>. Plate hashes and
  boxes are byte strings; the iteration order of the Go map over plates is fixed here and a
  property shows that it does not matter.
\<close>

section \<open>Data\<close>

record detection =
  det_id :: int
  det_dongle :: string
  det_route :: string
  det_hash :: string
  det_ts :: "gotime option"
  det_bbox :: string

record encounter =
  en_hash :: string
  en_first :: gotime
  en_last :: gotime
  en_count :: int
  en_turns :: int
  en_gap :: int
  en_bbox_first :: string
  en_bbox_last :: string

text \<open>\<open>row.FrameTs.Time\<close>; an invalid timestamp holds the zero time.\<close>

definition frame_time :: "detection \<Rightarrow> gotime" where
  "frame_time r = (case det_ts r of None \<Rightarrow> zero_time | Some t \<Rightarrow> t)"

section \<open>Grouping\<close>

definition start_encounter :: "detection \<Rightarrow> encounter" where
  "start_encounter r = \<lparr>en_hash = det_hash r, en_first = frame_time r, en_last = frame_time r,
     en_count = 1, en_turns = 0, en_gap = 0, en_bbox_first = det_bbox r, en_bbox_last = det_bbox r\<rparr>"

definition extend_encounter :: "encounter \<Rightarrow> detection \<Rightarrow> duration \<Rightarrow> encounter" where
  "extend_encounter e r delta =
     (let g = to_int32 (go_div delta second)
      in e\<lparr>en_last := frame_time r, en_count := en_count e + 1,
           en_gap := (if en_gap e < g then g else en_gap e), en_bbox_last := det_bbox r\<rparr>)"

fun walk_bucket :: "duration \<Rightarrow> encounter \<Rightarrow> gotime \<Rightarrow> detection list \<Rightarrow> encounter list" where
  "walk_bucket gap cur prev [] = [cur]"
| "walk_bucket gap cur prev (r # rs) =
     (let ts = frame_time r; delta = time_sub ts prev
      in if gap < delta then cur # walk_bucket gap (start_encounter r) ts rs
         else walk_bucket gap (extend_encounter cur r delta) ts rs)"

fun encounters_for_bucket :: "detection list \<Rightarrow> duration \<Rightarrow> encounter list" where
  "encounters_for_bucket [] gap = []"
| "encounters_for_bucket (r # rs) gap = walk_bucket gap (start_encounter r) (frame_time r) rs"

definition min_gap_seconds :: real where
  "min_gap_seconds = 1"

definition effective_gap :: "real \<Rightarrow> duration" where
  "effective_gap gs = dur_seconds (if gs < min_gap_seconds then min_gap_seconds else gs)"

definition plate_bucket :: "detection list \<Rightarrow> string \<Rightarrow> detection list" where
  "plate_bucket rows k = sort_key (\<lambda>r. (frame_time r, det_id r))
     (filter (\<lambda>r. det_ts r \<noteq> None \<and> det_hash r = k) rows)"

definition plate_keys :: "detection list \<Rightarrow> string list" where
  "plate_keys rows = remdups (map det_hash (filter (\<lambda>r. det_ts r \<noteq> None) rows))"

definition compute_encounters :: "detection list \<Rightarrow> real \<Rightarrow> encounter list" where
  "compute_encounters rows gs =
     sort_key (\<lambda>e. (en_first e, en_hash e))
       (concat (map (\<lambda>k. encounters_for_bucket (plate_bucket rows k) (effective_gap gs)) (plate_keys rows)))"

definition unique_plate_hashes :: "encounter list \<Rightarrow> string list" where
  "unique_plate_hashes es = sort (remdups (map en_hash es))"

section \<open>The specification: maximal runs\<close>

text \<open>
  What an encounter summarises: a non-empty run of detections of one plate in time order.
  The runs of a bucket are cut exactly where the step from one detection to the next
  exceeds the gap.
\<close>

fun steps_within :: "duration \<Rightarrow> detection list \<Rightarrow> bool" where
  "steps_within gap (a # b # rs) \<longleftrightarrow> time_sub (frame_time b) (frame_time a) \<le> gap \<and> steps_within gap (b # rs)"
| "steps_within gap _ \<longleftrightarrow> True"

fun cut_beyond :: "duration \<Rightarrow> detection list list \<Rightarrow> bool" where
  "cut_beyond gap (xs # ys # rest) \<longleftrightarrow>
     gap < time_sub (frame_time (hd ys)) (frame_time (last xs)) \<and> cut_beyond gap (ys # rest)"
| "cut_beyond gap _ \<longleftrightarrow> True"

fun max_step_seconds :: "detection list \<Rightarrow> int" where
  "max_step_seconds (a # b # rs) =
     max (time_sub (frame_time b) (frame_time a) div second) (max_step_seconds (b # rs))"
| "max_step_seconds _ = 0"

definition summary :: "detection list \<Rightarrow> encounter" where
  "summary run = \<lparr>en_hash = det_hash (hd run), en_first = frame_time (hd run),
     en_last = frame_time (last run), en_count = int (length run), en_turns = 0,
     en_gap = max_step_seconds run, en_bbox_first = det_bbox (hd run), en_bbox_last = det_bbox (last run)\<rparr>"

text \<open>The gap in whole seconds stays within \<open>int32\<close>: about 68 years.\<close>

definition gap_fits :: "duration \<Rightarrow> bool" where
  "gap_fits gap \<longleftrightarrow> 0 < gap \<and> gap < 2147483648 * second"

lemma max_step_append:
  assumes "run \<noteq> []" and "0 \<le> time_sub (frame_time r) (frame_time (last run))"
  shows "max_step_seconds (run @ [r])
     = max (max_step_seconds run) (time_sub (frame_time r) (frame_time (last run)) div second)"
  using assms
proof (induction run rule: induct_list012)
  case (2 v)
  then have "0 \<le> time_sub (frame_time r) (frame_time v) div second"
    by (simp add: second_def pos_imp_zdiv_nonneg_iff)
  then show ?case by simp
next
  case (3 a b rs)
  then show ?case by (simp add: max.assoc)
qed simp

lemma steps_within_append:
  "run \<noteq> [] \<Longrightarrow> steps_within gap (run @ [r]) \<longleftrightarrow>
     steps_within gap run \<and> time_sub (frame_time r) (frame_time (last run)) \<le> gap"
  by (induction run rule: max_step_seconds.induct) auto

lemma extend_summary:
  assumes "run \<noteq> []" and "0 \<le> time_sub (frame_time r) (frame_time (last run))"
    and "time_sub (frame_time r) (frame_time (last run)) \<le> gap" and "gap_fits gap"
  shows "extend_encounter (summary run) r (time_sub (frame_time r) (frame_time (last run))) = summary (run @ [r])"
proof -
  let ?d = "time_sub (frame_time r) (frame_time (last run))"
  have "to_int32 (go_div ?d second) = ?d div second"
  proof -
    have "?d div second < 2147483648" and "0 \<le> ?d div second"
      using assms(2-4) by (auto simp: gap_fits_def second_def)
    then show ?thesis using assms(2) by (simp add: go_div_nonneg to_int32_id second_def)
  qed
  then show ?thesis
    using assms(1) max_step_append [OF assms(1,2)]
    by (simp add: extend_encounter_def summary_def Let_def max_def)
qed

text \<open>The walk refines the cut: by induction on the rows still to come.\<close>

lemma walk_bucket_runs:
  assumes "run \<noteq> []" and "steps_within gap run" and "sorted (map frame_time (run @ rs))" and "gap_fits gap"
  shows "\<exists>runs. walk_bucket gap (summary run) (frame_time (last run)) rs = map summary runs
    \<and> concat runs = run @ rs \<and> (\<forall>r \<in> set runs. r \<noteq> [] \<and> steps_within gap r) \<and> cut_beyond gap runs
    \<and> runs \<noteq> [] \<and> (\<exists>t. hd runs = run @ t)"
  using assms(1-3)
proof (induction rs arbitrary: run)
  case Nil
  then show ?case by (intro exI [of _ "[run]"]) simp
next
  case (Cons r rs)
  let ?d = "time_sub (frame_time r) (frame_time (last run))"
  have "frame_time (last run) \<le> frame_time r"
    using Cons.prems(1,3) by (auto simp: sorted_append)
  then have nonneg: "0 \<le> ?d" by (rule time_sub_nonneg)
  show ?case
  proof (cases "gap < ?d")
    case True
    have "start_encounter r = summary [r]" by (simp add: start_encounter_def summary_def)
    moreover have "sorted (map frame_time ([r] @ rs))" using Cons.prems(3) by (auto simp: sorted_append)
    ultimately obtain runs where runs: "walk_bucket gap (start_encounter r) (frame_time r) rs = map summary runs"
      "concat runs = r # rs" "\<forall>r \<in> set runs. r \<noteq> [] \<and> steps_within gap r" "cut_beyond gap runs"
      "runs \<noteq> []" "\<exists>t. hd runs = [r] @ t"
      using Cons.IH [of "[r]"] by auto
    have "cut_beyond gap (run # runs)" using runs(4-6) True by (cases runs) auto
    then show ?thesis
      using runs True Cons.prems(1,2) by (intro exI [of _ "run # runs"]) (simp add: Let_def)
  next
    case False
    then have "extend_encounter (summary run) r ?d = summary (run @ [r])"
      using extend_summary [OF Cons.prems(1) nonneg _ assms(4)] by simp
    moreover have "\<exists>runs. walk_bucket gap (summary (run @ [r])) (frame_time (last (run @ [r]))) rs = map summary runs
        \<and> concat runs = (run @ [r]) @ rs \<and> (\<forall>r \<in> set runs. r \<noteq> [] \<and> steps_within gap r) \<and> cut_beyond gap runs
        \<and> runs \<noteq> [] \<and> (\<exists>t. hd runs = (run @ [r]) @ t)"
      by (rule Cons.IH) (use Cons.prems False in \<open>auto simp: steps_within_append\<close>)
    ultimately show ?thesis using False by (fastforce simp: Let_def)
  qed
qed

lemma bucket_runs:
  assumes "sorted (map frame_time grp)" and "gap_fits gap"
  shows "\<exists>runs. encounters_for_bucket grp gap = map summary runs \<and> concat runs = grp
    \<and> (\<forall>r \<in> set runs. r \<noteq> [] \<and> steps_within gap r) \<and> cut_beyond gap runs"
proof (cases grp)
  case Nil
  then show ?thesis by (intro exI [of _ "[]"]) simp
next
  case (Cons r rs)
  have "start_encounter r = summary [r]" by (simp add: start_encounter_def summary_def)
  then show ?thesis
    using Cons walk_bucket_runs [of "[r]" gap rs] assms by fastforce
qed

section \<open>First sightings are distinct\<close>

lemma runs_first_sorted:
  assumes "sorted (map frame_time (concat runs))" and "\<forall>r \<in> set runs. r \<noteq> []" and "cut_beyond gap runs"
    and "0 < gap"
  shows "sorted_wrt (<) (map (\<lambda>r. frame_time (hd r)) runs)"
  using assms
proof (induction gap runs rule: cut_beyond.induct)
  case (1 g xs ys rest)
  have ys: "sorted_wrt (<) (map (\<lambda>r. frame_time (hd r)) (ys # rest))"
    using "1" by (simp add: sorted_append)
  have "frame_time (hd xs) \<le> frame_time (last xs)" and "frame_time (last xs) \<le> frame_time (hd ys)"
    using "1.prems"(1,2) by (auto simp: sorted_append sorted_wrt_append hd_in_set intro: sorted_hd_le_last)
  moreover have "frame_time (last xs) \<noteq> frame_time (hd ys)"
    using "1.prems"(3,4) by auto
  ultimately have "frame_time (hd xs) < frame_time (hd ys)" by simp
  with ys show ?case by (auto intro: less_trans)
qed simp_all

lemma plate_bucket_sorted: "sorted (map frame_time (plate_bucket rows k))"
  unfolding plate_bucket_def by (rule sorted_fst_key [where g = det_id]) simp

lemma plate_bucket_set: "set (plate_bucket rows k) = {r \<in> set rows. det_ts r \<noteq> None \<and> det_hash r = k}"
  by (auto simp: plate_bucket_def)

lemma effective_gap_pos: "0 < effective_gap gs"
proof -
  let ?g = "if gs < min_gap_seconds then min_gap_seconds else gs"
  have "1 \<le> ?g * real_of_int second" by (simp add: min_gap_seconds_def second_def)
  then show ?thesis by (simp add: effective_gap_def dur_seconds_def trunc_def)
qed

lemma plate_encounters:
  assumes "gap_fits gap"
  shows "sorted_wrt (<) (map en_first (encounters_for_bucket (plate_bucket rows k) gap))"
    and "e \<in> set (encounters_for_bucket (plate_bucket rows k) gap) \<Longrightarrow> en_hash e = k"
proof -
  obtain runs where runs: "encounters_for_bucket (plate_bucket rows k) gap = map summary runs"
      "concat runs = plate_bucket rows k" "\<forall>r \<in> set runs. r \<noteq> [] \<and> steps_within gap r" "cut_beyond gap runs"
    using bucket_runs [OF plate_bucket_sorted assms] by blast
  have "sorted_wrt (<) (map (\<lambda>r. frame_time (hd r)) runs)"
    using runs_first_sorted [of runs gap] runs plate_bucket_sorted [of rows k] assms by (auto simp: gap_fits_def)
  then show "sorted_wrt (<) (map en_first (encounters_for_bucket (plate_bucket rows k) gap))"
    by (simp add: runs(1) summary_def comp_def)
  assume "e \<in> set (encounters_for_bucket (plate_bucket rows k) gap)"
  then obtain r where "r \<in> set runs" and e: "e = summary r" by (auto simp: runs(1))
  then have "hd r \<in> set (concat runs)" using runs(3) by (auto intro!: bexI [of _ r] hd_in_set)
  then show "en_hash e = k" using runs(2) by (simp add: e summary_def plate_bucket_set)
qed

text \<open>The key of the table's uniqueness constraint within one route.\<close>

definition enc_key :: "encounter \<Rightarrow> gotime \<times> string" where
  "enc_key e = (en_first e, en_hash e)"

definition raw_encounters :: "detection list \<Rightarrow> duration \<Rightarrow> encounter list" where
  "raw_encounters rows gap = concat (map (\<lambda>k. encounters_for_bucket (plate_bucket rows k) gap) (plate_keys rows))"

lemma compute_encounters_raw:
  "compute_encounters rows gs = sort_key enc_key (raw_encounters rows (effective_gap gs))"
  by (simp add: compute_encounters_def raw_encounters_def enc_key_def [abs_def])

lemma distinct_keys_concat:
  assumes "distinct ks" and "\<And>k. k \<in> set ks \<Longrightarrow> sorted_wrt (<) (map en_first (f k))"
    and "\<And>k e. e \<in> set (f k) \<Longrightarrow> en_hash e = k"
  shows "distinct (map enc_key (concat (map f ks)))"
  using assms(1,2)
proof (induction ks)
  case Nil
  then show ?case by simp
next
  case (Cons k ks)
  have "distinct (map en_first (f k))" using Cons.prems(2) by (simp add: strict_sorted_iff)
  then have "distinct (map enc_key (f k))" by (auto simp: distinct_map inj_on_def enc_key_def)
  moreover have "enc_key ` set (f k) \<inter> enc_key ` set (concat (map f ks)) = {}"
    using Cons.prems(1) by (auto simp: enc_key_def dest!: assms(3))
  ultimately show ?case using Cons by auto
qed

lemma raw_encounters_distinct:
  assumes "gap_fits gap"
  shows "distinct (map enc_key (raw_encounters rows gap))"
  unfolding raw_encounters_def
  by (rule distinct_keys_concat) (use plate_encounters [OF assms] in \<open>auto simp: plate_keys_def\<close>)

lemma plate_bucket_perm:
  assumes "mset rows = mset rows'" and "distinct (map det_id rows)"
  shows "plate_bucket rows k = plate_bucket rows' k"
  unfolding plate_bucket_def
proof (rule sort_key_inj_key_eq)
  show "mset (filter (\<lambda>r. det_ts r \<noteq> None \<and> det_hash r = k) rows)
      = mset (sort_key (\<lambda>r. (frame_time r, det_id r)) (filter (\<lambda>r. det_ts r \<noteq> None \<and> det_hash r = k) rows'))"
    using assms(1) by simp
  show "inj_on (\<lambda>r. (frame_time r, det_id r)) (set (filter (\<lambda>r. det_ts r \<noteq> None \<and> det_hash r = k) rows))"
    using assms(2) by (auto simp: inj_on_def distinct_map)
qed simp

lemma raw_encounters_perm:
  assumes "mset rows = mset rows'" and "distinct (map det_id rows)"
  shows "mset (raw_encounters rows gap) = mset (raw_encounters rows' gap)"
proof -
  have "mset (plate_keys rows) = mset (plate_keys rows')"
    using mset_eq_setD [OF assms(1)] by (simp add: plate_keys_def set_eq_iff_mset_remdups_eq [symmetric])
  then have "mset (map (\<lambda>k. mset (encounters_for_bucket (plate_bucket rows' k) gap)) (plate_keys rows))
      = mset (map (\<lambda>k. mset (encounters_for_bucket (plate_bucket rows' k) gap)) (plate_keys rows'))"
    by simp
  then show ?thesis
    by (simp add: raw_encounters_def mset_concat plate_bucket_perm [OF assms] comp_def flip: sum_mset_sum_list)
qed

section \<open>The tables and one route's transaction\<close>

record enc_row =
  er_id :: int
  er_dongle :: string
  er_route :: string
  er_enc :: encounter
  er_status :: string

record agg_db =
  g_detections :: "detection list"
  g_turns :: "(string \<times> string \<times> gotime) list"
  g_rows :: "enc_row list"
  g_next :: int

datatype agg_query = AList | ACount nat | ABegin | ADelete | AUpsert nat | ACommit

datatype agg_error = AggError string

record agg_event =
  ev_dongle :: string
  ev_route :: string
  ev_hashes :: "string list"

text \<open>
  The output channel: \<open>None\<close> when it is not wired, otherwise its capacity and what is queued.
\<close>

record agg_state =
  a_db :: agg_db
  a_chan :: "(nat \<times> agg_event list) option"

definition list_detections :: "agg_db \<Rightarrow> string \<Rightarrow> string \<Rightarrow> detection list" where
  "list_detections d dg rt = filter (\<lambda>r. det_dongle r = dg \<and> det_route r = rt) (g_detections d)"

definition count_turns :: "agg_db \<Rightarrow> string \<Rightarrow> string \<Rightarrow> gotime \<Rightarrow> gotime \<Rightarrow> int" where
  "count_turns d dg rt a b = int (length (filter (\<lambda>(x, y, t). x = dg \<and> y = rt \<and> a \<le> t \<and> t \<le> b) (g_turns d)))"

definition delete_encounters :: "agg_db \<Rightarrow> string \<Rightarrow> string \<Rightarrow> agg_db" where
  "delete_encounters d dg rt =
     d\<lparr>g_rows := filter (\<lambda>r. \<not> (er_dongle r = dg \<and> er_route r = rt)) (g_rows d)\<rparr>"

text \<open>
  \<open>UpsertEncounter\<close>: on a conflict the first sighting and its box stay, the rest is
  refreshed.
\<close>

definition same_key :: "string \<Rightarrow> string \<Rightarrow> encounter \<Rightarrow> enc_row \<Rightarrow> bool" where
  "same_key dg rt e r \<longleftrightarrow> er_dongle r = dg \<and> er_route r = rt \<and> enc_key (er_enc r) = enc_key e"

definition refresh_row :: "encounter \<Rightarrow> enc_row \<Rightarrow> enc_row" where
  "refresh_row e r = r\<lparr>er_enc := e\<lparr>en_hash := en_hash (er_enc r), en_first := en_first (er_enc r),
      en_bbox_first := en_bbox_first (er_enc r)\<rparr>, er_status := ''open''\<rparr>"

definition upsert_encounter :: "agg_db \<Rightarrow> string \<Rightarrow> string \<Rightarrow> encounter \<Rightarrow> agg_db" where
  "upsert_encounter d dg rt e =
     (if \<exists>r \<in> set (g_rows d). same_key dg rt e r
      then d\<lparr>g_rows := map (\<lambda>r. if same_key dg rt e r then refresh_row e r else r) (g_rows d)\<rparr>
      else d\<lparr>g_rows := g_rows d @ [\<lparr>er_id = g_next d, er_dongle = dg, er_route = rt, er_enc = e,
                 er_status = ''open''\<rparr>], g_next := g_next d + 1\<rparr>)"

fun count_all ::
  "(agg_query \<Rightarrow> bool) \<Rightarrow> agg_db \<Rightarrow> string \<Rightarrow> string \<Rightarrow> nat \<Rightarrow> encounter list \<Rightarrow> agg_error + encounter list" where
  "count_all flt d dg rt n [] = Inr []"
| "count_all flt d dg rt n (e # es) =
     (if flt (ACount n) then Inl (AggError ''count turns in window'')
      else
        (case count_all flt d dg rt (Suc n) es of
           Inl err \<Rightarrow> Inl err
         | Inr rest \<Rightarrow> Inr (e\<lparr>en_turns := to_int32 (count_turns d dg rt (en_first e) (en_last e))\<rparr> # rest)))"

fun upsert_all ::
  "(agg_query \<Rightarrow> bool) \<Rightarrow> string \<Rightarrow> string \<Rightarrow> nat \<Rightarrow> encounter list \<Rightarrow> agg_db \<Rightarrow> agg_error + agg_db" where
  "upsert_all flt dg rt n [] d = Inr d"
| "upsert_all flt dg rt n (e # es) d =
     (if flt (AUpsert n) then Inl (AggError ''upsert encounter'')
      else upsert_all flt dg rt (Suc n) es (upsert_encounter d dg rt e))"

text \<open>
  \<open>persist\<close>: the statements run on the transaction's copy, which replaces the database only
  when the commit succeeds.
\<close>

definition persist ::
  "(agg_query \<Rightarrow> bool) \<Rightarrow> string \<Rightarrow> string \<Rightarrow> encounter list \<Rightarrow> agg_db \<Rightarrow> agg_error option \<times> agg_db" where
  "persist flt dg rt es d =
     (if flt ABegin then (Some (AggError ''begin tx''), d)
      else if flt ADelete then (Some (AggError ''delete prior encounters''), d)
      else
        (case upsert_all flt dg rt 0 es (delete_encounters d dg rt) of
           Inl err \<Rightarrow> (Some err, d)
         | Inr d' \<Rightarrow> if flt ACommit then (Some (AggError ''commit tx''), d) else (None, d')))"

definition emit :: "agg_event \<Rightarrow> (nat \<times> agg_event list) option \<Rightarrow> (nat \<times> agg_event list) option" where
  "emit ev ch = (case ch of None \<Rightarrow> None
     | Some (cap, q) \<Rightarrow> if length q < cap then Some (cap, q @ [ev]) else Some (cap, q))"

definition process_agg_route ::
  "(agg_query \<Rightarrow> bool) \<Rightarrow> real \<Rightarrow> string \<Rightarrow> string \<Rightarrow> agg_state \<Rightarrow> agg_error option \<times> agg_state" where
  "process_agg_route flt gs dg rt s =
     (if flt AList then (Some (AggError ''list detections''), s)
      else
        (let es = compute_encounters (list_detections (a_db s) dg rt) gs in
         (case count_all flt (a_db s) dg rt 0 es of
            Inl err \<Rightarrow> (Some err, s)
          | Inr es' \<Rightarrow>
              (case persist flt dg rt es' (a_db s) of
                 (Some err, d) \<Rightarrow> (Some err, s\<lparr>a_db := d\<rparr>)
               | (None, d) \<Rightarrow>
                   (None, s\<lparr>a_db := d,
                      a_chan := emit \<lparr>ev_dongle = dg, ev_route = rt, ev_hashes = unique_plate_hashes es\<rparr> (a_chan s)\<rparr>)))))"

text \<open>
  \<open>encounterGap\<close>: the settings row, then the struct default, then the constant. The read
  is \<open>None\<close> without a store, \<open>Some (Inl _)\<close> when it fails, and \<open>Some (Inr None)\<close> when
  there is no row.
\<close>

definition default_gap_seconds :: real where
  "default_gap_seconds = 60"

definition encounter_gap :: "real \<Rightarrow> (unit + real option) option \<Rightarrow> real" where
  "encounter_gap struct_default setting =
     (let def = (if struct_default < min_gap_seconds then default_gap_seconds else struct_default) in
      (case setting of
         None \<Rightarrow> def
       | Some (Inl _) \<Rightarrow> def
       | Some (Inr None) \<Rightarrow> def
       | Some (Inr (Some v)) \<Rightarrow> if v < min_gap_seconds then def else v))"

lemma count_all_ok:
  "count_all flt d dg rt n es = Inr es' \<Longrightarrow>
     es' = map (\<lambda>e. e\<lparr>en_turns := to_int32 (count_turns d dg rt (en_first e) (en_last e))\<rparr>) es"
  by (induction es arbitrary: n es') (auto split: if_splits sum.splits)

lemma count_all_no_fault:
  "count_all (\<lambda>_. False) d dg rt n es
     = Inr (map (\<lambda>e. e\<lparr>en_turns := to_int32 (count_turns d dg rt (en_first e) (en_last e))\<rparr>) es)"
  by (induction es arbitrary: n) simp_all

lemma upsert_all_no_fault:
  "upsert_all (\<lambda>_. False) dg rt n es d = Inr (foldl (\<lambda>d e. upsert_encounter d dg rt e) d es)"
  by (induction es arbitrary: n d) simp_all

lemma process_no_fault: "fst (process_agg_route (\<lambda>_. False) gs dg rt s) = None"
  unfolding process_agg_route_def persist_def Let_def count_all_no_fault upsert_all_no_fault by simp

definition route_rows :: "agg_db \<Rightarrow> string \<Rightarrow> string \<Rightarrow> enc_row list" where
  "route_rows d dg rt = filter (\<lambda>r. er_dongle r = dg \<and> er_route r = rt) (g_rows d)"

definition other_rows :: "agg_db \<Rightarrow> string \<Rightarrow> string \<Rightarrow> enc_row list" where
  "other_rows d dg rt = filter (\<lambda>r. \<not> (er_dongle r = dg \<and> er_route r = rt)) (g_rows d)"

text \<open>Inserting encounters with fresh, distinct keys appends one row each, in order.\<close>

lemma upsert_fresh:
  assumes "enc_key e \<notin> enc_key ` er_enc ` set (route_rows d dg rt)"
  shows "map er_enc (route_rows (upsert_encounter d dg rt e) dg rt) = map er_enc (route_rows d dg rt) @ [e]"
    and "other_rows (upsert_encounter d dg rt e) dg rt = other_rows d dg rt"
proof -
  have "\<not> (\<exists>r \<in> set (g_rows d). same_key dg rt e r)"
  proof
    assume "\<exists>r \<in> set (g_rows d). same_key dg rt e r"
    then obtain r where "r \<in> set (route_rows d dg rt)" and "enc_key (er_enc r) = enc_key e"
      by (auto simp: same_key_def route_rows_def)
    then show False using assms by (metis image_eqI)
  qed
  then show "map er_enc (route_rows (upsert_encounter d dg rt e) dg rt) = map er_enc (route_rows d dg rt) @ [e]"
    and "other_rows (upsert_encounter d dg rt e) dg rt = other_rows d dg rt"
    by (simp_all add: upsert_encounter_def route_rows_def other_rows_def)
qed

lemma upsert_all_fresh:
  assumes "upsert_all flt dg rt n es d = Inr d'" and "distinct (map enc_key es)"
    and "enc_key ` set es \<inter> enc_key ` er_enc ` set (route_rows d dg rt) = {}"
  shows "map er_enc (route_rows d' dg rt) = map er_enc (route_rows d dg rt) @ es
    \<and> other_rows d' dg rt = other_rows d dg rt"
  using assms
proof (induction es arbitrary: n d)
  case Nil
  then show ?case by simp
next
  case (Cons e es)
  let ?d = "upsert_encounter d dg rt e"
  have fresh: "enc_key e \<notin> enc_key ` er_enc ` set (route_rows d dg rt)" using Cons.prems(3) by auto
  have rows: "map er_enc (route_rows ?d dg rt) = map er_enc (route_rows d dg rt) @ [e]"
    and other: "other_rows ?d dg rt = other_rows d dg rt"
    using upsert_fresh [OF fresh] by simp_all
  have "enc_key ` er_enc ` set (route_rows ?d dg rt) = enc_key ` set (map er_enc (route_rows ?d dg rt))"
    by (simp only: set_map)
  also have "\<dots> = insert (enc_key e) (enc_key ` er_enc ` set (route_rows d dg rt))"
    by (simp only: rows) auto
  finally have "enc_key ` set es \<inter> enc_key ` er_enc ` set (route_rows ?d dg rt) = {}"
    using Cons.prems(2,3) by auto
  then have "map er_enc (route_rows d' dg rt) = map er_enc (route_rows ?d dg rt) @ es
      \<and> other_rows d' dg rt = other_rows ?d dg rt"
    using Cons.prems(1,2) by (intro Cons.IH [where n = "Suc n"]) (auto split: if_splits)
  then show ?case by (simp add: rows other)
qed

lemma route_rows_deleted [simp]: "route_rows (delete_encounters d dg rt) dg rt = []"
  and other_rows_deleted [simp]: "other_rows (delete_encounters d dg rt) dg rt = other_rows d dg rt"
  by (auto simp: route_rows_def other_rows_def delete_encounters_def filter_empty_conv)

lemma persist_failed: "persist flt dg rt es d = (Some err, d') \<Longrightarrow> d' = d"
  by (auto simp: persist_def split: if_splits sum.splits)

lemma persist_ok:
  assumes "persist flt dg rt es d = (None, d')" and "distinct (map enc_key es)"
  shows "map er_enc (route_rows d' dg rt) = es \<and> other_rows d' dg rt = other_rows d dg rt"
proof -
  have "upsert_all flt dg rt 0 es (delete_encounters d dg rt) = Inr d'"
    using assms(1) by (auto simp: persist_def split: if_splits sum.splits)
  from upsert_all_fresh [OF this assms(2)] show ?thesis by simp
qed

lemma compute_distinct:
  "gap_fits (effective_gap gs) \<Longrightarrow> distinct (map enc_key (compute_encounters rows gs))"
proof -
  assume "gap_fits (effective_gap gs)"
  then have "distinct (map enc_key (raw_encounters rows (effective_gap gs)))"
    by (rule raw_encounters_distinct)
  then show ?thesis
    by (simp add: compute_encounters_raw distinct_map)
qed

lemma enc_key_turns [simp]: "enc_key (e\<lparr>en_turns := n\<rparr>) = enc_key e"
  by (simp add: enc_key_def)

section \<open>Properties\<close>

text \<open>The encounters of a route do not depend on the order in which the database delivers its
  detections, nor on the order of the map over plates.\<close>

theorem compute_encounters_order:
  assumes "mset rows = mset rows'" and "distinct (map det_id rows)" and "gap_fits (effective_gap gs)"
  shows "compute_encounters rows gs = compute_encounters rows' gs"
  unfolding compute_encounters_raw
proof (rule sort_key_inj_key_eq)
  show "mset (raw_encounters rows (effective_gap gs)) = mset (sort_key enc_key (raw_encounters rows' (effective_gap gs)))"
    by (simp add: raw_encounters_perm [OF assms(1,2)])
  show "inj_on enc_key (set (raw_encounters rows (effective_gap gs)))"
    using raw_encounters_distinct [OF assms(3)] by (simp add: distinct_map)
qed simp

definition demo_detection :: "int \<Rightarrow> string \<Rightarrow> int \<Rightarrow> detection" where
  "demo_detection i h t = \<lparr>det_id = i, det_dongle = ''d'', det_route = ''r'', det_hash = h,
     det_ts = Some (t * second), det_bbox = []\<rparr>"

lemma gap_fits_60: "gap_fits (effective_gap 60)"
  by (simp add: gap_fits_def effective_gap_def dur_seconds_def trunc_def min_gap_seconds_def second_def)

theorem compute_encounters_order_witness:
  "compute_encounters [demo_detection 1 ''p'' 0, demo_detection 2 ''q'' 5, demo_detection 3 ''p'' 90] 60
   = compute_encounters [demo_detection 3 ''p'' 90, demo_detection 1 ''p'' 0, demo_detection 2 ''q'' 5] 60"
  by (rule compute_encounters_order) (simp_all add: gap_fits_60, simp_all add: demo_detection_def)

text \<open>C11: the encounters of one plate are the summaries of the maximal runs of its timestamped
  detections: the runs partition them in time order, two neighbours in a run are at most the gap
  apart, two neighbouring runs are further apart, and each encounter carries its run's first and
  last sighting, length and largest step in whole seconds.\<close>

theorem plate_encounters_are_runs:
  assumes "gap_fits gap"
  shows "\<exists>runs. encounters_for_bucket (plate_bucket rows k) gap = map summary runs
    \<and> concat runs = plate_bucket rows k
    \<and> (\<forall>r \<in> set runs. r \<noteq> [] \<and> steps_within gap r) \<and> cut_beyond gap runs
    \<and> (\<Sum>e \<leftarrow> encounters_for_bucket (plate_bucket rows k) gap. en_count e)
        = int (length (filter (\<lambda>r. det_ts r \<noteq> None \<and> det_hash r = k) rows))"
proof -
  obtain runs where runs: "encounters_for_bucket (plate_bucket rows k) gap = map summary runs"
      "concat runs = plate_bucket rows k" "\<forall>r \<in> set runs. r \<noteq> [] \<and> steps_within gap r" "cut_beyond gap runs"
    using bucket_runs [OF plate_bucket_sorted assms] by blast
  have "(\<Sum>e \<leftarrow> map summary runs. en_count e) = int (length (concat runs))"
    by (induction runs) (auto simp: summary_def)
  then show ?thesis using runs by (auto simp: plate_bucket_def)
qed

theorem plate_encounters_are_runs_witness:
  "(\<Sum>e \<leftarrow> encounters_for_bucket (plate_bucket [demo_detection 1 ''p'' 0, demo_detection 2 ''p'' 90] ''p'')
      (60 * second). en_count e) = 2"
  using plate_encounters_are_runs [of "60 * second" "[demo_detection 1 ''p'' 0, demo_detection 2 ''p'' 90]" "''p''"]
  by (auto simp: gap_fits_def second_def demo_detection_def simp del: encounters_for_bucket.simps)


definition demo_agg :: agg_state where
  "demo_agg = \<lparr>a_db = \<lparr>g_detections = [demo_detection 1 ''p'' 0, demo_detection 2 ''p'' 90],
     g_turns = [(''d'', ''r'', 0)], g_rows = [], g_next = 1\<rparr>, a_chan = Some (1, [])\<rparr>"


end
