(* ===== verification/Codec.thy ===== *)
theory Codec imports Prelude begin

text \<open>
  The text codecs of Go's standard library the tokens are built from, as the source uses
  them: \<open>fmt\<close>'s \<open>%d\<close> with \<open>strconv.ParseInt(_, 10, n)\<close>, \<open>base64.RawURLEncoding\<close>,
  \<open>strings.Split\<close> and \<open>strings.SplitN(_, _, 2)\<close>. What a token format needs of its encoding
  is a locale, interpreted on base64.
\<close>

section \<open>Decimal integers\<close>

definition digit_char :: "nat \<Rightarrow> char" where
  "digit_char n = char_of (48 + n)"

definition digit_val :: "char \<Rightarrow> nat option" where
  "digit_val c = (let n = of_char c :: nat in if 48 \<le> n \<and> n \<le> 57 then Some (n - 48) else None)"

fun show_nat :: "nat \<Rightarrow> string" where
  "show_nat n = (if n < 10 then [digit_char n] else show_nat (n div 10) @ [digit_char (n mod 10)])"

declare show_nat.simps [simp del]

definition show_int :: "int \<Rightarrow> string" where
  "show_int i = (if i < 0 then CHR ''-'' # show_nat (nat (- i)) else show_nat (nat i))"

fun read_digits :: "nat \<Rightarrow> string \<Rightarrow> nat option" where
  "read_digits acc [] = Some acc"
| "read_digits acc (c # cs) = (case digit_val c of None \<Rightarrow> None | Some d \<Rightarrow> read_digits (10 * acc + d) cs)"

text \<open>\<open>ParseInt(s, 10, bits)\<close>; every error of it is \<open>None\<close>, as the callers only wrap it.\<close>

definition parse_sign :: "string \<Rightarrow> bool \<times> string" where
  "parse_sign s = (case s of [] \<Rightarrow> (False, [])
     | c # cs \<Rightarrow> if c = CHR ''+'' then (False, cs) else if c = CHR ''-'' then (True, cs) else (False, s))"

definition parse_int :: "nat \<Rightarrow> string \<Rightarrow> int option" where
  "parse_int bits s =
     (case parse_sign s of (neg, ds) \<Rightarrow>
        if ds = [] then None
        else (case read_digits 0 ds of
                None \<Rightarrow> None
              | Some n \<Rightarrow> if neg then (if n \<le> 2 ^ (bits - 1) then Some (- int n) else None)
                         else (if n < 2 ^ (bits - 1) then Some (int n) else None)))"

lemma digit_val_char [simp]: "n < 10 \<Longrightarrow> digit_val (digit_char n) = Some n"
  by (simp add: digit_val_def digit_char_def Let_def)

lemma read_digits_append:
  "read_digits acc (xs @ ys) = (case read_digits acc xs of None \<Rightarrow> None | Some a \<Rightarrow> read_digits a ys)"
  by (induction acc xs rule: read_digits.induct) (auto split: option.splits)

lemma read_show_nat [simp]: "read_digits 0 (show_nat n) = Some n"
proof (induction n rule: show_nat.induct)
  case (1 n)
  then show ?case by (subst show_nat.simps) (simp add: read_digits_append)
qed

lemma show_nat_chars: "c \<in> set (show_nat n) \<Longrightarrow> digit_val c \<noteq> None"
proof (induction n rule: show_nat.induct)
  case (1 n)
  then show ?case by (subst (asm) (2) show_nat.simps) (auto split: if_splits)
qed

lemma show_nat_nonempty [simp]: "show_nat n \<noteq> []"
  by (subst show_nat.simps) simp

lemma show_nat_no_sign: "parse_sign (show_nat n) = (False, show_nat n)"
  using show_nat_chars [of "hd (show_nat n)" n]
  by (cases "show_nat n") (auto simp: parse_sign_def digit_val_def Let_def)

lemma show_int_chars: "c \<in> set (show_int i) \<Longrightarrow> c = CHR ''-'' \<or> digit_val c \<noteq> None"
  by (auto simp: show_int_def dest: show_nat_chars split: if_splits)

lemma parse_show_int:
  assumes "- (2 ^ (bits - 1)) \<le> i" and "i < 2 ^ (bits - 1)"
  shows "parse_int bits (show_int i) = Some i"
proof (cases "i < 0")
  case True
  have "nat (- i) \<le> 2 ^ (bits - 1)" using assms(1) by (simp add: nat_le_iff)
  then show ?thesis using True by (simp add: parse_int_def show_int_def parse_sign_def)
next
  case False
  then have "nat i < 2 ^ (bits - 1)" using assms(2) by (simp add: nat_less_iff)
  then show ?thesis using False by (simp add: parse_int_def show_int_def show_nat_no_sign)
qed

lemma parse_int_range:
  assumes "parse_int bits s = Some i"
  shows "- (2 ^ (bits - 1)) \<le> i \<and> i < 2 ^ (bits - 1)"
proof -
  have pos: "(0 :: int) < 2 ^ (bits - 1)" by simp
  obtain neg ds where p: "parse_sign s = (neg, ds)" by (cases "parse_sign s")
  with assms obtain n where "read_digits 0 ds = Some n"
    by (auto simp: parse_int_def split: if_splits option.splits)
  with assms p have "neg \<and> n \<le> 2 ^ (bits - 1) \<and> i = - int n \<or> \<not> neg \<and> n < 2 ^ (bits - 1) \<and> i = int n"
    by (auto simp: parse_int_def split: if_splits)
  moreover have "n \<le> 2 ^ (bits - 1) \<Longrightarrow> int n \<le> 2 ^ (bits - 1)"
    by (metis of_nat_le_iff of_nat_numeral of_nat_power)
  moreover have "n < 2 ^ (bits - 1) \<Longrightarrow> int n < 2 ^ (bits - 1)"
    by (metis of_nat_less_iff of_nat_numeral of_nat_power)
  ultimately show ?thesis using pos by linarith
qed

section \<open>Splitting\<close>

fun split_on :: "char \<Rightarrow> string \<Rightarrow> string list" where
  "split_on sep [] = [[]]"
| "split_on sep (c # cs) =
     (if c = sep then [] # split_on sep cs
      else (case split_on sep cs of [] \<Rightarrow> [[c]] | p # ps \<Rightarrow> (c # p) # ps))"

text \<open>\<open>SplitN(s, sep, 2)\<close>: one part when the separator does not occur, otherwise two.\<close>

fun split_two :: "char \<Rightarrow> string \<Rightarrow> string list" where
  "split_two sep [] = [[]]"
| "split_two sep (c # cs) =
     (if c = sep then [[], cs]
      else (case split_two sep cs of [] \<Rightarrow> [[c]] | p # ps \<Rightarrow> (c # p) # ps))"

lemma split_on_none: "sep \<notin> set xs \<Longrightarrow> split_on sep xs = [xs]"
  by (induction xs) auto

lemma split_on_append: "sep \<notin> set xs \<Longrightarrow> split_on sep (xs @ sep # ys) = xs # split_on sep ys"
  by (induction xs) auto

lemma split_two_append: "sep \<notin> set xs \<Longrightarrow> split_two sep (xs @ sep # ys) = [xs, ys]"
  by (induction xs) auto

lemma split_on_nonempty [simp]: "split_on sep xs \<noteq> []"
  by (induction xs) (auto split: list.splits)

lemma split_on_pair:
  "split_on sep s = [a, b] \<Longrightarrow> s = a @ sep # b \<and> sep \<notin> set a \<and> sep \<notin> set b"
proof (induction s arbitrary: a)
  case (Cons c cs)
  show ?case
  proof (cases "c = sep")
    case True
    with Cons.prems have "a = []" and b: "split_on sep cs = [b]" by simp_all
    have "split_on sep xs = [y] \<Longrightarrow> xs = y \<and> sep \<notin> set y" for xs y
      by (induction xs arbitrary: y) (auto split: if_splits list.splits)
    with True b \<open>a = []\<close> show ?thesis by auto
  next
    case False
    with Cons.prems obtain a' where "split_on sep cs = [a', b]" and "a = c # a'"
      by (auto split: list.splits)
    with Cons.IH [of a'] False show ?thesis by auto
  qed
qed simp

section \<open>Raw URL base64\<close>

definition b64_char :: "nat \<Rightarrow> char" where
  "b64_char n = (if n < 26 then char_of (65 + n) else if n < 52 then char_of (97 + (n - 26))
     else if n < 62 then char_of (48 + (n - 52)) else if n = 62 then CHR ''-'' else CHR ''_'')"

definition b64_val :: "char \<Rightarrow> nat option" where
  "b64_val c =
     (let n = of_char c :: nat in
      if 65 \<le> n \<and> n \<le> 90 then Some (n - 65)
      else if 97 \<le> n \<and> n \<le> 122 then Some (n - 97 + 26)
      else if 48 \<le> n \<and> n \<le> 57 then Some (n - 48 + 52)
      else if n = 45 then Some 62 else if n = 95 then Some 63 else None)"

fun b64_enc :: "string \<Rightarrow> string" where
  "b64_enc [] = []"
| "b64_enc [a] = (let n = of_char a * 65536 in [b64_char (n div 262144), b64_char (n div 4096 mod 64)])"
| "b64_enc [a, b] = (let n = of_char a * 65536 + of_char b * 256
     in [b64_char (n div 262144), b64_char (n div 4096 mod 64), b64_char (n div 64 mod 64)])"
| "b64_enc (a # b # c # rest) = (let n = of_char a * 65536 + of_char b * 256 + of_char c
     in [b64_char (n div 262144), b64_char (n div 4096 mod 64), b64_char (n div 64 mod 64), b64_char (n mod 64)]
        @ b64_enc rest)"

text \<open>
  The decoder of sextets: whole quanta of four, then a tail of two or three; a tail of one is
  corrupt input. The encoding is not strict, so the unused bits of a tail are dropped.
\<close>

fun unsextets :: "nat list \<Rightarrow> string option" where
  "unsextets [] = Some []"
| "unsextets [w] = None"
| "unsextets [w, x] = (let n = w * 262144 + x * 4096 in Some [char_of (n div 65536)])"
| "unsextets [w, x, y] = (let n = w * 262144 + x * 4096 + y * 64
     in Some [char_of (n div 65536), char_of (n div 256 mod 256)])"
| "unsextets (w # x # y # z # rest) =
     (let n = w * 262144 + x * 4096 + y * 64 + z in
      (case unsextets rest of None \<Rightarrow> None
       | Some s \<Rightarrow> Some (char_of (n div 65536) # char_of (n div 256 mod 256) # char_of (n mod 256) # s)))"

fun all_some :: "'a option list \<Rightarrow> 'a list option" where
  "all_some [] = Some []"
| "all_some (None # xs) = None"
| "all_some (Some x # xs) = (case all_some xs of None \<Rightarrow> None | Some ys \<Rightarrow> Some (x # ys))"

text \<open>\<open>DecodeString\<close> skips carriage returns and line feeds.\<close>

definition b64_dec :: "string \<Rightarrow> string option" where
  "b64_dec s =
     (case all_some (map b64_val (filter (\<lambda>c. c \<noteq> CHR 0x0A \<and> c \<noteq> CHR 0x0D) s)) of
        None \<Rightarrow> None | Some ns \<Rightarrow> unsextets ns)"

lemma b64_val_char [simp]: "n < 64 \<Longrightarrow> b64_val (b64_char n) = Some n"
  by (auto simp: b64_val_def b64_char_def Let_def)

lemma b64_char_not_newline [simp]:
  "n < 64 \<Longrightarrow> b64_char n \<noteq> CHR 0x0A" "n < 64 \<Longrightarrow> b64_char n \<noteq> CHR 0x0D"
  using b64_val_char [of n] by (auto simp: b64_val_def simp del: b64_val_char)

lemma b64_char_not_dot [simp]: "n < 64 \<Longrightarrow> b64_char n \<noteq> CHR ''.''"
  using b64_val_char [of n] by (auto simp: b64_val_def simp del: b64_val_char)

lemma quantum: "n div 262144 * 262144 + n div 4096 mod 64 * 4096 + n div 64 mod 64 * 64 + n mod 64 = (n :: nat)"
proof -
  have compose: "q3 * 64 + r3 = q2 \<Longrightarrow> q2 * 64 + r2 = q1 \<Longrightarrow> q1 * 64 + r1 = m
      \<Longrightarrow> q3 * 262144 + r3 * 4096 + r2 * 64 + r1 = m" for q1 q2 q3 r1 r2 r3 m :: nat
    by simp
  have "n div 4096 = n div 64 div 64" and "n div 262144 = n div 64 div 64 div 64"
    by (simp_all flip: div_mult2_eq)
  then show ?thesis
    by (simp only:) (rule compose [OF div_mult_mod_eq div_mult_mod_eq div_mult_mod_eq])
qed

text \<open>Every quantum is read back, whichever of its bytes are there.\<close>

lemma quantum_bytes:
  assumes "a < 256" and "b < 256" and "c < (256 :: nat)"
  defines "n \<equiv> a * 65536 + b * 256 + c"
  shows "n div 262144 < 64" and "n div 65536 = a" and "n div 256 mod 256 = b" and "n mod 256 = c"
proof -
  have "n < 64 * 262144" using assms by simp
  then show "n div 262144 < 64" by (rule less_mult_imp_div_less)
  show "n div 65536 = a" using assms by (intro div_nat_eqI) simp_all
  have "n div 256 = a * 256 + b" using assms by (intro div_nat_eqI) simp_all
  then show "n div 256 mod 256 = b" using assms by simp
  have "n = (a * 256 + b) * 256 + c" by (simp add: n_def)
  then show "n mod 256 = c" using assms(3) by (metis mod_less mod_mult_self3)
qed

lemma all_some_map [simp]: "all_some (map Some xs) = Some xs"
  by (induction xs) auto

text \<open>The sextets of an encoding, and that their characters are letters of the alphabet.\<close>

fun sextets :: "string \<Rightarrow> nat list" where
  "sextets [] = []"
| "sextets [a] = (let n = of_char a * 65536 in [n div 262144, n div 4096 mod 64])"
| "sextets [a, b] = (let n = of_char a * 65536 + of_char b * 256
     in [n div 262144, n div 4096 mod 64, n div 64 mod 64])"
| "sextets (a # b # c # rest) = (let n = of_char a * 65536 + of_char b * 256 + of_char c
     in [n div 262144, n div 4096 mod 64, n div 64 mod 64, n mod 64] @ sextets rest)"

lemma b64_enc_sextets: "b64_enc s = map b64_char (sextets s)"
  by (induction s rule: b64_enc.induct) (simp_all add: Let_def)

lemma sextets_less: "n \<in> set (sextets s) \<Longrightarrow> n < 64"
proof (induction s rule: sextets.induct)
  case (2 a)
  then show ?case using quantum_bytes(1) [of "of_char a" 0 0] by (auto simp: Let_def)
next
  case (3 a b)
  then show ?case using quantum_bytes(1) [of "of_char a" "of_char b" 0] by (auto simp: Let_def)
next
  case (4 a b c rest)
  then show ?case using quantum_bytes(1) [of "of_char a" "of_char b" "of_char c"] by (auto simp: Let_def)
qed simp

lemma unsextets_one:
  "n mod 64 = 0 \<Longrightarrow> n div 64 mod 64 = 0 \<Longrightarrow>
     unsextets [n div 262144, n div 4096 mod 64] = Some [char_of (n div 65536)]"
  using quantum [of n] by (simp add: Let_def)

lemma unsextets_two:
  "n mod 64 = 0 \<Longrightarrow> unsextets [n div 262144, n div 4096 mod 64, n div 64 mod 64]
     = Some [char_of (n div 65536), char_of (n div 256 mod 256)]"
  using quantum [of n] by (simp add: Let_def)

lemma unsextets_three:
  "unsextets (n div 262144 # n div 4096 mod 64 # n div 64 mod 64 # n mod 64 # rest)
     = (case unsextets rest of None \<Rightarrow> None
        | Some s \<Rightarrow> Some (char_of (n div 65536) # char_of (n div 256 mod 256) # char_of (n mod 256) # s))"
  by (simp only: unsextets.simps Let_def quantum)

lemma multiple_64: "m = 64 * k \<Longrightarrow> m mod 64 = (0 :: nat)" and multiple_div_64: "m = 64 * k \<Longrightarrow> m div 64 = (k :: nat)"
  by simp_all

lemma unsextets_sextets: "unsextets (sextets s) = Some s"
proof (induction s rule: sextets.induct)
  case (2 a)
  have n: "of_char a * 65536 = (64 * (64 * (16 * of_char a)) :: nat)" by simp
  have "of_char a * 65536 div 64 mod 64 = (0 :: nat)"
    by (simp only: multiple_div_64 [OF n]) (rule multiple_64 [OF refl])
  then have "unsextets (sextets [a]) = Some [char_of (of_char a * 65536 div 65536 :: nat)]"
    by (simp only: sextets.simps Let_def unsextets_one multiple_64 [OF n])
  then show ?case by simp
next
  case (3 a b)
  have n: "of_char a * 65536 + of_char b * 256 = (64 * (1024 * of_char a + 4 * of_char b) :: nat)" by simp
  show ?case
    using quantum_bytes(2,3) [of "of_char a" "of_char b" 0]
    by (simp only: sextets.simps Let_def unsextets_two multiple_64 [OF n] nat_of_char_less_256 add_0_right char_of_char zero_less_numeral)
next
  case (4 a b c rest)
  show ?case
    using quantum_bytes(2-4) [of "of_char a" "of_char b" "of_char c"]
    by (simp only: sextets.simps Let_def append.simps unsextets_three 4 option.case nat_of_char_less_256 char_of_char)
qed simp

lemma b64_enc_chars: "c \<in> set (b64_enc s) \<Longrightarrow> \<exists>n < 64. c = b64_char n"
  by (auto simp: b64_enc_sextets dest: sextets_less)

lemma b64_enc_clean: "(\<And>n. n < 64 \<Longrightarrow> b64_char n \<noteq> c) \<Longrightarrow> c \<notin> set (b64_enc s)"
  using b64_enc_chars by blast

lemma b64_enc_nonempty: "s \<noteq> [] \<Longrightarrow> b64_enc s \<noteq> []"
  by (cases s rule: b64_enc.cases) (simp_all add: Let_def)

lemma b64_roundtrip [simp]: "b64_dec (b64_enc s) = Some s"
proof -
  have "CHR 0x0A \<notin> set (b64_enc s)" and "CHR 0x0D \<notin> set (b64_enc s)"
    by (rule b64_enc_clean, erule b64_char_not_newline)+
  then have "filter (\<lambda>c. c \<noteq> CHR 0x0A \<and> c \<noteq> CHR 0x0D) (b64_enc s) = b64_enc s"
    by (intro filter_True) metis
  moreover have "map b64_val (b64_enc s) = map Some (sextets s)"
    by (simp add: b64_enc_sextets sextets_less)
  ultimately show ?thesis by (simp only: b64_dec_def all_some_map option.case unsextets_sextets)
qed

section \<open>What a token format needs of its encoding\<close>

text \<open>
  Two encoded fields joined by a separator the encoding never produces: splitting the token
  gives exactly the two fields back.
\<close>

locale token_codec =
  fixes enc :: "string \<Rightarrow> string"
    and dec :: "string \<Rightarrow> string option"
    and sep :: char
  assumes roundtrip: "dec (enc x) = Some x"
    and clean: "sep \<notin> set (enc x)"
begin

lemma fields: "split_on sep (enc x @ sep # enc y) = [enc x, enc y]"
  by (simp add: split_on_append split_on_none clean)

lemma enc_inject: "enc x = enc y \<longleftrightarrow> x = y"
  by (metis option.inject roundtrip)

end

interpretation b64: token_codec b64_enc b64_dec "CHR ''.''"
proof
  show "CHR ''.'' \<notin> set (b64_enc x)" for x
    by (rule b64_enc_clean) (erule b64_char_not_dot)
  show "b64_dec (b64_enc x) = Some x" for x by (rule b64_roundtrip)
qed

end
