(* ===== verification/Tokens.thy ===== *)
theory Tokens imports Codec begin

text \<open>
  The two signed tokens: the session cookie of \<open>internal/sessioncookie/sessioncookie.go\<close> and
  the share token of \<open>internal/share/token.go\<close>. HMAC-SHA256 is the parameter \<open>mac\<close> (secret,
  message); \<open>encoding/json\<close>'s \<open>Unmarshal\<close> of the share payload is the parameter
  \<open>unmarshal\<close>. What the properties need of them are hypotheses: no two messages have one
  MAC, and \<open>unmarshal\<close> reads what \<open>Marshal\<close> writes.
\<close>

section \<open>Unix time\<close>

text \<open>\<open>t.Unix()\<close> and \<open>time.Unix(s, 0)\<close>, whose shift to the year-1 epoch wraps around.\<close>

definition time_to_unix :: "gotime \<Rightarrow> int" where
  "time_to_unix t = to_int64 (t div second)"

definition unix_to_time :: "int \<Rightarrow> gotime" where
  "unix_to_time s = (to_int64 (s + 62135596800) - 62135596800) * second"

definition unix_range :: "gotime \<Rightarrow> bool" where
  "unix_range t \<longleftrightarrow> - 9223372036854775808 \<le> t div second \<and> t div second < 9223372036854775808 - 62135596800"

lemma time_to_unix_range: "unix_range t \<Longrightarrow> time_to_unix t = t div second"
  by (simp add: unix_range_def time_to_unix_def to_int64_id)

lemma unix_roundtrip: "unix_range t \<Longrightarrow> unix_to_time (time_to_unix t) = t div second * second"
  by (simp add: time_to_unix_range unix_to_time_def to_int64_id unix_range_def)

section \<open>The session cookie\<close>

datatype cookie_error =
  EmptySecret | EmptyCookie | MalformedCookie | BadPayloadCoding | BadSignatureCoding
| SignatureMismatch | MalformedPayload | BadUserId | BadExpiry | SessionExpired

type_synonym mac = "string \<Rightarrow> string \<Rightarrow> string"

definition cookie_payload :: "int \<Rightarrow> gotime \<Rightarrow> string" where
  "cookie_payload uid t = show_int uid @ CHR ''|'' # show_int (time_to_unix t)"

definition sign_cookie :: "mac \<Rightarrow> string \<Rightarrow> int \<Rightarrow> gotime \<Rightarrow> string" where
  "sign_cookie mac secret uid t =
     (let payload = cookie_payload uid t; sig = mac secret payload
      in b64_enc payload @ CHR ''.'' # b64_enc sig)"

definition parse_cookie_payload :: "string \<Rightarrow> gotime \<Rightarrow> cookie_error + int" where
  "parse_cookie_payload payload now =
     (case split_two (CHR ''|'') payload of
        [f0, f1] \<Rightarrow>
          (case parse_int 32 f0 of None \<Rightarrow> Inl BadUserId
           | Some uid \<Rightarrow>
               (case parse_int 64 f1 of None \<Rightarrow> Inl BadExpiry
                | Some e \<Rightarrow> if unix_to_time e < now then Inl SessionExpired else Inr uid))
      | _ \<Rightarrow> Inl MalformedPayload)"

definition parse_cookie_at :: "mac \<Rightarrow> string \<Rightarrow> string \<Rightarrow> gotime \<Rightarrow> cookie_error + int" where
  "parse_cookie_at mac secret v now =
     (if secret = [] then Inl EmptySecret
      else if v = [] then Inl EmptyCookie
      else
        (case split_on (CHR ''.'') v of
           [p0, p1] \<Rightarrow>
             (case b64_dec p0 of None \<Rightarrow> Inl BadPayloadCoding
              | Some payload \<Rightarrow>
                  (case b64_dec p1 of None \<Rightarrow> Inl BadSignatureCoding
                   | Some sig \<Rightarrow>
                       if mac secret payload \<noteq> sig then Inl SignatureMismatch
                       else parse_cookie_payload payload now))
         | _ \<Rightarrow> Inl MalformedCookie))"

lemma payload_parse:
  assumes "- 2147483648 \<le> uid" and "uid < 2147483648" and "unix_range t"
  shows "parse_cookie_payload (cookie_payload uid t) now
     = (if t div second * second < now then Inl SessionExpired else Inr uid)"
proof -
  have "CHR ''|'' \<notin> set (show_int uid)"
    by (auto simp: digit_val_def Let_def dest!: show_int_chars)
  then have "split_two (CHR ''|'') (cookie_payload uid t) = [show_int uid, show_int (time_to_unix t)]"
    by (simp add: cookie_payload_def split_two_append)
  moreover have "parse_int 32 (show_int uid) = Some uid"
    using assms(1,2) by (intro parse_show_int) simp_all
  moreover have "parse_int 64 (show_int (time_to_unix t)) = Some (time_to_unix t)"
    using to_int64_bounds [of "t div second"] by (intro parse_show_int) (simp_all add: time_to_unix_def)
  ultimately show ?thesis using unix_roundtrip [OF assms(3)] by (simp add: parse_cookie_payload_def)
qed

lemma sign_cookie_split:
  "split_on (CHR ''.'') (sign_cookie mac secret uid t)
     = [b64_enc (cookie_payload uid t), b64_enc (mac secret (cookie_payload uid t))]"
  by (simp add: sign_cookie_def Let_def b64.fields)

lemma parse_split_cookie:
  "split_on (CHR ''.'') v = [b64_enc payload, b64_enc (mac secret payload)] \<Longrightarrow> secret \<noteq> [] \<Longrightarrow>
     parse_cookie_at mac secret v now = parse_cookie_payload payload now"
  by (auto simp: parse_cookie_at_def b64.roundtrip)

lemma cookie_accepted:
  assumes "parse_cookie_at mac secret v now = Inr uid"
  obtains p s payload where "split_on (CHR ''.'') v = [p, s]" and "b64_dec p = Some payload"
    and "b64_dec s = Some (mac secret payload)" and "parse_cookie_payload payload now = Inr uid"
  using assms by (auto simp: parse_cookie_at_def split: if_splits list.splits option.splits)

section \<open>The share token\<close>

record share_payload =
  sp_route :: int
  sp_exp :: int
  sp_redact :: bool

datatype share_error = ShareEmptySecret | ShareExpired | ShareInvalid

type_synonym unmarshal = "string \<Rightarrow> share_payload option"

definition quoted :: "string \<Rightarrow> string" where
  "quoted s = CHR 0x22 # s @ [CHR 0x22]"

text \<open>\<open>json.Marshal\<close>: fields in order, \<open>redact_plates\<close> only when true.\<close>

definition marshal_share :: "share_payload \<Rightarrow> string" where
  "marshal_share p = ''{'' @ quoted ''route_id'' @ '':'' @ show_int (sp_route p) @ '','' @ quoted ''exp'' @ '':''
     @ show_int (sp_exp p) @ (if sp_redact p then '','' @ quoted ''redact_plates'' @ '':true'' else []) @ ''}''"

definition sign_share :: "mac \<Rightarrow> string \<Rightarrow> int \<Rightarrow> gotime \<Rightarrow> bool \<Rightarrow> share_error + string" where
  "sign_share mac secret route t redact =
     (if secret = [] then Inl ShareEmptySecret
      else (let body = marshal_share \<lparr>sp_route = route, sp_exp = time_to_unix t, sp_redact = redact\<rparr>;
                enc_body = b64_enc body; sig = mac secret enc_body
            in Inr (enc_body @ CHR ''.'' # b64_enc sig)))"

definition check_share_payload :: "share_payload \<Rightarrow> gotime \<Rightarrow> share_error + (share_payload \<times> gotime)" where
  "check_share_payload p now =
     (if sp_route p = 0 then Inl ShareInvalid
      else if sp_exp p \<le> 0 then Inl ShareInvalid
      else (let e = unix_to_time (sp_exp p) in if e < now then Inl ShareExpired else Inr (p, e)))"

definition parse_share_at ::
  "mac \<Rightarrow> unmarshal \<Rightarrow> string \<Rightarrow> string \<Rightarrow> gotime \<Rightarrow> share_error + (share_payload \<times> gotime)" where
  "parse_share_at mac unmarshal secret tok now =
     (if secret = [] then Inl ShareEmptySecret
      else if tok = [] then Inl ShareInvalid
      else
        (case split_on (CHR ''.'') tok of
           [enc_body, enc_sig] \<Rightarrow>
             (case b64_dec enc_sig of None \<Rightarrow> Inl ShareInvalid
              | Some sig \<Rightarrow>
                  if mac secret enc_body \<noteq> sig then Inl ShareInvalid
                  else
                    (case b64_dec enc_body of None \<Rightarrow> Inl ShareInvalid
                     | Some body \<Rightarrow>
                         (case unmarshal body of None \<Rightarrow> Inl ShareInvalid
                          | Some p \<Rightarrow> check_share_payload p now)))
         | _ \<Rightarrow> Inl ShareInvalid))"

text \<open>\<open>ParseFull\<close> and \<open>ParseTokenAt\<close> project the shared verification.\<close>

definition parse_share_full :: "mac \<Rightarrow> unmarshal \<Rightarrow> string \<Rightarrow> string \<Rightarrow> gotime \<Rightarrow> share_error + (int \<times> gotime)" where
  "parse_share_full mac unmarshal secret tok now =
     (case parse_share_at mac unmarshal secret tok now of Inl e \<Rightarrow> Inl e | Inr (p, e) \<Rightarrow> Inr (sp_route p, e))"

definition parse_share_token ::
  "mac \<Rightarrow> unmarshal \<Rightarrow> string \<Rightarrow> string \<Rightarrow> gotime \<Rightarrow> share_error + (int \<times> gotime \<times> bool)" where
  "parse_share_token mac unmarshal secret tok now =
     (case parse_share_at mac unmarshal secret tok now of Inl e \<Rightarrow> Inl e
      | Inr (p, e) \<Rightarrow> Inr (sp_route p, e, sp_redact p))"

lemma share_signed:
  "sign_share mac secret route t redact = Inr tok \<Longrightarrow>
     split_on (CHR ''.'') tok
       = [b64_enc (marshal_share \<lparr>sp_route = route, sp_exp = time_to_unix t, sp_redact = redact\<rparr>),
          b64_enc (mac secret (b64_enc (marshal_share \<lparr>sp_route = route, sp_exp = time_to_unix t, sp_redact = redact\<rparr>)))]"
  by (auto simp: sign_share_def Let_def b64.fields split: if_splits)

lemma parse_signed_share:
  assumes "sign_share mac secret route t redact = Inr tok"
    and "unmarshal (marshal_share \<lparr>sp_route = route, sp_exp = time_to_unix t, sp_redact = redact\<rparr>) = Some p"
  shows "parse_share_at mac unmarshal secret tok now = check_share_payload p now"
proof -
  have "secret \<noteq> []" using assms(1) by (auto simp: sign_share_def)
  moreover have "tok \<noteq> []" using share_signed [OF assms(1)] by auto
  ultimately show ?thesis
    by (simp only: parse_share_at_def share_signed [OF assms(1)] assms(2) if_False list.case option.case b64.roundtrip simp_thms)
qed

lemma share_accepted:
  assumes "parse_share_at mac unmarshal secret tok now = Inr (p, e)"
  obtains b s body where "split_on (CHR ''.'') tok = [b, s]" and "b64_dec s = Some (mac secret b)"
    and "b64_dec b = Some body" and "unmarshal body = Some p" and "check_share_payload p now = Inr (p, e)"
  using assms by (auto simp: parse_share_at_def check_share_payload_def Let_def split: if_splits list.splits option.splits)

lemma token_nonempty: "split_on c tok = [a, b] \<Longrightarrow> tok \<noteq> []"
  by auto

section \<open>Properties\<close>

text \<open>A cookie signed at login parses back to its user until its expiry, in whole seconds,
  has passed, and is reported as expired from then on.\<close>

theorem cookie_roundtrip:
  assumes "secret \<noteq> []" and "- 2147483648 \<le> uid" and "uid < 2147483648" and "unix_range t"
  shows "parse_cookie_at mac secret (sign_cookie mac secret uid t) now
     = (if t div second * second < now then Inl SessionExpired else Inr uid)"
  by (simp only: parse_split_cookie [where payload = "cookie_payload uid t", OF sign_cookie_split assms(1)]
      payload_parse [OF assms(2-4)])

theorem cookie_roundtrip_witness:
  "parse_cookie_at (\<lambda>s m. s @ m) ''key'' (sign_cookie (\<lambda>s m. s @ m) ''key'' 7 (1000 * second)) (1001 * second)
     = Inl SessionExpired"
  by (subst cookie_roundtrip) (simp_all add: unix_range_def second_def)

text \<open>C24: the signature binds the payload. A cookie that carries the signature issued for a user
  and an expiry is accepted only as that user and only until that expiry, whatever its payload
  field says.\<close>

theorem cookie_unforgeable:
  assumes "parse_cookie_at mac secret v now = Inr u" and "split_on (CHR ''.'') v = [p, s]"
    and "b64_dec s = Some (mac secret (cookie_payload uid t))"
    and "\<And>m m'. mac secret m = mac secret m' \<Longrightarrow> m = m'"
    and "- 2147483648 \<le> uid" and "uid < 2147483648" and "unix_range t"
  shows "u = uid \<and> now \<le> t div second * second"
proof -
  obtain payload where "mac secret (cookie_payload uid t) = mac secret payload"
    and ok: "parse_cookie_payload payload now = Inr u"
    using cookie_accepted [OF assms(1)] assms(2,3) by (metis list.inject option.inject)
  then have "payload = cookie_payload uid t" using assms(4) by metis
  with ok payload_parse [OF assms(5-7)] show ?thesis by (simp split: if_splits)
qed

definition demo_cookie :: string where
  "demo_cookie = sign_cookie (\<lambda>s m. s @ m) ''key'' 7 (1000 * second)"

theorem cookie_unforgeable_witness:
  "\<exists>u. parse_cookie_at (\<lambda>s m. s @ m) ''key'' demo_cookie (900 * second) = Inr u
    \<and> u = 7 \<and> 900 * second \<le> 1000 * second div second * second"
proof -
  have range: "unix_range (1000 * second)" by (simp add: unix_range_def second_def)
  have split: "split_on (CHR ''.'') demo_cookie
      = [b64_enc (cookie_payload 7 (1000 * second)), b64_enc (''key'' @ cookie_payload 7 (1000 * second))]"
    unfolding demo_cookie_def by (rule sign_cookie_split)
  have "parse_cookie_at (\<lambda>s m. s @ m) ''key'' demo_cookie (900 * second)
      = parse_cookie_payload (cookie_payload 7 (1000 * second)) (900 * second)"
    by (rule parse_split_cookie) (simp_all add: split)
  also have "\<dots> = Inr 7" by (subst payload_parse) (simp_all only: range, simp_all add: second_def)
  finally have ok: "parse_cookie_at (\<lambda>s m. s @ m) ''key'' demo_cookie (900 * second) = Inr 7" .
  have "7 = (7 :: int) \<and> 900 * second \<le> 1000 * second div second * second"
    by (rule cookie_unforgeable [OF ok split b64.roundtrip _ _ _ range]) auto
  with ok show ?thesis by blast
qed

text \<open>A share token verifies to exactly the route, expiry and redaction flag it was minted
  with, until the expiry; a token minted for route 0 or a non-positive expiry never verifies.\<close>

theorem share_roundtrip:
  assumes "sign_share mac secret route t redact = Inr tok" and "unix_range t"
    and "unmarshal (marshal_share \<lparr>sp_route = route, sp_exp = time_to_unix t, sp_redact = redact\<rparr>)
      = Some \<lparr>sp_route = route, sp_exp = time_to_unix t, sp_redact = redact\<rparr>"
  shows "parse_share_token mac unmarshal secret tok now =
     (if route = 0 \<or> t div second \<le> 0 then Inl ShareInvalid
      else if t div second * second < now then Inl ShareExpired
      else Inr (route, t div second * second, redact))"
proof -
  have "secret \<noteq> []" using assms(1) by (auto simp: sign_share_def)
  then show ?thesis
    using parse_signed_share [where unmarshal = unmarshal, OF assms(1,3)] unix_roundtrip [OF assms(2), unfolded time_to_unix_range [OF assms(2)]]
    by (simp add: parse_share_token_def check_share_payload_def Let_def time_to_unix_range [OF assms(2)])
qed

definition demo_unmarshal :: unmarshal where
  "demo_unmarshal s = (if s = marshal_share \<lparr>sp_route = 5, sp_exp = 1000, sp_redact = True\<rparr>
     then Some \<lparr>sp_route = 5, sp_exp = 1000, sp_redact = True\<rparr> else None)"

lemma demo_unix: "time_to_unix (1000 * second) = 1000" "unix_range (1000 * second)"
  by (simp_all add: time_to_unix_def to_int64_def second_def unix_range_def)

theorem share_roundtrip_witness:
  "\<exists>tok. sign_share (\<lambda>s m. s @ m) ''key'' 5 (1000 * second) True = Inr tok
    \<and> parse_share_token (\<lambda>s m. s @ m) demo_unmarshal ''key'' tok (900 * second) = Inr (5, 1000 * second, True)"
proof -
  obtain tok where tok: "sign_share (\<lambda>s m. s @ m) ''key'' 5 (1000 * second) True = Inr tok"
    by (simp add: sign_share_def Let_def)
  have "demo_unmarshal (marshal_share \<lparr>sp_route = 5, sp_exp = time_to_unix (1000 * second), sp_redact = True\<rparr>)
      = Some \<lparr>sp_route = 5, sp_exp = time_to_unix (1000 * second), sp_redact = True\<rparr>"
    by (simp add: demo_unmarshal_def demo_unix)
  from share_roundtrip [where unmarshal = demo_unmarshal and now = "900 * second", OF tok demo_unix(2) this]
  show ?thesis using tok by (simp add: second_def)
qed

text \<open>The redaction flag cannot be flipped by the holder of a token. A token with the signature
  issued for a route, an expiry and a flag verifies, if at all, to that route, expiry and flag.\<close>

theorem share_unforgeable:
  assumes "parse_share_token mac unmarshal secret tok now = Inr (r, e, flag)"
    and "split_on (CHR ''.'') tok = [b, s]"
    and "sign_share mac secret route t redact = Inr minted" and "split_on (CHR ''.'') minted = [b', s']"
    and "b64_dec s = b64_dec s'"
    and "\<And>m m'. mac secret m = mac secret m' \<Longrightarrow> m = m'" and "unix_range t"
    and "unmarshal (marshal_share \<lparr>sp_route = route, sp_exp = time_to_unix t, sp_redact = redact\<rparr>)
      = Some \<lparr>sp_route = route, sp_exp = time_to_unix t, sp_redact = redact\<rparr>"
  shows "b = b' \<and> r = route \<and> e = t div second * second \<and> flag = redact \<and> now \<le> e"
proof -
  obtain p where p: "parse_share_at mac unmarshal secret tok now = Inr (p, e)" and r: "r = sp_route p" "flag = sp_redact p"
    using assms(1) by (auto simp: parse_share_token_def split: sum.splits)
  obtain body where body: "b64_dec s = Some (mac secret b)" "b64_dec b = Some body" "unmarshal body = Some p"
      "check_share_payload p now = Inr (p, e)"
    using share_accepted [OF p] assms(2) by (metis list.inject)
  have minted: "b' = b64_enc (marshal_share \<lparr>sp_route = route, sp_exp = time_to_unix t, sp_redact = redact\<rparr>)"
      "s' = b64_enc (mac secret b')"
    using share_signed [OF assms(3)] assms(4) by simp_all
  then have "b = b'" using assms(5,6) body(1) by (metis b64.roundtrip option.inject)
  then have "body = marshal_share \<lparr>sp_route = route, sp_exp = time_to_unix t, sp_redact = redact\<rparr>"
    using body(2) minted(1) by (simp add: b64.roundtrip)
  with body(3) assms(8) have "p = \<lparr>sp_route = route, sp_exp = time_to_unix t, sp_redact = redact\<rparr>" by simp
  then show ?thesis
    using \<open>b = b'\<close> r body(4) unix_roundtrip [OF assms(7)]
    by (auto simp: check_share_payload_def Let_def split: if_splits)
qed

theorem share_unforgeable_witness:
  "\<exists>tok r e flag. parse_share_token (\<lambda>s m. s @ m) demo_unmarshal ''key'' tok (900 * second) = Inr (r, e, flag)
    \<and> r = 5 \<and> e = 1000 * second div second * second \<and> flag = True \<and> 900 * second \<le> e"
proof -
  obtain tok where tok: "sign_share (\<lambda>s m. s @ m) ''key'' 5 (1000 * second) True = Inr tok"
    by (simp add: sign_share_def Let_def)
  obtain b s where split: "split_on (CHR ''.'') tok = [b, s]" using share_signed [OF tok] by blast
  have um: "demo_unmarshal (marshal_share \<lparr>sp_route = 5, sp_exp = time_to_unix (1000 * second), sp_redact = True\<rparr>)
      = Some \<lparr>sp_route = 5, sp_exp = time_to_unix (1000 * second), sp_redact = True\<rparr>"
    by (simp add: demo_unmarshal_def demo_unix)
  have ok: "parse_share_token (\<lambda>s m. s @ m) demo_unmarshal ''key'' tok (900 * second) = Inr (5, 1000 * second, True)"
    unfolding parse_share_token_def parse_signed_share [where unmarshal = demo_unmarshal, OF tok um] demo_unix
    by (simp add: check_share_payload_def unix_to_time_def to_int64_def second_def)
  have "b = b \<and> 5 = (5 :: int) \<and> 1000 * second = 1000 * second div second * second \<and> True = True
      \<and> 900 * second \<le> 1000 * second"
    by (rule share_unforgeable [where unmarshal = demo_unmarshal, OF ok split tok split refl _ demo_unix(2) um]) simp
  with ok show ?thesis by blast
qed

end
