(* ===== verification/Auth.thy ===== *)
theory Auth imports Tokens GoStrings begin

text \<open>
  The authentication middleware of \<open>internal/api/middleware\<close> (\<open>auth.go\<close>, \<open>auth_db.go\<close>,
  \<open>session.go\<close>) and the handshake of \<open>internal/ws/handler.go\<close>. A middleware is a function from
  the request to what happens next: the handler runs with a context, or the request is
  answered. The JWT library is the record \<open>jwt_lib\<close> of the calls made to it, the devices
  table the lookup function.
\<close>

section \<open>Requests, contexts, the JWT library\<close>

record request =
  rq_auth :: string
  rq_cookie :: "string option"

datatype auth_mode = ModeSession | ModeJwt

record auth_ctx =
  cx_user :: "int option"
  cx_mode :: "auth_mode option"
  cx_dongle :: "string option"

definition empty_ctx :: auth_ctx where
  "empty_ctx = \<lparr>cx_user = None, cx_mode = None, cx_dongle = None\<rparr>"

datatype auth_result = Pass auth_ctx | Deny nat string

datatype claim = ClaimStr string | ClaimOther

datatype lookup_error = NoRows | DbFailed

text \<open>
  \<open>jl_unverified\<close> is \<open>ParseUnverified\<close>; \<open>jl_parse\<close> is \<open>jwt.Parse\<close> with a key function and the
  valid methods, and returns the token's \<open>Valid\<close> flag; \<open>jl_rsa\<close> and \<open>jl_ec\<close> read a PEM.
\<close>

record 'key jwt_lib =
  jl_unverified :: "string \<Rightarrow> (string \<Rightarrow> claim option) option"
  jl_parse :: "string \<Rightarrow> (string \<Rightarrow> 'key option) \<Rightarrow> string list \<Rightarrow> bool option"
  jl_rsa :: "string \<Rightarrow> 'key option"
  jl_ec :: "string \<Rightarrow> 'key option"

section \<open>Tokens and identities\<close>

definition extract_token :: "request \<Rightarrow> string option" where
  "extract_token r =
     (case split_two (CHR '' '') (rq_auth r) of
        [scheme, rest] \<Rightarrow>
          if rq_auth r \<noteq> [] \<and> (equal_fold scheme ''JWT'' \<or> equal_fold scheme ''Bearer'')
          then (let tok = trim_space rest in if tok \<noteq> [] then Some tok else None)
          else None
      | _ \<Rightarrow> None)"

fun first_claim :: "(string \<Rightarrow> claim option) \<Rightarrow> string list \<Rightarrow> string option" where
  "first_claim cl [] = None"
| "first_claim cl (k # ks) =
     (case cl k of Some (ClaimStr s) \<Rightarrow> if s \<noteq> [] then Some s else first_claim cl ks
      | _ \<Rightarrow> first_claim cl ks)"

definition extract_dongle_id :: "(string \<Rightarrow> claim option) \<Rightarrow> string option" where
  "extract_dongle_id cl = first_claim cl [''dongle_id'', ''identity'', ''sub'']"

definition parse_identity :: "'key jwt_lib \<Rightarrow> string \<Rightarrow> string option" where
  "parse_identity L tok = (case jl_unverified L tok of None \<Rightarrow> None | Some cl \<Rightarrow> extract_dongle_id cl)"

definition verify_signed_token :: "'key jwt_lib \<Rightarrow> string \<Rightarrow> string \<Rightarrow> bool" where
  "verify_signed_token L tok pem =
     (case jl_parse L tok
         (\<lambda>alg. if alg = ''RS256'' then jl_rsa L pem else if alg = ''ES256'' then jl_ec L pem else None)
         [''RS256'', ''ES256''] of
        None \<Rightarrow> False | Some valid \<Rightarrow> valid)"

section \<open>Middleware\<close>

definition jwt_auth_from_db ::
  "'key jwt_lib \<Rightarrow> (string \<Rightarrow> lookup_error + string option) \<Rightarrow> request \<Rightarrow> auth_ctx \<Rightarrow> auth_result" where
  "jwt_auth_from_db L lookup r c =
     (case extract_token r of
        None \<Rightarrow> Deny 401 ''missing authorization token''
      | Some tok \<Rightarrow>
          (case parse_identity L tok of
             None \<Rightarrow> Deny 401 ''failed to parse token''
           | Some dongle \<Rightarrow>
               (case lookup dongle of
                  Inl NoRows \<Rightarrow> Deny 401 ''device not registered''
                | Inl DbFailed \<Rightarrow> Deny 500 ''failed to look up device''
                | Inr None \<Rightarrow> Deny 401 ''device has no registered public key''
                | Inr (Some pem) \<Rightarrow>
                    if pem = [] then Deny 401 ''device has no registered public key''
                    else if \<not> verify_signed_token L tok pem then Deny 401 ''failed to validate token''
                    else Pass (c\<lparr>cx_dongle := Some dongle\<rparr>))))"

definition parse_session_cookie :: "mac \<Rightarrow> string \<Rightarrow> gotime \<Rightarrow> request \<Rightarrow> int option" where
  "parse_session_cookie mac secret now r =
     (case rq_cookie r of None \<Rightarrow> None
      | Some v \<Rightarrow> (case parse_cookie_at mac secret v now of Inl _ \<Rightarrow> None | Inr uid \<Rightarrow> Some uid))"

definition session_required :: "mac \<Rightarrow> string \<Rightarrow> gotime \<Rightarrow> request \<Rightarrow> auth_ctx \<Rightarrow> auth_result" where
  "session_required mac secret now r c =
     (if secret = [] then Pass (c\<lparr>cx_mode := Some ModeSession\<rparr>)
      else (case parse_session_cookie mac secret now r of
              None \<Rightarrow> Deny 401 ''authentication required''
            | Some uid \<Rightarrow> Pass (c\<lparr>cx_user := Some uid, cx_mode := Some ModeSession\<rparr>)))"

text \<open>The wrapped handler stamps the mode after the JWT middleware has set the dongle.\<close>

definition stamp_jwt :: "auth_result \<Rightarrow> auth_result" where
  "stamp_jwt a = (case a of Pass c \<Rightarrow> Pass (c\<lparr>cx_mode := Some ModeJwt\<rparr>) | Deny n m \<Rightarrow> Deny n m)"

definition session_or_jwt ::
  "mac \<Rightarrow> 'key jwt_lib \<Rightarrow> (string \<Rightarrow> lookup_error + string option) \<Rightarrow> string \<Rightarrow> gotime \<Rightarrow> request \<Rightarrow> auth_ctx
     \<Rightarrow> auth_result" where
  "session_or_jwt mac L lookup secret now r c =
     (case (if secret = [] then None else parse_session_cookie mac secret now r) of
        Some uid \<Rightarrow> Pass (c\<lparr>cx_user := Some uid, cx_mode := Some ModeSession\<rparr>)
      | None \<Rightarrow>
          (case extract_token r of
             None \<Rightarrow> if secret = [] then Pass (c\<lparr>cx_mode := Some ModeSession\<rparr>)
                     else Deny 401 ''authentication required''
           | Some _ \<Rightarrow> stamp_jwt (jwt_auth_from_db L lookup r c)))"

section \<open>Handlers that act on one device\<close>

definition check_dongle_access :: "auth_ctx \<Rightarrow> string \<Rightarrow> bool" where
  "check_dongle_access c dongle =
     (if cx_mode c = Some ModeSession then True
      else (case cx_dongle c of None \<Rightarrow> [] | Some d \<Rightarrow> d) = dongle)"

text \<open>A handler of the \<open>SessionOrJWT\<close> group that targets \<open>dongle\<close> goes on past its first check.\<close>

definition may_act ::
  "mac \<Rightarrow> 'key jwt_lib \<Rightarrow> (string \<Rightarrow> lookup_error + string option) \<Rightarrow> string \<Rightarrow> gotime \<Rightarrow> request \<Rightarrow> string \<Rightarrow> bool" where
  "may_act mac L lookup secret now r dongle =
     (case session_or_jwt mac L lookup secret now r empty_ctx of
        Deny _ _ \<Rightarrow> False
      | Pass c \<Rightarrow> check_dongle_access c dongle)"

section \<open>The WebSocket handshake\<close>

record ws_request =
  ws_cookie :: "string option"
  ws_query :: string
  ws_header :: string

datatype handshake = Upgrade string | Refuse nat string

definition read_cookie_token :: "ws_request \<Rightarrow> string" where
  "read_cookie_token r = (case ws_cookie r of None \<Rightarrow> [] | Some v \<Rightarrow> trim_space v)"

definition extract_auth_header_token :: "string \<Rightarrow> string" where
  "extract_auth_header_token h =
     (if h = [] then []
      else (case split_two (CHR '' '') h of
              [scheme, rest] \<Rightarrow>
                if \<not> equal_fold scheme ''JWT'' \<and> \<not> equal_fold scheme ''Bearer'' then [] else trim_space rest
            | _ \<Rightarrow> []))"

definition first_nonempty :: "string list \<Rightarrow> string" where
  "first_nonempty xs = (case find (\<lambda>x. x \<noteq> []) xs of None \<Rightarrow> [] | Some x \<Rightarrow> x)"

text \<open>The order of the token sources on the two endpoints.\<close>

definition ws_token :: "ws_request \<Rightarrow> string" where
  "ws_token r = first_nonempty [read_cookie_token r, ws_query r, extract_auth_header_token (ws_header r)]"

definition sunnylink_token :: "ws_request \<Rightarrow> string" where
  "sunnylink_token r = first_nonempty [extract_auth_header_token (ws_header r), read_cookie_token r, ws_query r]"

text \<open>\<open>authenticate\<close>: the dongle id or a status with its message.\<close>

definition authenticate ::
  "'key jwt_lib \<Rightarrow> (string \<Rightarrow> lookup_error + string option) \<Rightarrow> string \<Rightarrow> (nat \<times> string) + string" where
  "authenticate L lookup tok =
     (if tok = [] then Inl (401, ''missing authorization token'')
      else
        (case parse_identity L tok of
           None \<Rightarrow> Inl (401, ''failed to parse token'')
         | Some dongle \<Rightarrow>
             (case lookup dongle of
                Inl NoRows \<Rightarrow> Inl (401, ''device not registered'')
              | Inl DbFailed \<Rightarrow> Inl (500, ''failed to look up device'')
              | Inr None \<Rightarrow> Inl (401, ''device has no registered public key'')
              | Inr (Some pem) \<Rightarrow>
                  if pem = [] then Inl (401, ''device has no registered public key'')
                  else if \<not> verify_signed_token L tok pem then Inl (401, ''failed to validate token'')
                  else Inr dongle)))"

definition handle_websocket ::
  "'key jwt_lib \<Rightarrow> (string \<Rightarrow> lookup_error + string option) \<Rightarrow> string \<Rightarrow> ws_request \<Rightarrow> handshake" where
  "handle_websocket L lookup dongle r =
     (if dongle = [] then Refuse 400 ''dongle_id is required''
      else
        (case authenticate L lookup (ws_token r) of
           Inl (st, msg) \<Rightarrow> Refuse st msg
         | Inr d \<Rightarrow> if d \<noteq> dongle then Refuse 403 ''token dongle_id does not match requested dongle_id''
                    else Upgrade dongle))"

text \<open>\<open>HandleSunnylinkWebSocket\<close>: the lookup is by the sunnylink id, \<open>None\<close> when not configured.\<close>

definition handle_sunnylink ::
  "'key jwt_lib \<Rightarrow> (string \<Rightarrow> lookup_error + string option) option \<Rightarrow> ws_request \<Rightarrow> handshake" where
  "handle_sunnylink L lookup r =
     (case lookup of
        None \<Rightarrow> Refuse 503 ''sunnylink not configured''
      | Some lk \<Rightarrow>
          (case authenticate L lk (sunnylink_token r) of
             Inl (st, msg) \<Rightarrow> Refuse st msg
           | Inr d \<Rightarrow> Upgrade d))"

section \<open>Lemmas\<close>

text \<open>Whoever a lookup function speaks for: the token is signed with the key registered for the id.\<close>

definition speaks_for :: "'key jwt_lib \<Rightarrow> (string \<Rightarrow> lookup_error + string option) \<Rightarrow> string \<Rightarrow> string \<Rightarrow> bool" where
  "speaks_for L lookup tok dongle \<longleftrightarrow>
     (\<exists>pem. parse_identity L tok = Some dongle \<and> lookup dongle = Inr (Some pem) \<and> pem \<noteq> []
        \<and> verify_signed_token L tok pem)"

lemma jwt_pass_iff:
  "jwt_auth_from_db L lookup r c = Pass c' \<longleftrightarrow>
     (\<exists>tok d. extract_token r = Some tok \<and> speaks_for L lookup tok d \<and> c' = c\<lparr>cx_dongle := Some d\<rparr>)"
  by (auto simp: jwt_auth_from_db_def speaks_for_def
      split: option.splits sum.splits lookup_error.splits)

lemma stamp_pass_iff: "stamp_jwt a = Pass c \<longleftrightarrow> (\<exists>c'. a = Pass c' \<and> c = c'\<lparr>cx_mode := Some ModeJwt\<rparr>)"
  by (auto simp: stamp_jwt_def split: auth_result.splits)

lemma authenticate_iff: "authenticate L lookup tok = Inr d \<longleftrightarrow> tok \<noteq> [] \<and> speaks_for L lookup tok d"
  by (auto simp: authenticate_def speaks_for_def
      split: option.splits sum.splits lookup_error.splits)

lemma first_claim_nonempty: "first_claim cl ks = Some s \<Longrightarrow> s \<noteq> []"
  by (induction ks) (auto split: option.splits claim.splits if_splits)

lemma speaks_for_nonempty: "speaks_for L lookup tok d \<Longrightarrow> d \<noteq> []"
  by (auto simp: speaks_for_def parse_identity_def extract_dongle_id_def simp del: first_claim.simps
      dest: first_claim_nonempty split: option.splits)

lemma websocket_upgrade_iff:
  "(case authenticate L lookup tok of Inl (st, msg) \<Rightarrow> Refuse st msg | Inr d \<Rightarrow> Upgrade d) = Upgrade d
     \<longleftrightarrow> authenticate L lookup tok = Inr d"
  by (auto split: sum.splits)

lemma split_two_cases:
  "(\<exists>a b. split_two sep s = [a, b] \<and> s = a @ sep # b \<and> sep \<notin> set a) \<or> (split_two sep s = [s] \<and> sep \<notin> set s)"
  by (induction s) auto

section \<open>Properties\<close>

text \<open>C12: per-device isolation behind the session-or-JWT middleware. With a session secret
  configured, a handler targeting a device goes ahead exactly when the request carries an operator
  cookie that parses, or a token that names this very device and verifies under the key
  registered for it.\<close>

theorem device_isolation:
  assumes "secret \<noteq> []"
  shows "may_act mac L lookup secret now r dongle \<longleftrightarrow>
     (\<exists>v uid. rq_cookie r = Some v \<and> parse_cookie_at mac secret v now = Inr uid)
   \<or> (\<exists>tok. extract_token r = Some tok \<and> speaks_for L lookup tok dongle)"
proof (cases "parse_session_cookie mac secret now r")
  case (Some uid)
  then have "may_act mac L lookup secret now r dongle"
    using assms by (simp add: may_act_def session_or_jwt_def check_dongle_access_def)
  moreover have "\<exists>v uid. rq_cookie r = Some v \<and> parse_cookie_at mac secret v now = Inr uid"
    using Some by (auto simp: parse_session_cookie_def split: option.splits sum.splits)
  ultimately show ?thesis by blast
next
  case None
  then have none: "\<not> (\<exists>v uid. rq_cookie r = Some v \<and> parse_cookie_at mac secret v now = Inr uid)"
    by (auto simp: parse_session_cookie_def split: option.splits sum.splits)
  have "may_act mac L lookup secret now r dongle \<longleftrightarrow>
      (\<exists>c. (\<exists>tok. extract_token r = Some tok) \<and> stamp_jwt (jwt_auth_from_db L lookup r empty_ctx) = Pass c
         \<and> check_dongle_access c dongle)"
    using assms None by (auto simp: may_act_def session_or_jwt_def split: option.splits auth_result.splits)
  also have "\<dots> \<longleftrightarrow> (\<exists>tok d. extract_token r = Some tok \<and> speaks_for L lookup tok d
        \<and> check_dongle_access (empty_ctx\<lparr>cx_dongle := Some d, cx_mode := Some ModeJwt\<rparr>) dongle)"
    unfolding stamp_pass_iff jwt_pass_iff by auto
  also have "\<dots> \<longleftrightarrow> (\<exists>tok. extract_token r = Some tok \<and> speaks_for L lookup tok dongle)"
    by (simp add: check_dongle_access_def)
  finally show ?thesis using none by blast
qed

definition demo_jwt :: "nat jwt_lib" where
  "demo_jwt = \<lparr>jl_unverified = (\<lambda>tok. if tok = ''t'' then Some (\<lambda>k. if k = ''identity'' then Some (ClaimStr ''dev'') else None) else None),
     jl_parse = (\<lambda>tok kf algs. if kf ''RS256'' = Some 1 then Some True else None),
     jl_rsa = (\<lambda>pem. if pem = ''pem'' then Some 1 else None), jl_ec = (\<lambda>pem. None)\<rparr>"

definition demo_lookup :: "string \<Rightarrow> lookup_error + string option" where
  "demo_lookup d = (if d = ''dev'' then Inr (Some ''pem'') else Inl NoRows)"

lemma demo_speaks: "speaks_for demo_jwt demo_lookup ''t'' d \<longleftrightarrow> d = ''dev''"
  by (auto simp: speaks_for_def demo_jwt_def demo_lookup_def parse_identity_def extract_dongle_id_def verify_signed_token_def)

lemma demo_extract: "extract_token \<lparr>rq_auth = ''Bearer t'', rq_cookie = None\<rparr> = Some ''t''"
  by code_simp

theorem device_isolation_witness:
  "may_act (\<lambda>s m. s @ m) demo_jwt demo_lookup ''key'' 0 \<lparr>rq_auth = ''Bearer t'', rq_cookie = None\<rparr> ''dev''
   \<and> \<not> may_act (\<lambda>s m. s @ m) demo_jwt demo_lookup ''key'' 0 \<lparr>rq_auth = ''Bearer t'', rq_cookie = None\<rparr> ''other''"
  by (subst device_isolation, simp, subst device_isolation, simp, simp add: demo_extract demo_speaks)

text \<open>A WebSocket is upgraded as a device exactly when the first non-empty token, in the order
  cookie, query, header, speaks for the device of the URL; a sunnylink socket exactly when the
  token speaks for its own id under the sunnylink key.\<close>

theorem websocket_identity:
  "(handle_websocket L lookup dongle r = Upgrade d \<longleftrightarrow>
      d = dongle \<and> ws_token r \<noteq> [] \<and> speaks_for L lookup (ws_token r) dongle)
   \<and> (handle_sunnylink L (Some lk) r = Upgrade d \<longleftrightarrow>
      sunnylink_token r \<noteq> [] \<and> speaks_for L lk (sunnylink_token r) d)"
proof -
  have "handle_websocket L lookup dongle r = Upgrade d \<longleftrightarrow> dongle \<noteq> [] \<and> d = dongle
      \<and> authenticate L lookup (ws_token r) = Inr dongle"
    by (auto simp: handle_websocket_def split: sum.splits)
  then show ?thesis
    unfolding handle_sunnylink_def option.case websocket_upgrade_iff authenticate_iff
    by (auto dest: speaks_for_nonempty)
qed

end
