(* ===== verification/Login.thy ===== *)
theory Login imports Auth begin

text \<open>
  Login, logout and the failed-login limiter of \<open>internal/api/session.go\<close>. The limiter keeps,
  per client address, the times of the failures of the last fifteen minutes; \<open>allowAttempt\<close>
  and \<open>recordAttempt\<close> each take the mutex on their own, so a request is three reads of the clock
  and two critical sections. bcrypt and the request binding are parameters.
\<close>

section \<open>The client address\<close>

record http_req =
  hr_xff :: string
  hr_remote :: string
  hr_tls :: bool
  hr_xfp :: string

definition index_of :: "char \<Rightarrow> string \<Rightarrow> nat option" where
  "index_of c s = (let n = length (takeWhile (\<lambda>x. x \<noteq> c) s) in if n < length s then Some n else None)"

definition last_index_of :: "char \<Rightarrow> string \<Rightarrow> nat option" where
  "last_index_of c s =
     (let n = length (takeWhile (\<lambda>x. x \<noteq> c) (rev s)) in if n < length s then Some (length s - 1 - n) else None)"

text \<open>The host of \<open>net.SplitHostPort\<close>.\<close>

definition split_host_port :: "string \<Rightarrow> string option" where
  "split_host_port s =
     (case last_index_of (CHR '':'') s of
        None \<Rightarrow> None
      | Some i \<Rightarrow>
          if hd s = CHR ''[''
          then (case index_of (CHR '']'') s of
                  None \<Rightarrow> None
                | Some e \<Rightarrow>
                    if Suc e = i \<and> CHR ''['' \<notin> set (tl s) \<and> CHR '']'' \<notin> set (drop (Suc e) s)
                    then Some (take (e - 1) (tl s)) else None)
          else (let host = take i s in
                if CHR '':'' \<in> set host \<or> CHR ''['' \<in> set s \<or> CHR '']'' \<in> set s then None else Some host))"

definition client_ip :: "http_req \<Rightarrow> string" where
  "client_ip r =
     (if hr_xff r \<noteq> []
      then trim_space (case index_of (CHR '','') (hr_xff r) of None \<Rightarrow> hr_xff r | Some i \<Rightarrow> take i (hr_xff r))
      else (case split_host_port (hr_remote r) of None \<Rightarrow> hr_remote r | Some host \<Rightarrow> host))"

definition request_is_tls :: "http_req \<Rightarrow> bool" where
  "request_is_tls r = (hr_tls r \<or> equal_fold (hr_xfp r) ''https'')"

section \<open>The limiter\<close>

type_synonym attempts = "string \<Rightarrow> gotime list"

definition login_rate_max :: nat where
  "login_rate_max = 5"

definition login_rate_window :: duration where
  "login_rate_window = 15 * minute"

definition recent :: "gotime \<Rightarrow> gotime list \<Rightarrow> gotime list" where
  "recent now ts = filter (\<lambda>t. now - login_rate_window < t) ts"

definition allow_attempt :: "gotime \<Rightarrow> string \<Rightarrow> attempts \<Rightarrow> bool \<times> attempts" where
  "allow_attempt now ip a =
     (let kept = recent now (a ip) in (length kept < login_rate_max, a(ip := kept)))"

definition record_attempt :: "gotime \<Rightarrow> gotime \<Rightarrow> string \<Rightarrow> attempts \<Rightarrow> attempts" where
  "record_attempt now1 now2 ip a = a(ip := recent now1 (a ip) @ [now2])"

section \<open>Login and logout\<close>

record ui_user =
  u_id :: int
  u_name :: string
  u_hash :: string

record set_cookie =
  sc_value :: string
  sc_expires :: gotime
  sc_max_age :: int
  sc_secure :: bool

datatype login_resp = LoginErr nat string | LoginOk string set_cookie

definition session_ttl :: duration where
  "session_ttl = 168 * hour"

definition new_session_cookie :: "http_req \<Rightarrow> string \<Rightarrow> gotime \<Rightarrow> set_cookie" where
  "new_session_cookie r v e =
     \<lparr>sc_value = v, sc_expires = e, sc_max_age = session_ttl div second, sc_secure = request_is_tls r\<rparr>"

definition new_cleared_session_cookie :: "http_req \<Rightarrow> set_cookie" where
  "new_cleared_session_cookie r =
     \<lparr>sc_value = [], sc_expires = 0, sc_max_age = - 1, sc_secure = request_is_tls r\<rparr>"

text \<open>The handler past the limiter: the response, and whether the attempt is recorded.\<close>

definition check_login ::
  "mac \<Rightarrow> string \<Rightarrow> (string \<Rightarrow> lookup_error + ui_user) \<Rightarrow> (string \<Rightarrow> string \<Rightarrow> bool) \<Rightarrow> gotime
     \<Rightarrow> http_req \<Rightarrow> (string \<times> string) option \<Rightarrow> login_resp \<times> bool" where
  "check_login mac secret users bcrypt now r body =
     (case body of
        None \<Rightarrow> (LoginErr 400 ''failed to parse request body'', True)
      | Some (name, pw) \<Rightarrow>
          if name = [] \<or> pw = [] then (LoginErr 401 ''invalid username or password'', True)
          else
            (case users name of
               Inl NoRows \<Rightarrow> (LoginErr 401 ''invalid username or password'', True)
             | Inl DbFailed \<Rightarrow> (LoginErr 500 ''failed to look up user'', True)
             | Inr u \<Rightarrow>
                 if \<not> bcrypt (u_hash u) pw then (LoginErr 401 ''invalid username or password'', True)
                 else (let e = now + session_ttl; tok = sign_cookie mac secret (u_id u) e
                       in (LoginOk (u_name u) (new_session_cookie r tok e), False))))"

text \<open>
  The four clock reads of a request: in \<open>allowAttempt\<close>, then either for the expiry or the two of
  \<open>recordAttempt\<close>.
\<close>

record login_clock =
  lc_allow :: gotime
  lc_expiry :: gotime
  lc_cut :: gotime
  lc_append :: gotime

definition login ::
  "mac \<Rightarrow> string \<Rightarrow> (string \<Rightarrow> lookup_error + ui_user) \<Rightarrow> (string \<Rightarrow> string \<Rightarrow> bool) \<Rightarrow> login_clock
     \<Rightarrow> http_req \<Rightarrow> (string \<times> string) option \<Rightarrow> attempts \<Rightarrow> login_resp \<times> attempts" where
  "login mac secret users bcrypt cl r body a =
     (case allow_attempt (lc_allow cl) (client_ip r) a of
        (False, a') \<Rightarrow> (LoginErr 429 ''too many login attempts, try again later'', a')
      | (True, a') \<Rightarrow>
          (case check_login mac secret users bcrypt (lc_expiry cl) r body of
             (resp, True) \<Rightarrow> (resp, record_attempt (lc_cut cl) (lc_append cl) (client_ip r) a')
           | (resp, False) \<Rightarrow> (resp, a')))"

definition logout :: "http_req \<Rightarrow> set_cookie" where
  "logout r = new_cleared_session_cookie r"

section \<open>A sequence of requests\<close>

text \<open>
  The observable history: the address and time of every failure whose password was looked at,
  newest last.
\<close>

definition failed_at :: "login_clock \<Rightarrow> http_req \<Rightarrow> login_resp \<Rightarrow> (string \<times> gotime) list" where
  "failed_at cl r resp =
     (case resp of LoginOk _ _ \<Rightarrow> [] | LoginErr st _ \<Rightarrow> if st = 429 then [] else [(client_ip r, lc_append cl)])"

fun login_run ::
  "mac \<Rightarrow> string \<Rightarrow> (string \<Rightarrow> lookup_error + ui_user) \<Rightarrow> (string \<Rightarrow> string \<Rightarrow> bool)
     \<Rightarrow> (login_clock \<times> http_req \<times> (string \<times> string) option) list \<Rightarrow> attempts \<Rightarrow> (string \<times> gotime) list" where
  "login_run mac secret users bcrypt [] a = []"
| "login_run mac secret users bcrypt ((cl, r, body) # rest) a =
     (case login mac secret users bcrypt cl r body a of
        (resp, a') \<Rightarrow> failed_at cl r resp @ login_run mac secret users bcrypt rest a')"

text \<open>The clock does not go back, within a request or from one request to the next.\<close>

fun clocks_ordered :: "gotime \<Rightarrow> (login_clock \<times> http_req \<times> (string \<times> string) option) list \<Rightarrow> bool" where
  "clocks_ordered t [] = True"
| "clocks_ordered t ((cl, _) # rest) =
     (t \<le> lc_allow cl \<and> lc_allow cl \<le> lc_cut cl \<and> lc_cut cl \<le> lc_append cl \<and> clocks_ordered (lc_append cl) rest)"

definition window_count :: "string \<Rightarrow> gotime \<Rightarrow> (string \<times> gotime) list \<Rightarrow> nat" where
  "window_count ip t hist = length (filter (\<lambda>(i, x). i = ip \<and> t - login_rate_window < x \<and> x \<le> t) hist)"

text \<open>
  The limiter's invariant at time \<open>now\<close>: it holds every failure of the trailing window of each
  address, and no window of the history has more than the maximum.
\<close>

definition limiter_inv :: "gotime \<Rightarrow> (string \<times> gotime) list \<Rightarrow> attempts \<Rightarrow> bool" where
  "limiter_inv now hist a \<longleftrightarrow>
     (\<forall>(i, x) \<in> set hist. x \<le> now)
   \<and> (\<forall>ip. recent now (a ip) = recent now (map snd (filter (\<lambda>(i, x). i = ip) hist)))
   \<and> (\<forall>ip t. window_count ip t hist \<le> login_rate_max)"

lemma recent_recent: "now \<le> now' \<Longrightarrow> recent now' (recent now ts) = recent now' ts"
  by (auto simp: recent_def intro: filter_cong)

lemma limiter_inv_init: "limiter_inv now [] (\<lambda>_. [])"
  by (simp add: limiter_inv_def recent_def window_count_def)

lemma limiter_inv_later:
  assumes "limiter_inv now hist a" and "now \<le> now'"
  shows "limiter_inv now' hist a"
proof -
  have "recent now' (a ip) = recent now' (map snd (filter (\<lambda>(i, x). i = ip) hist))" for ip
    using assms unfolding limiter_inv_def by (metis recent_recent)
  then show ?thesis using assms by (fastforce simp: limiter_inv_def)
qed

lemma limiter_inv_prune:
  "limiter_inv now hist a \<Longrightarrow> limiter_inv now hist (a(ip := recent now (a ip)))"
  by (simp add: limiter_inv_def recent_recent)

lemma window_count_append:
  "window_count ip t (hist @ hist') = window_count ip t hist + window_count ip t hist'"
  by (simp add: window_count_def)

lemma window_count_recent:
  assumes "now \<le> t"
  shows "window_count ip t hist \<le> length (recent now (map snd (filter (\<lambda>(i, x). i = ip) hist)))"
  using assms by (induction hist) (auto simp: window_count_def recent_def)

text \<open>A recorded failure keeps the invariant when the limiter let it through.\<close>

lemma limiter_inv_record:
  assumes inv: "limiter_inv now hist a" and few: "length (recent now (a ip)) < login_rate_max"
    and order: "now \<le> tc" "tc \<le> t"
  shows "limiter_inv t (hist @ [(ip, t)]) (record_attempt tc t ip a)"
proof -
  have old: "x \<le> now" if "(i, x) \<in> set hist" for i x using inv that by (auto simp: limiter_inv_def)
  have win: "window_count i u (hist @ [(ip, t)]) \<le> login_rate_max" for i u
  proof (cases "i = ip \<and> u - login_rate_window < t \<and> t \<le> u")
    case True
    then have "window_count i u hist \<le> length (recent now (a ip))"
      using window_count_recent [of now u ip hist] inv order by (simp add: limiter_inv_def)
    then show ?thesis using few by (simp add: window_count_append window_count_def)
  next
    case False
    then have "window_count i u [(ip, t)] = 0" by (auto simp: window_count_def)
    then show ?thesis using inv by (simp add: window_count_append limiter_inv_def)
  qed
  have rec: "recent t (record_attempt tc t ip a i) = recent t (map snd (filter (\<lambda>(j, x). j = i) (hist @ [(ip, t)])))" for i
  proof -
    have "recent t (a j) = recent t (map snd (filter (\<lambda>(k, x). k = j) hist))" for j
      using limiter_inv_later [OF inv, of t] order by (simp add: limiter_inv_def)
    moreover have "recent t (recent tc (a ip)) = recent t (a ip)" using order by (simp add: recent_recent)
    ultimately show ?thesis by (auto simp: record_attempt_def recent_def)
  qed
  show ?thesis unfolding limiter_inv_def using win rec old order by fastforce
qed

lemma login_inv:
  assumes inv: "limiter_inv now hist a" and "now \<le> lc_allow cl" and "lc_allow cl \<le> lc_cut cl"
    and "lc_cut cl \<le> lc_append cl" and run: "login mac secret users bcrypt cl r body a = (resp, a')"
  shows "limiter_inv (lc_append cl) (hist @ failed_at cl r resp) a'"
proof -
  let ?ip = "client_ip r"
  let ?a = "a(?ip := recent (lc_allow cl) (a ?ip))"
  have inv': "limiter_inv (lc_allow cl) hist ?a"
    using limiter_inv_later [OF inv assms(2)] by (rule limiter_inv_prune)
  show ?thesis
  proof (cases "length (recent (lc_allow cl) (a ?ip)) < login_rate_max")
    case False
    then have "failed_at cl r resp = []" and "a' = ?a"
      using run by (auto simp: login_def allow_attempt_def Let_def failed_at_def)
    then show ?thesis using limiter_inv_later [OF inv'] assms(3,4) by simp
  next
    case True
    obtain resp' b where chk: "check_login mac secret users bcrypt (lc_expiry cl) r body = (resp', b)"
      by (cases "check_login mac secret users bcrypt (lc_expiry cl) r body")
    have out: "b \<longleftrightarrow> (\<exists>st msg. resp' = LoginErr st msg \<and> st \<noteq> 429)" "b \<or> (\<exists>n c. resp' = LoginOk n c)"
      using chk by (auto simp: check_login_def Let_def split: option.splits prod.splits if_splits sum.splits lookup_error.splits)
    show ?thesis
    proof (cases b)
      case rec: True
      then have "a' = record_attempt (lc_cut cl) (lc_append cl) ?ip ?a" and "failed_at cl r resp = [(?ip, lc_append cl)]"
        using run True chk out(1) by (auto simp: login_def allow_attempt_def Let_def failed_at_def)
      moreover have "length (recent (lc_allow cl) (?a ?ip)) < login_rate_max" using True by (simp add: recent_recent)
      ultimately show ?thesis using limiter_inv_record [OF inv' _ assms(3,4)] by simp
    next
      case False
      then have "a' = ?a" and "failed_at cl r resp = []"
        using run True chk out(2) by (auto simp: login_def allow_attempt_def Let_def failed_at_def)
      then show ?thesis using limiter_inv_later [OF inv'] assms(3,4) by simp
    qed
  qed
qed

lemma login_run_inv:
  assumes "limiter_inv now hist a" and "clocks_ordered now rs"
  shows "\<exists>now' a'. limiter_inv now' (hist @ login_run mac secret users bcrypt rs a) a'"
  using assms
proof (induction rs arbitrary: now hist a)
  case Nil
  then show ?case by auto
next
  case (Cons q rs)
  obtain cl r body where q: "q = (cl, r, body)" by (cases q)
  obtain resp a' where run: "login mac secret users bcrypt cl r body a = (resp, a')"
    by (cases "login mac secret users bcrypt cl r body a")
  have "limiter_inv (lc_append cl) (hist @ failed_at cl r resp) a'"
    using Cons.prems by (intro login_inv [OF _ _ _ _ run]) (auto simp: q)
  from Cons.IH [OF this] Cons.prems(2) show ?case by (simp add: q run)
qed

text \<open>\<open>n\<close> requests of one address whose checks all run before the first record.\<close>

definition overlapped_checks :: "gotime \<Rightarrow> string \<Rightarrow> nat \<Rightarrow> attempts \<Rightarrow> bool list" where
  "overlapped_checks t ip n a = map fst (rev (snd (foldl (\<lambda>(a, out) _. (snd (allow_attempt t ip a), allow_attempt t ip a # out))
     (a, []) (replicate n ()))))"

lemma login_fresh_address:
  assumes "a (client_ip r) = []" and "users name = Inl NoRows" and "name \<noteq> []" and "pw \<noteq> []"
  shows "login mac secret users bcrypt cl r (Some (name, pw)) a =
     (LoginErr 401 ''invalid username or password'', a(client_ip r := [lc_append cl]))"
  using assms by (simp add: login_def allow_attempt_def recent_def check_login_def record_attempt_def
      login_rate_max_def Let_def)

section \<open>Properties\<close>

text \<open>C27: requests handled one after another: within any fifteen minutes at most five failed
  attempts of one client address get past the limiter, whatever is sent, succeeds or is rejected
  in between.\<close>

theorem login_rate_bound:
  assumes "clocks_ordered t0 rs"
  shows "window_count ip t (login_run mac secret users bcrypt rs (\<lambda>_. [])) \<le> login_rate_max"
proof -
  obtain now a where "limiter_inv now ([] @ login_run mac secret users bcrypt rs (\<lambda>_. [])) a"
    using login_run_inv [OF limiter_inv_init assms] by blast
  then show ?thesis by (simp add: limiter_inv_def)
qed

definition demo_req :: "string \<Rightarrow> http_req" where
  "demo_req xff = \<lparr>hr_xff = xff, hr_remote = ''10.0.0.1:80'', hr_tls = False, hr_xfp = []\<rparr>"

definition demo_clock :: "gotime \<Rightarrow> login_clock" where
  "demo_clock t = \<lparr>lc_allow = t, lc_expiry = t, lc_cut = t, lc_append = t\<rparr>"

theorem login_rate_bound_witness:
  "window_count ''10.0.0.1'' 5 (login_run (\<lambda>s m. s @ m) ''key'' (\<lambda>_. Inl NoRows) (\<lambda>_ _. False)
     (map (\<lambda>t. (demo_clock t, demo_req [], Some (''admin'', ''guess''))) [0, 1, 2, 3, 4, 5]) (\<lambda>_. [])) \<le> login_rate_max"
  by (rule login_rate_bound [where ?t0.0 = 0]) (simp add: demo_clock_def)

text \<open>The limiter is only as good as the address. The address is read from a header the client
  writes, so a client that sends a fresh value with each guess is never limited: any number of
  failures within one instant gets through.\<close>

theorem login_limit_spoofed:
  assumes "distinct (map client_ip rs)" and "users name = Inl NoRows" and "name \<noteq> []" and "pw \<noteq> []"
    and "\<forall>r \<in> set rs. a (client_ip r) = []"
  shows "login_run mac secret users bcrypt (map (\<lambda>r. (cl, r, Some (name, pw))) rs) a
     = map (\<lambda>r. (client_ip r, lc_append cl)) rs"
  using assms(1,5)
proof (induction rs arbitrary: a)
  case Nil
  then show ?case by simp
next
  case (Cons r rs)
  have "\<forall>r' \<in> set rs. (a(client_ip r := [lc_append cl])) (client_ip r') = []"
    using Cons.prems by (metis distinct.simps(2) fun_upd_other image_eqI list.set_intros(2) list.set_map list.simps(9))
  then have "login_run mac secret users bcrypt (map (\<lambda>r. (cl, r, Some (name, pw))) rs) (a(client_ip r := [lc_append cl]))
      = map (\<lambda>r. (client_ip r, lc_append cl)) rs"
    using Cons.prems(1) by (intro Cons.IH) simp_all
  then show ?case
    using Cons.prems(2) by (simp add: login_fresh_address assms(2-4) failed_at_def del: fun_upd_apply)
qed

theorem login_limit_spoofed_witness:
  "length (login_run (\<lambda>s m. s @ m) ''key'' (\<lambda>_. Inl NoRows) (\<lambda>_ _. False)
     (map (\<lambda>r. (demo_clock 0, r, Some (''admin'', ''guess''))) (map demo_req [''a'', ''b'', ''c'', ''d'', ''e'', ''f'', ''g''])) (\<lambda>_. [])) = 7"
  by (subst login_limit_spoofed)
    (simp_all add: client_ip_def demo_req_def index_of_def trim_space_def ascii_space_def)

text \<open>The limiter's check and its record are two critical sections. Requests that overlap, all
  checked before any is recorded, get through in any number.\<close>

theorem login_limit_races: "overlapped_checks t ip n (\<lambda>_. []) = replicate n True"
proof -
  have "foldl (\<lambda>(a, out) _. (snd (allow_attempt t ip a), allow_attempt t ip a # out)) (\<lambda>_. [], out) (replicate n ())
      = (\<lambda>_. [], replicate n (True, \<lambda>_. []) @ out)" for out
  proof (induction n arbitrary: out)
    case (Suc n)
    have "allow_attempt t ip (\<lambda>_. []) = (True, \<lambda>_. [])"
      by (simp add: allow_attempt_def recent_def login_rate_max_def Let_def fun_upd_idem)
    with Suc show ?case by (simp add: replicate_app_Cons_same)
  qed simp
  then show ?thesis by (simp add: overlapped_checks_def)
qed

end
