(* ===== verification/Paths.thy ===== *)
theory Paths imports Codec "HOL-Library.Sublist" begin

text \<open>
  \<open>path/filepath\<close> on a Unix system, as the storage layer uses it: \<open>Join\<close> followed by \<open>Abs\<close>
  is the list of components that lexical cleaning leaves, and a path string is rendered from
  them. There are no symbolic links in the model.
\<close>

definition slash :: char where
  "slash = CHR ''/''"

text \<open>\<open>Clean\<close> on a rooted path: empty and dot components go, a dot-dot takes one away.\<close>

fun resolve :: "string list \<Rightarrow> string list \<Rightarrow> string list" where
  "resolve acc [] = acc"
| "resolve acc (c # cs) =
     (if c = [] \<or> c = ''.'' then resolve acc cs
      else if c = ''..'' then resolve (butlast acc) cs
      else resolve (acc @ [c]) cs)"

definition rooted :: "string \<Rightarrow> bool" where
  "rooted s = (case s of [] \<Rightarrow> False | c # _ \<Rightarrow> c = slash)"

text \<open>
  \<open>Abs(Join(parts...))\<close>: empty parts are ignored, the first of the others decides whether the
  result starts at the root or at the working directory.
\<close>

definition abs_join :: "string list \<Rightarrow> string list \<Rightarrow> string list" where
  "abs_join cwd parts =
     resolve (case filter (\<lambda>p. p \<noteq> []) parts of [] \<Rightarrow> cwd | p # _ \<Rightarrow> if rooted p then [] else cwd)
       (concat (map (split_on slash) parts))"

fun render_tail :: "string list \<Rightarrow> string" where
  "render_tail [] = []"
| "render_tail (c # cs) = slash # c @ render_tail cs"

definition render :: "string list \<Rightarrow> string" where
  "render p = (if p = [] then [slash] else render_tail p)"

text \<open>A component that cleaning keeps, and the paths made of such components.\<close>

definition plain :: "string \<Rightarrow> bool" where
  "plain c \<longleftrightarrow> c \<noteq> [] \<and> c \<noteq> ''.'' \<and> c \<noteq> ''..'' \<and> slash \<notin> set c"

definition clean_path :: "string list \<Rightarrow> bool" where
  "clean_path p \<longleftrightarrow> (\<forall>c \<in> set p. plain c)"

lemma clean_path_simps [simp]:
  "clean_path []" "clean_path (c # p) \<longleftrightarrow> plain c \<and> clean_path p"
  "clean_path (p @ q) \<longleftrightarrow> clean_path p \<and> clean_path q"
  by (auto simp: clean_path_def)

lemma clean_butlast: "clean_path p \<Longrightarrow> clean_path (butlast p)"
  by (auto simp: clean_path_def dest: in_set_butlastD)

lemma resolve_clean:
  "clean_path acc \<Longrightarrow> \<forall>c \<in> set cs. slash \<notin> set c \<Longrightarrow> clean_path (resolve acc cs)"
proof (induction acc cs rule: resolve.induct)
  case (2 acc c cs)
  then show ?case by (auto simp: plain_def clean_butlast)
qed simp

lemma resolve_plain: "clean_path cs \<Longrightarrow> resolve acc cs = acc @ cs"
  by (induction cs arbitrary: acc) (auto simp: plain_def)

lemma resolve_append: "resolve acc (xs @ ys) = resolve (resolve acc xs) ys"
  by (induction acc xs rule: resolve.induct) auto

lemma split_on_parts: "c \<in> set (split_on sep s) \<Longrightarrow> sep \<notin> set c"
proof (induction s arbitrary: c)
  case (Cons x s)
  then show ?case by (cases "split_on sep s") (auto split: if_splits)
qed simp

lemma split_on_app: "split_on sep (xs @ sep # ys) = split_on sep xs @ split_on sep ys"
proof (induction xs)
  case (Cons x xs)
  then show ?case by (cases "split_on sep xs") auto
qed simp

lemma split_plain [simp]: "plain c \<Longrightarrow> split_on slash c = [c]"
  by (simp add: plain_def split_on_none)

lemma abs_join_clean: "clean_path cwd \<Longrightarrow> clean_path (abs_join cwd parts)"
  unfolding abs_join_def
  by (rule resolve_clean) (auto dest: split_on_parts split: list.splits)

lemma split_render_tail: "clean_path p \<Longrightarrow> split_on slash (render_tail p) = [] # p"
proof (induction p)
  case (Cons c p)
  have "split_on slash (c @ render_tail p) = c # p"
  proof (cases p)
    case Nil
    then show ?thesis using Cons.prems by simp
  next
    case (Cons d q)
    then have "split_on slash (c @ slash # (d @ render_tail q)) = c # split_on slash (d @ render_tail q)"
      using \<open>clean_path (c # p)\<close> by (simp add: split_on_append plain_def)
    moreover have "split_on slash (d @ render_tail q) = p"
      using Cons.IH \<open>clean_path (c # p)\<close> \<open>p = d # q\<close> by (simp add: slash_def)
    ultimately show ?thesis using Cons by simp
  qed
  then show ?case by (simp add: slash_def)
qed simp

text \<open>
  The string test of the storage layer, a directory string starting with the base string and a
  separator, is the prefix relation on components; with the root as the base it never holds.
\<close>

lemma render_prefix_iff:
  assumes "clean_path b" and "clean_path d"
  shows "prefix (render b @ [slash]) (render d) \<longleftrightarrow> b \<noteq> [] \<and> strict_prefix b d"
proof
  assume pre: "prefix (render b @ [slash]) (render d)"
  then obtain rest where r: "render d = render b @ slash # rest" by (auto simp: prefix_def)
  have "b \<noteq> []"
  proof
    assume "b = []"
    then have "render d = slash # slash # rest" using r by (simp add: render_def)
    then obtain c q where "d = c # q" and c: "c @ render_tail q = slash # rest"
      by (cases d) (simp_all add: render_def)
    with assms(2) show False by (cases c) (auto simp: plain_def)
  qed
  moreover have "d \<noteq> []"
    using r \<open>b \<noteq> []\<close> by (cases b) (auto simp: render_def)
  ultimately have "[] # d = ([] # b) @ split_on slash rest"
    using split_render_tail [OF assms(1)] split_render_tail [OF assms(2)] r split_on_app [of slash "render_tail b" rest]
    by (simp add: render_def)
  then show "b \<noteq> [] \<and> strict_prefix b d" using \<open>b \<noteq> []\<close> by (auto simp: strict_prefix_def)
next
  assume "b \<noteq> [] \<and> strict_prefix b d"
  then obtain c q where "d = b @ c # q" and "b \<noteq> []" by (blast elim: strict_prefixE')
  moreover have "render_tail (b @ c # q) = render_tail b @ slash # c @ render_tail q"
    by (induction b) auto
  ultimately show "prefix (render b @ [slash]) (render d)" by (simp add: render_def prefix_def)
qed

lemma render_inject:
  assumes "clean_path b" and "clean_path d"
  shows "render b = render d \<longleftrightarrow> b = d"
proof
  assume eq: "render b = render d"
  have tail: "p = q" if "clean_path p" "clean_path q" "render_tail p = render_tail q" for p q
    using split_render_tail [OF that(1)] split_render_tail [OF that(2)] that(3) by (metis list.inject)
  have root: "render_tail p \<noteq> [slash]" if "clean_path p" for p
    using that by (cases p) (simp_all add: plain_def)
  show "b = d"
  proof (cases "b = [] \<or> d = []")
    case True
    then show ?thesis using eq root [OF assms(1)] root [OF assms(2)] by (metis render_def)
  next
    case False
    then have "render_tail b = render_tail d" using eq by (simp add: render_def)
    then show ?thesis by (rule tail [OF assms])
  qed
qed simp

end
