(* ===== verification/Storage.thy ===== *)
theory Storage imports Paths begin

text \<open>
  The file storage of \<open>internal/storage\<close> (\<open>storage.go\<close>, \<open>devicelogs.go\<close>, \<open>bootlogs.go\<close>) over an
  explicit file system: files and directories are keyed by their component lists. The
  operating-system calls that may fail are named by a fault predicate, and a \<open>RemoveAll\<close>
  that fails may have removed any part of the tree. Sizes and listings are not modelled.
\<close>

section \<open>The file system\<close>

record fs =
  fs_files :: "string list \<Rightarrow> string option"
  fs_dirs :: "string list set"

datatype fs_call = FsMkdirAll | FsCreate | FsCopy | FsClose | FsRemoveAll

datatype fs_error =
  PathTraversal | MkdirFailed | CreateFailed | CopyFailed | CloseFailed | RemoveFailed | BadName

definition fs_wf :: "fs \<Rightarrow> bool" where
  "fs_wf s \<longleftrightarrow> [] \<in> fs_dirs s
     \<and> (\<forall>d \<in> fs_dirs s. d \<noteq> [] \<longrightarrow> butlast d \<in> fs_dirs s)
     \<and> (\<forall>p v. fs_files s p = Some v \<longrightarrow> p \<noteq> [] \<and> butlast p \<in> fs_dirs s \<and> p \<notin> fs_dirs s)"

text \<open>\<open>os.MkdirAll\<close> fails when a component of the path is a file.\<close>

definition mkdir_all :: "string list \<Rightarrow> fs \<Rightarrow> fs option" where
  "mkdir_all d s =
     (if \<exists>p \<in> set (prefixes d). fs_files s p \<noteq> None then None
      else Some (s\<lparr>fs_dirs := fs_dirs s \<union> set (prefixes d)\<rparr>))"

text \<open>\<open>os.Create\<close> truncates an existing file; the parent has to be a directory.\<close>

definition create_file :: "string list \<Rightarrow> fs \<Rightarrow> fs option" where
  "create_file p s =
     (if p \<in> fs_dirs s \<or> butlast p \<notin> fs_dirs s then None
      else Some (s\<lparr>fs_files := (fs_files s)(p \<mapsto> [])\<rparr>))"

definition write_file :: "string list \<Rightarrow> string \<Rightarrow> fs \<Rightarrow> fs" where
  "write_file p data s = s\<lparr>fs_files := (fs_files s)(p \<mapsto> data)\<rparr>"

definition remove_file :: "string list \<Rightarrow> fs \<Rightarrow> fs" where
  "remove_file p s = s\<lparr>fs_files := (fs_files s)(p := None)\<rparr>"

text \<open>\<open>os.RemoveAll\<close> keeps, when it fails, the entries the adversary chooses.\<close>

definition remove_all :: "(string list \<Rightarrow> bool) \<Rightarrow> string list \<Rightarrow> fs \<Rightarrow> fs" where
  "remove_all keep d s =
     s\<lparr>fs_files := (\<lambda>p. if prefix d p \<and> \<not> keep p then None else fs_files s p),
       fs_dirs := {p \<in> fs_dirs s. \<not> (prefix d p \<and> \<not> keep p)}\<rparr>"

section \<open>Storing\<close>

text \<open>The tail shared by both writers: create, copy, close, and remove on a failed copy or close.\<close>

definition write_new :: "(fs_call \<Rightarrow> bool) \<Rightarrow> string list \<Rightarrow> string \<Rightarrow> fs \<Rightarrow> fs_error option \<times> fs" where
  "write_new flt p data s =
     (if flt FsCreate then (Some CreateFailed, s)
      else
        (case create_file p s of
           None \<Rightarrow> (Some CreateFailed, s)
         | Some s1 \<Rightarrow>
             if flt FsCopy then (Some CopyFailed, remove_file p s1)
             else if flt FsClose then (Some CloseFailed, remove_file p (write_file p data s1))
             else (None, write_file p data s1)))"

definition mkdir_and_write ::
  "(fs_call \<Rightarrow> bool) \<Rightarrow> string list \<Rightarrow> string list \<Rightarrow> string \<Rightarrow> fs \<Rightarrow> fs_error option \<times> fs" where
  "mkdir_and_write flt d p data s =
     (if flt FsMkdirAll then (Some MkdirFailed, s)
      else (case mkdir_all d s of None \<Rightarrow> (Some MkdirFailed, s) | Some s1 \<Rightarrow> write_new flt p data s1))"

text \<open>The root: the working directory and the base path.\<close>

record storage =
  st_cwd :: "string list"
  st_base :: string

definition base_dir :: "storage \<Rightarrow> string list" where
  "base_dir st = abs_join (st_cwd st) [st_base st]"

definition within_base :: "storage \<Rightarrow> string list \<Rightarrow> bool" where
  "within_base st d = prefix (render (base_dir st) @ [slash]) (render d)"

definition file_path :: "storage \<Rightarrow> string \<Rightarrow> string \<Rightarrow> string \<Rightarrow> string \<Rightarrow> string list" where
  "file_path st dongle route segment file = abs_join (st_cwd st) [st_base st, dongle, route, segment, file]"

definition store ::
  "(fs_call \<Rightarrow> bool) \<Rightarrow> storage \<Rightarrow> string \<Rightarrow> string \<Rightarrow> string \<Rightarrow> string \<Rightarrow> string \<Rightarrow> fs \<Rightarrow> fs_error option \<times> fs" where
  "store flt st dongle route segment file data s =
     (let d = abs_join (st_cwd st) [st_base st, dongle, route, segment] in
      if \<not> within_base st d \<and> render d \<noteq> render (base_dir st) then (Some PathTraversal, s)
      else mkdir_and_write flt d (file_path st dongle route segment file) data s)"

definition validate_name :: "string \<Rightarrow> bool" where
  "validate_name x \<longleftrightarrow> x \<noteq> [] \<and> x \<noteq> ''.'' \<and> x \<noteq> ''..'' \<and> slash \<notin> set x \<and> CHR 0x5C \<notin> set x \<and> \<not> sublist ''..'' x"

definition write_auxiliary ::
  "(fs_call \<Rightarrow> bool) \<Rightarrow> storage \<Rightarrow> string \<Rightarrow> string \<Rightarrow> string \<Rightarrow> string \<Rightarrow> string \<Rightarrow> fs \<Rightarrow> fs_error option \<times> fs" where
  "write_auxiliary flt st dongle subdir ident ext data s =
     (if \<not> validate_name dongle then (Some BadName, s)
      else if \<not> validate_name ident then (Some BadName, s)
      else
        (let d = abs_join (st_cwd st) [st_base st, dongle, subdir] in
         if \<not> within_base st d \<and> render d \<noteq> render (base_dir st) then (Some PathTraversal, s)
         else mkdir_and_write flt d (abs_join (st_cwd st) [st_base st, dongle, subdir, ident @ ext]) data s))"

definition write_device_log where
  "write_device_log flt st dongle ident data s = write_auxiliary flt st dongle ''swaglog'' ident ''.log'' data s"

definition write_device_stats where
  "write_device_stats flt st dongle ident data s = write_auxiliary flt st dongle ''stats'' ident ''.json'' data s"

definition write_boot_log where
  "write_boot_log flt st dongle ident data s = write_auxiliary flt st dongle ''boot'' ident ''.zst'' data s"

section \<open>Removing\<close>

definition route_dir :: "storage \<Rightarrow> string \<Rightarrow> string \<Rightarrow> string list" where
  "route_dir st dongle route = abs_join (st_cwd st) [st_base st, dongle, route]"

definition remove_route ::
  "(fs_call \<Rightarrow> bool) \<Rightarrow> (string list \<Rightarrow> bool) \<Rightarrow> storage \<Rightarrow> string \<Rightarrow> string \<Rightarrow> fs \<Rightarrow> fs_error option \<times> fs" where
  "remove_route flt keep st dongle route s =
     (let d = route_dir st dongle route in
      if \<not> within_base st d then (Some PathTraversal, s)
      else if flt FsRemoveAll then (Some RemoveFailed, remove_all keep d s)
      else (None, remove_all (\<lambda>_. False) d s))"

section \<open>Well-formed file systems\<close>

lemma butlast_prefixes: "p \<in> set (prefixes d) \<Longrightarrow> butlast p \<in> set (prefixes d)"
  by (metis in_set_prefixes prefix_order.trans prefixeq_butlast)

lemma mkdir_all_wf [inv_intros]:
  assumes "fs_wf s" and "mkdir_all d s = Some s'"
  shows "fs_wf s'"
proof -
  have s': "s' = s\<lparr>fs_dirs := fs_dirs s \<union> set (prefixes d)\<rparr>"
    and clear: "\<And>p. p \<in> set (prefixes d) \<Longrightarrow> fs_files s p = None"
    using assms(2) by (auto simp: mkdir_all_def split: if_splits)
  have files: "p \<noteq> [] \<and> butlast p \<in> fs_dirs s \<and> p \<notin> fs_dirs s \<union> set (prefixes d)" if "fs_files s p = Some v" for p v
    using assms(1) that clear [of p] unfolding fs_wf_def by (metis UnE option.distinct(1))
  have "butlast p \<in> fs_dirs s \<union> set (prefixes d)" if "p \<in> fs_dirs s \<union> set (prefixes d)" "p \<noteq> []" for p
    using assms(1) that butlast_prefixes [of p d] unfolding fs_wf_def by blast
  with files assms(1) show ?thesis unfolding fs_wf_def s' by simp
qed

lemma create_file_wf [inv_intros]: "fs_wf s \<Longrightarrow> create_file p s = Some s' \<Longrightarrow> fs_wf s'"
  by (auto simp: create_file_def fs_wf_def split: if_splits)

lemma write_file_wf [inv_intros]: "fs_wf s \<Longrightarrow> fs_files s p \<noteq> None \<Longrightarrow> fs_wf (write_file p data s)"
  by (auto simp: write_file_def fs_wf_def)

lemma remove_file_wf [inv_intros]: "fs_wf s \<Longrightarrow> fs_wf (remove_file p s)"
  by (auto simp: remove_file_def fs_wf_def)

lemma create_write_wf:
  "fs_wf s \<Longrightarrow> create_file p s = Some s' \<Longrightarrow> fs_wf s' \<and> fs_wf (write_file p data s')"
  by (auto simp: create_file_def write_file_def fs_wf_def split: if_splits)

lemma fs_wf_prefix: "fs_wf s \<Longrightarrow> d \<in> fs_dirs s \<Longrightarrow> prefix p d \<Longrightarrow> p \<in> fs_dirs s"
proof (induction d rule: rev_induct)
  case (snoc x d)
  then have "d \<in> fs_dirs s" unfolding fs_wf_def by (metis snoc_eq_iff_butlast)
  with snoc show ?case by (auto simp: prefix_snoc)
qed simp

lemma create_file_present: "create_file p s = Some s' \<Longrightarrow> fs_files s' p = Some []"
  by (auto simp: create_file_def split: if_splits)

lemma write_new_wf [inv_intros]: "fs_wf s \<Longrightarrow> write_new flt p data s = (e, s') \<Longrightarrow> fs_wf s'"
  unfolding write_new_def
  by (auto dest: create_write_wf intro: remove_file_wf split: if_splits option.splits)

lemma mkdir_and_write_wf [inv_intros]: "fs_wf s \<Longrightarrow> mkdir_and_write flt d p data s = (e, s') \<Longrightarrow> fs_wf s'"
  unfolding mkdir_and_write_def
  by (auto intro: mkdir_all_wf write_new_wf split: if_splits option.splits)

lemma remove_all_wf [inv_intros]:
  assumes "fs_wf s" and "d \<noteq> []"
  shows "fs_wf (remove_all (\<lambda>_. False) d s)"
proof -
  have "prefix d p" if "prefix d (butlast p)" for p using that by (metis prefix_order.trans prefixeq_butlast)
  then show ?thesis using assms by (auto simp: remove_all_def fs_wf_def)
qed

section \<open>What a writer touches\<close>

lemma write_new_frame:
  "write_new flt p data s = (e, s') \<Longrightarrow> q \<noteq> p \<Longrightarrow> fs_files s' q = fs_files s q"
  by (auto simp: write_new_def create_file_def write_file_def remove_file_def split: if_splits option.splits)

lemma mkdir_and_write_frame:
  "mkdir_and_write flt d p data s = (e, s') \<Longrightarrow> q \<noteq> p \<Longrightarrow> fs_files s' q = fs_files s q"
  by (auto simp: mkdir_and_write_def mkdir_all_def dest: write_new_frame split: if_splits option.splits)

lemma mkdir_and_write_ok:
  "mkdir_and_write flt d p data s = (None, s') \<Longrightarrow> fs_files s' p = Some data"
  by (auto simp: mkdir_and_write_def write_new_def write_file_def split: if_splits option.splits)

lemma base_dir_clean: "clean_path (st_cwd st) \<Longrightarrow> clean_path (base_dir st)"
  by (simp add: base_dir_def abs_join_clean)

lemma within_base_iff:
  "clean_path (st_cwd st) \<Longrightarrow> clean_path d \<Longrightarrow>
     within_base st d \<longleftrightarrow> base_dir st \<noteq> [] \<and> strict_prefix (base_dir st) d"
  by (simp add: within_base_def render_prefix_iff base_dir_clean)

text \<open>Joining plain names below a non-empty base appends them.\<close>

lemma abs_join_below:
  assumes "b \<noteq> []" and "\<forall>x \<in> set xs. plain x"
  shows "abs_join cwd (b # xs) = abs_join cwd [b] @ xs"
proof -
  have "concat (map (split_on slash) xs) = xs" using assms(2) by (induction xs) auto
  moreover have "clean_path xs" using assms(2) by (simp add: clean_path_def)
  ultimately show ?thesis using assms(1) by (simp add: abs_join_def resolve_append resolve_plain)
qed

lemma abs_join_last:
  assumes "b \<noteq> []"
  shows "abs_join cwd (b # xs @ [x]) = resolve (abs_join cwd (b # xs)) (split_on slash x)"
  using assms by (simp add: abs_join_def resolve_append)

lemma validate_plain: "validate_name x \<Longrightarrow> plain x"
  by (simp add: validate_name_def plain_def)

lemma long_name: "2 < length x \<Longrightarrow> x \<noteq> ''.'' \<and> x \<noteq> ''..''"
  by auto

lemma validate_plain_ext:
  assumes "validate_name x" and "slash \<notin> set ext" and "2 < length (x @ ext)"
  shows "plain (x @ ext)"
  using assms(1,2) long_name [OF assms(3)] by (simp add: validate_name_def plain_def)

lemma write_auxiliary_path:
  assumes "write_auxiliary flt st dongle subdir ident ext data s = (e, s')" and "st_base st \<noteq> []"
    and "plain subdir" and "slash \<notin> set ext" and "3 < length ext"
  shows "(e = None \<longrightarrow> fs_files s' (base_dir st @ [dongle, subdir, ident @ ext]) = Some data)
    \<and> (\<forall>q. q \<noteq> base_dir st @ [dongle, subdir, ident @ ext] \<longrightarrow> fs_files s' q = fs_files s q)"
proof (cases "validate_name dongle \<and> validate_name ident")
  case True
  then have "plain dongle" and "plain (ident @ ext)"
    using assms(4,5) by (simp_all add: validate_plain validate_plain_ext)
  then have p: "abs_join (st_cwd st) [st_base st, dongle, subdir, ident @ ext]
      = base_dir st @ [dongle, subdir, ident @ ext]"
    using assms(2,3) abs_join_below [of "st_base st" "[dongle, subdir, ident @ ext]"] by (simp add: base_dir_def)
  then have "mkdir_and_write flt (abs_join (st_cwd st) [st_base st, dongle, subdir])
        (base_dir st @ [dongle, subdir, ident @ ext]) data s = (e, s') \<or> (e = Some PathTraversal \<and> s' = s)"
    using assms(1) True by (simp add: write_auxiliary_def Let_def split: if_splits)
  then show ?thesis by (auto dest: mkdir_and_write_ok mkdir_and_write_frame)
next
  case False
  then show ?thesis using assms(1) by (auto simp: write_auxiliary_def split: if_splits)
qed

section \<open>Properties\<close>

text \<open>Device logs, stats and boot logs are confined to their stream. Whatever the device sends
  as its id and the payload's name, the only file such a write can touch is
  \<open>base/dongle/stream/name.ext\<close>, and a successful write leaves exactly the payload there.\<close>

theorem auxiliary_writes_confined:
  assumes "st_base st \<noteq> []"
    and "(writer, subdir, ext) \<in> {(write_device_log, ''swaglog'', ''.log''), (write_device_stats, ''stats'', ''.json''),
           (write_boot_log, ''boot'', ''.zst'')}"
    and "writer flt st dongle ident data s = (e, s')"
  shows "(e = None \<longrightarrow> fs_files s' (base_dir st @ [dongle, subdir, ident @ ext]) = Some data)
    \<and> (\<forall>q. q \<noteq> base_dir st @ [dongle, subdir, ident @ ext] \<longrightarrow> fs_files s' q = fs_files s q)"
proof -
  have "write_auxiliary flt st dongle subdir ident ext data s = (e, s')"
    using assms(2,3) by (auto simp: write_device_log_def write_device_stats_def write_boot_log_def)
  moreover have "plain subdir" and "slash \<notin> set ext" and "3 < length ext"
    using assms(2) by (auto simp: plain_def slash_def)
  ultimately show ?thesis using assms(1) by (intro write_auxiliary_path)
qed

definition demo_storage :: storage where
  "demo_storage = \<lparr>st_cwd = [''srv''], st_base = ''data''\<rparr>"

definition empty_fs :: fs where
  "empty_fs = \<lparr>fs_files = (\<lambda>_. None), fs_dirs = {[]}\<rparr>"

lemma demo_base: "base_dir demo_storage = [''srv'', ''data'']"
  by code_simp

theorem auxiliary_writes_confined_witness:
  "fs_files (snd (write_device_log (\<lambda>_. False) demo_storage ''dev'' ''1-1'' ''hello'' empty_fs))
     [''srv'', ''data'', ''dev'', ''swaglog'', ''1-1.log''] = Some ''hello''"
proof -
  have "fst (write_device_log (\<lambda>_. False) demo_storage ''dev'' ''1-1'' ''hello'' empty_fs) = None"
    by code_simp
  then obtain s' where w: "write_device_log (\<lambda>_. False) demo_storage ''dev'' ''1-1'' ''hello'' empty_fs = (None, s')"
    by (metis prod.collapse)
  have "(None = (None :: fs_error option) \<longrightarrow> fs_files s' (base_dir demo_storage @ [''dev'', ''swaglog'', ''1-1'' @ ''.log'']) = Some ''hello'')
    \<and> (\<forall>q. q \<noteq> base_dir demo_storage @ [''dev'', ''swaglog'', ''1-1'' @ ''.log''] \<longrightarrow> fs_files s' q = fs_files empty_fs q)"
    by (rule auxiliary_writes_confined [where writer = write_device_log, OF _ _ w]) (simp_all add: demo_storage_def)
  then show ?thesis using w by (simp add: demo_base)
qed

text \<open>Removing a route takes away exactly the entries under its directory, which lies strictly
  below the base; a rejected path changes nothing, and even a removal that fails half way
  touches nothing outside that directory.\<close>

theorem remove_route_exact:
  assumes "clean_path (st_cwd st)" and "remove_route flt keep st dongle route s = (e, s')"
  shows "(e = None \<longrightarrow> strict_prefix (base_dir st) (route_dir st dongle route)
          \<and> (\<forall>q. fs_files s' q = (if prefix (route_dir st dongle route) q then None else fs_files s q)))
    \<and> (\<forall>q. \<not> (strict_prefix (base_dir st) (route_dir st dongle route) \<and> prefix (route_dir st dongle route) q)
          \<longrightarrow> fs_files s' q = fs_files s q)"
  using assms by (auto simp: remove_route_def Let_def within_base_iff route_dir_def abs_join_clean remove_all_def
      split: if_splits)

definition demo_fs :: fs where
  "demo_fs = \<lparr>fs_files = [[''srv'', ''data'', ''dev'', ''r'', ''qlog''] \<mapsto> ''x'', [''srv'', ''data'', ''dev'', ''q'', ''qlog''] \<mapsto> ''y''],
     fs_dirs = {[], [''srv''], [''srv'', ''data''], [''srv'', ''data'', ''dev''], [''srv'', ''data'', ''dev'', ''r''], [''srv'', ''data'', ''dev'', ''q'']}\<rparr>"

lemma demo_route_dir: "route_dir demo_storage ''dev'' ''r'' = [''srv'', ''data'', ''dev'', ''r'']"
  by code_simp

theorem remove_route_exact_witness:
  "\<exists>s'. remove_route (\<lambda>_. False) (\<lambda>_. False) demo_storage ''dev'' ''r'' demo_fs = (None, s')
     \<and> fs_files s' [''srv'', ''data'', ''dev'', ''r'', ''qlog''] = None
     \<and> fs_files s' [''srv'', ''data'', ''dev'', ''q'', ''qlog''] = Some ''y''"
proof -
  have clean: "clean_path (st_cwd demo_storage)" by (simp add: demo_storage_def plain_def slash_def)
  have "within_base demo_storage (route_dir demo_storage ''dev'' ''r'')" by code_simp
  then obtain s' where r: "remove_route (\<lambda>_. False) (\<lambda>_. False) demo_storage ''dev'' ''r'' demo_fs = (None, s')"
    by (simp add: remove_route_def Let_def)
  from remove_route_exact [OF clean r] r show ?thesis by (simp add: demo_route_dir demo_fs_def)
qed

text \<open>A failed upload destroys the file it was to replace: creating truncates the old file, and
  the error path removes it.\<close>

theorem failed_store_destroys:
  assumes "st_base st \<noteq> []" and "clean_path (st_cwd st)" and "\<forall>x \<in> {dongle, route, segment, file}. plain x"
    and "base_dir st \<noteq> []" and "fs_wf s"
    and "fs_files s (base_dir st @ [dongle, route, segment, file]) = Some old"
  shows "\<exists>s'. store (\<lambda>c. c = FsCopy) st dongle route segment file data s = (Some CopyFailed, s')
     \<and> fs_files s' (base_dir st @ [dongle, route, segment, file]) = None"
proof -
  let ?d = "base_dir st @ [dongle, route, segment]" and ?p = "base_dir st @ [dongle, route, segment, file]"
  have paths: "abs_join (st_cwd st) [st_base st, dongle, route, segment] = ?d"
      "file_path st dongle route segment file = ?p"
    using assms(1,3) abs_join_below [of "st_base st" "[dongle, route, segment]"]
      abs_join_below [of "st_base st" "[dongle, route, segment, file]"]
    by (simp_all add: file_path_def base_dir_def)
  have "clean_path ?d" using base_dir_clean [OF assms(2)] assms(3) by simp
  then have within: "within_base st ?d" using assms(2,4) by (simp add: within_base_iff strict_prefix_def)
  have but: "butlast ?p = ?d" by (simp add: butlast_append)
  have "butlast ?p \<in> fs_dirs s" and nofile: "?p \<notin> fs_dirs s" using assms(5,6) unfolding fs_wf_def by blast+
  then have dir: "?d \<in> fs_dirs s" by (simp only: but)
  have "\<forall>q \<in> set (prefixes ?d). fs_files s q = None"
    using fs_wf_prefix [OF assms(5) dir] assms(5) unfolding fs_wf_def by (metis in_set_prefixes not_None_eq)
  then obtain s1 where s1: "mkdir_all ?d s = Some s1" and "fs_dirs s1 = fs_dirs s \<union> set (prefixes ?d)"
    by (simp add: mkdir_all_def)
  moreover have "?p \<notin> set (prefixes ?d)" by (simp add: prefix_def)
  ultimately obtain s2 where s2: "create_file ?p s1 = Some s2"
    using dir nofile but unfolding create_file_def by (metis Un_iff)
  have "store (\<lambda>c. c = FsCopy) st dongle route segment file data s = (Some CopyFailed, remove_file ?p s2)"
    unfolding store_def paths Let_def mkdir_and_write_def write_new_def using within s1 s2 by simp
  then show ?thesis by (simp add: remove_file_def)
qed

definition demo_file :: "string list" where
  "demo_file = [''srv'', ''data'', ''dev'', ''r'', ''0'', ''qlog'']"

definition demo_fs2 :: fs where
  "demo_fs2 = \<lparr>fs_files = [demo_file \<mapsto> ''old''], fs_dirs = set (prefixes (butlast demo_file))\<rparr>"

lemma demo_fs2_wf: "fs_wf demo_fs2"
  by (auto simp: fs_wf_def demo_fs2_def demo_file_def split: if_splits)

theorem failed_store_destroys_witness:
  "\<exists>s'. store (\<lambda>c. c = FsCopy) demo_storage ''dev'' ''r'' ''0'' ''qlog'' ''new'' demo_fs2 = (Some CopyFailed, s')
     \<and> fs_files s' (base_dir demo_storage @ [''dev'', ''r'', ''0'', ''qlog'']) = None"
proof (rule failed_store_destroys [OF _ _ _ _ demo_fs2_wf])
  show "fs_files demo_fs2 (base_dir demo_storage @ [''dev'', ''r'', ''0'', ''qlog'']) = Some ''old''"
    by (simp add: demo_base demo_fs2_def demo_file_def)
qed (simp_all add: demo_base, simp_all add: demo_storage_def plain_def slash_def)

end
