(* ===== verification/GoFloat.thy ===== *)
theory GoFloat imports Codec begin

text \<open>
  Floating point in the model. A \<open>float64\<close> is a real number: sums, products and comparisons
  are exact, and infinities, NaN and rounding are not modelled. Here are the conversions the
  source uses: \<open>fmt\<close>'s \<open>%.nf\<close>, \<open>math.Floor\<close>, \<open>math.Round\<close>, \<open>Duration.Minutes\<close> and
  \<open>Duration.Seconds\<close>, and \<open>strconv.ParseFloat\<close> on decimal literals.
\<close>

section \<open>Formatting\<close>

text \<open>\<open>%.nf\<close> prints the nearest decimal, ties to the even digit.\<close>

definition round_half_even :: "real \<Rightarrow> int" where
  "round_half_even y =
     (let f = \<lfloor>y\<rfloor>; d = y - of_int f in
      if d < 1 / 2 then f else if 1 / 2 < d then f + 1 else if even f then f else f + 1)"

definition pad_zeros :: "nat \<Rightarrow> string \<Rightarrow> string" where
  "pad_zeros n s = replicate (n - length s) (CHR ''0'') @ s"

definition show_fixed :: "nat \<Rightarrow> real \<Rightarrow> string" where
  "show_fixed p x =
     (let n = nat (round_half_even (\<bar>x\<bar> * 10 ^ p)) in
      (if x < 0 then ''-'' else []) @ show_nat (n div 10 ^ p)
      @ (if p = 0 then [] else CHR ''.'' # pad_zeros p (show_nat (n mod 10 ^ p))))"

section \<open>Rounding and durations\<close>

text \<open>\<open>math.Round\<close>: halves away from zero.\<close>

definition go_round :: "real \<Rightarrow> int" where
  "go_round x = (if 0 \<le> x then \<lfloor>x + 1 / 2\<rfloor> else \<lceil>x - 1 / 2\<rceil>)"

definition dur_minutes :: "duration \<Rightarrow> real" where
  "dur_minutes d = of_int d / 60000000000"

definition to_seconds :: "duration \<Rightarrow> real" where
  "to_seconds d = of_int d / 1000000000"

text \<open>\<open>time.Duration(h * float64(time.Hour))\<close>.\<close>

definition dur_hours :: "real \<Rightarrow> duration" where
  "dur_hours h = trunc (h * of_int hour)"

lemma dur_minutes_mono: "dur_minutes a \<le> dur_minutes b \<longleftrightarrow> a \<le> b"
  by (simp add: dur_minutes_def divide_le_cancel)

lemma to_seconds_mono: "to_seconds a \<le> to_seconds b \<longleftrightarrow> a \<le> b"
  by (simp add: to_seconds_def divide_le_cancel)

section \<open>Parsing\<close>

text \<open>
  \<open>strconv.ParseFloat\<close> on the decimal forms: a sign, digits with at most one point and at
  least one digit, and an optional exponent. The hexadecimal forms, \<open>inf\<close>, \<open>nan\<close> and the
  rounding to 53 bits are not modelled; a literal that overflows is not either.
\<close>

definition read_exponent :: "string \<Rightarrow> int option" where
  "read_exponent s =
     (case s of [] \<Rightarrow> Some 0
      | c # cs \<Rightarrow>
          if c = CHR ''e'' \<or> c = CHR ''E''
          then (case parse_sign cs of (neg, ds) \<Rightarrow>
                  if ds = [] then None
                  else map_option (\<lambda>n. if neg then - int n else int n) (read_digits 0 ds))
          else None)"

definition is_digit :: "char \<Rightarrow> bool" where
  "is_digit c \<longleftrightarrow> digit_val c \<noteq> None"

definition parse_mantissa :: "string \<Rightarrow> (nat \<times> nat \<times> string) option" where
  "parse_mantissa s =
     (let ip = takeWhile is_digit s; r = dropWhile is_digit s;
          fp = (case r of [] \<Rightarrow> [] | c # cs \<Rightarrow> if c = CHR ''.'' then takeWhile is_digit cs else []);
          rest = (case r of [] \<Rightarrow> [] | c # cs \<Rightarrow> if c = CHR ''.'' then dropWhile is_digit cs else r)
      in if ip @ fp = [] then None
         else map_option (\<lambda>n. (n, length fp, rest)) (read_digits 0 (ip @ fp)))"

definition parse_float :: "string \<Rightarrow> real option" where
  "parse_float s =
     (case parse_sign s of (neg, body) \<Rightarrow>
        (case parse_mantissa body of
           None \<Rightarrow> None
         | Some (n, k, rest) \<Rightarrow>
             map_option (\<lambda>e. (if neg then - 1 else 1) * real n * 10 powi (e - int k)) (read_exponent rest)))"

section \<open>The shortest form\<close>

text \<open>
  \<open>strconv.FormatFloat(x, 'g', -1, 64)\<close>: the shortest digits that read back as \<open>x\<close>, written with
  an exponent when it is below \<open>-4\<close> or at least \<open>6\<close>. On exact numbers the shortest digits are those of the
  finite decimal \<open>x\<close> is; a \<open>float64\<close> has at most 341 of them after the point, so that a search of
  400 places finds them. The negative zero is not modelled.
\<close>

fun decimal_places :: "nat \<Rightarrow> real \<Rightarrow> nat" where
  "decimal_places fuel x = (if fuel = 0 \<or> of_int \<lfloor>x\<rfloor> = x then 0 else Suc (decimal_places (fuel - 1) (10 * x)))"

declare decimal_places.simps [simp del]

fun strip_zeros :: "nat \<Rightarrow> nat \<times> nat" where
  "strip_zeros n = (if n = 0 \<or> n mod 10 \<noteq> 0 then (n, 0) else (case strip_zeros (n div 10) of (m, q) \<Rightarrow> (m, Suc q)))"

declare strip_zeros.simps [simp del]

definition shortest_decimal :: "real \<Rightarrow> nat \<times> int" where
  "shortest_decimal x =
     (let k = decimal_places 400 x in
      if k = 0 then (case strip_zeros (nat \<lfloor>x\<rfloor>) of (m, q) \<Rightarrow> (m, int q)) else (nat \<lfloor>x * 10 ^ k\<rfloor>, - int k))"

definition exponent_form :: "string \<Rightarrow> int \<Rightarrow> string" where
  "exponent_form ds e =
     take 1 ds @ (if length ds \<le> 1 then [] else CHR ''.'' # drop 1 ds)
     @ CHR ''e'' # (if e < 0 then CHR ''-'' else CHR ''+'') # pad_zeros 2 (show_nat (nat \<bar>e\<bar>))"

definition decimal_form :: "nat \<Rightarrow> int \<Rightarrow> string" where
  "decimal_form m q =
     (if 0 \<le> q then show_nat m @ replicate (nat q) (CHR ''0'')
      else show_nat (m div 10 ^ nat (- q)) @ CHR ''.'' # pad_zeros (nat (- q)) (show_nat (m mod 10 ^ nat (- q))))"

definition format_float :: "real \<Rightarrow> string" where
  "format_float x =
     (if x = 0 then ''0''
      else (case shortest_decimal \<bar>x\<bar> of (m, q) \<Rightarrow>
        (let e = int (length (show_nat m)) + q - 1 in
         (if x < 0 then ''-'' else [])
         @ (if e < - 4 \<or> 6 \<le> e then exponent_form (show_nat m) e else decimal_form m q))))"

text \<open>The numbers the search covers: every \<open>float64\<close> is one.\<close>

definition is_decimal :: "real \<Rightarrow> bool" where
  "is_decimal x \<longleftrightarrow> of_int \<lfloor>\<bar>x\<bar> * 10 ^ decimal_places 400 \<bar>x\<bar>\<rfloor> = \<bar>x\<bar> * 10 ^ decimal_places 400 \<bar>x\<bar>"

subsection \<open>What is printed reads back\<close>

lemma read_digits_acc: "read_digits acc s = map_option (\<lambda>n. acc * 10 ^ length s + n) (read_digits 0 s)"
proof (induction s arbitrary: acc)
  case Nil
  then show ?case by simp
next
  case (Cons c cs)
  show ?case
  proof (cases "digit_val c")
    case None
    then show ?thesis by simp
  next
    case (Some d)
    show ?thesis
      using Some Cons.IH [of "10 * acc + d"] Cons.IH [of d]
      by (cases "read_digits 0 cs") (simp_all add: algebra_simps)
  qed
qed

lemma read_zeros: "read_digits 0 (replicate n (CHR ''0'') @ s) = read_digits 0 s"
  by (induction n) (simp_all add: digit_val_def)

lemma read_pad [simp]: "read_digits 0 (pad_zeros n (show_nat b)) = Some b"
  by (simp add: pad_zeros_def read_zeros)

lemma length_show_nat: "n < 10 ^ Suc k \<Longrightarrow> length (show_nat n) \<le> Suc k"
proof (induction k arbitrary: n)
  case 0
  then show ?case by (subst show_nat.simps) simp
next
  case (Suc k)
  then have "n div 10 < 10 ^ Suc k" by (simp add: less_mult_imp_div_less)
  with Suc.IH [of "n div 10"] show ?case by (subst show_nat.simps) simp
qed

lemma length_pad: "b < 10 ^ k \<Longrightarrow> 0 < k \<Longrightarrow> length (pad_zeros k (show_nat b)) = k"
  using length_show_nat [of b "k - 1"] by (simp add: pad_zeros_def)

lemma read_split:
  assumes "0 < k" and "b < 10 ^ k"
  shows "read_digits 0 (show_nat a @ pad_zeros k (show_nat b)) = Some (a * 10 ^ k + b)"
  using assms by (simp add: read_digits_append read_digits_acc [of a] length_pad)

lemma show_nat_digits: "\<forall>c \<in> set (show_nat n). is_digit c"
  by (auto simp: is_digit_def dest: show_nat_chars)

lemma pad_digits: "\<forall>c \<in> set (pad_zeros k (show_nat n)). is_digit c"
  using show_nat_digits [of n] by (auto simp: pad_zeros_def is_digit_def digit_val_def)

lemma takeWhile_digits: "\<forall>c \<in> set xs. is_digit c \<Longrightarrow> takeWhile is_digit (xs @ ys) = xs @ takeWhile is_digit ys"
  by (simp add: takeWhile_append)

lemma dropWhile_digits: "\<forall>c \<in> set xs. is_digit c \<Longrightarrow> dropWhile is_digit (xs @ ys) = dropWhile is_digit ys"
  by (simp add: dropWhile_append)

lemma all_digits: "\<forall>c \<in> set xs. is_digit c \<Longrightarrow> takeWhile is_digit xs = xs \<and> dropWhile is_digit xs = []"
  using takeWhile_digits [of xs "[]"] dropWhile_digits [of xs "[]"] by simp

lemma no_digit [simp]: "\<not> is_digit (CHR ''.'')" "\<not> is_digit (CHR ''e'')"
  by (simp_all add: is_digit_def digit_val_def)

lemma mantissa_whole:
  assumes "\<forall>c \<in> set xs. is_digit c" and "read_digits 0 xs = Some n" and "xs \<noteq> []"
    and "rest = [] \<or> hd rest = CHR ''e''"
  shows "parse_mantissa (xs @ rest) = Some (n, 0, rest)"
  using assms by (cases rest) (simp_all add: parse_mantissa_def takeWhile_digits dropWhile_digits all_digits)

lemma mantissa_point:
  assumes "\<forall>c \<in> set xs. is_digit c" and "\<forall>c \<in> set ys. is_digit c"
    and "read_digits 0 (xs @ ys) = Some n" and "xs \<noteq> []" and "rest = [] \<or> hd rest = CHR ''e''"
  shows "parse_mantissa (xs @ CHR ''.'' # ys @ rest) = Some (n, length ys, rest)"
  using assms by (cases rest) (simp_all add: parse_mantissa_def takeWhile_digits dropWhile_digits all_digits)

lemma strip_zeros_value: "strip_zeros n = (m, q) \<Longrightarrow> n = m * 10 ^ q"
proof (induction n arbitrary: m q rule: strip_zeros.induct)
  case (1 n)
  show ?case
  proof (cases "n = 0 \<or> n mod 10 \<noteq> 0")
    case True
    with 1(2) show ?thesis by (subst (asm) strip_zeros.simps) simp
  next
    case False
    obtain m' q' where r: "strip_zeros (n div 10) = (m', q')" by fastforce
    with 1(2) False have "m = m'" "q = Suc q'" by (subst (asm) strip_zeros.simps, simp)+
    moreover have "n div 10 = m' * 10 ^ q'" using 1(1) False r by blast
    moreover have "n = 10 * (n div 10)" using False by presburger
    ultimately show ?thesis by simp
  qed
qed

lemma shortest_decimal_value:
  assumes "is_decimal x" and "shortest_decimal \<bar>x\<bar> = (m, q)"
  shows "\<bar>x\<bar> = real m * 10 powi q"
proof (cases "decimal_places 400 \<bar>x\<bar> = 0")
  case True
  then obtain k where s: "strip_zeros (nat \<lfloor>\<bar>x\<bar>\<rfloor>) = (m, k)" "q = int k"
    using assms(2) by (auto simp: shortest_decimal_def split: prod.splits)
  have "\<bar>x\<bar> = of_int \<lfloor>\<bar>x\<bar>\<rfloor>" using assms(1) True by (auto simp: is_decimal_def)
  also have "\<dots> = real (nat \<lfloor>\<bar>x\<bar>\<rfloor>)" by simp
  also have "\<dots> = real m * 10 powi q" using strip_zeros_value [OF s(1)] s(2) by simp
  finally show ?thesis .
next
  case False
  define k where "k = decimal_places 400 \<bar>x\<bar>"
  have mq: "m = nat \<lfloor>\<bar>x\<bar> * 10 ^ k\<rfloor>" "q = - int k"
    using assms(2) False by (auto simp: shortest_decimal_def Let_def k_def)
  have whole: "of_int \<lfloor>\<bar>x\<bar> * 10 ^ k\<rfloor> = \<bar>x\<bar> * 10 ^ k" using assms(1) unfolding is_decimal_def k_def .
  have "real m = of_int \<lfloor>\<bar>x\<bar> * 10 ^ k\<rfloor>" unfolding mq(1) by simp
  from this whole have "real m = \<bar>x\<bar> * 10 ^ k" by (rule trans)
  then show ?thesis by (simp add: mq(2) power_int_minus field_simps)
qed

text \<open>A mantissa of a known value, an exponent of a known value: what the reader makes of them.\<close>

lemma read_exponent_form: "read_exponent (CHR ''e'' # (if e < 0 then CHR ''-'' else CHR ''+'') # pad_zeros 2 (show_nat (nat \<bar>e\<bar>))) = Some e"
proof -
  have "pad_zeros 2 (show_nat n) \<noteq> []" for n by (simp add: pad_zeros_def)
  then show ?thesis by (simp add: read_exponent_def parse_sign_def)
qed

lemma mantissa_exponent_form:
  assumes "0 < m"
  shows "\<exists>rest. parse_mantissa (exponent_form (show_nat m) e) = Some (m, length (show_nat m) - 1, rest)
    \<and> read_exponent rest = Some e"
proof -
  let ?rest = "CHR ''e'' # (if e < 0 then CHR ''-'' else CHR ''+'') # pad_zeros 2 (show_nat (nat \<bar>e\<bar>))"
  obtain d ds where s: "show_nat m = d # ds" by (cases "show_nat m") simp_all
  have dig: "is_digit d" "\<forall>c \<in> set ds. is_digit c" using show_nat_digits [of m] s by auto
  have read: "read_digits 0 ([d] @ ds) = Some m" using read_show_nat [of m] s by simp
  have "parse_mantissa (exponent_form (show_nat m) e) = Some (m, length ds, ?rest)"
  proof (cases "ds = []")
    case True
    with mantissa_whole [of "[d]" m ?rest] dig read show ?thesis by (simp add: exponent_form_def s)
  next
    case False
    with mantissa_point [of "[d]" ds m ?rest] dig read show ?thesis by (auto simp: exponent_form_def s Suc_le_eq)
  qed
  then show ?thesis using read_exponent_form [of e] s by auto
qed

lemma read_digits_zeros: "read_digits acc (replicate n (CHR ''0'')) = Some (acc * 10 ^ n)"
  by (induction n arbitrary: acc) (simp_all add: digit_val_def algebra_simps)

lemma mantissa_decimal_form:
  "\<exists>n k. parse_mantissa (decimal_form m q) = Some (n, k, []) \<and> real n * 10 powi (- int k) = real m * 10 powi q"
proof (cases "0 \<le> q")
  case True
  have "\<forall>c \<in> set (show_nat m @ replicate (nat q) (CHR ''0'')). is_digit c"
    using show_nat_digits [of m] by (auto simp: is_digit_def digit_val_def)
  moreover have "read_digits 0 (show_nat m @ replicate (nat q) (CHR ''0'')) = Some (m * 10 ^ nat q)"
    by (simp add: read_digits_append read_digits_zeros)
  ultimately have "parse_mantissa (decimal_form m q) = Some (m * 10 ^ nat q, 0, [])"
    using mantissa_whole [of "show_nat m @ replicate (nat q) (CHR ''0'')" "m * 10 ^ nat q" "[]"] True
    by (simp add: decimal_form_def)
  then show ?thesis using True by (auto simp: power_int_def)
next
  case False
  define k where "k = nat (- q)"
  have k: "0 < k" "q = - int k" using False by (simp_all add: k_def)
  have "m mod 10 ^ k < 10 ^ k" by simp
  from read_split [OF k(1) this, of "m div 10 ^ k"]
  have "read_digits 0 (show_nat (m div 10 ^ k) @ pad_zeros k (show_nat (m mod 10 ^ k))) = Some m"
    by (simp only: div_mult_mod_eq)
  from mantissa_point [OF show_nat_digits pad_digits this, of "[]"]
  have "parse_mantissa (decimal_form m q) = Some (m, k, [])"
    using False k by (simp add: decimal_form_def length_pad)
  then show ?thesis using k by auto
qed

lemma digit_not_sign: "is_digit c \<Longrightarrow> c \<noteq> CHR ''+'' \<and> c \<noteq> CHR ''-''"
  by (auto simp: is_digit_def digit_val_def)

lemma unsigned_form:
  assumes "\<exists>c s'. s = c # s' \<and> is_digit c"
  shows "parse_sign s = (False, s) \<and> parse_sign (CHR ''-'' # s) = (True, s)"
  using assms by (auto simp: parse_sign_def dest: digit_not_sign)

lemma exponent_form_starts: "\<exists>c s'. exponent_form (show_nat m) e = c # s' \<and> is_digit c"
  using show_nat_digits [of m] by (cases "show_nat m") (auto simp: exponent_form_def)

lemma decimal_form_starts: "\<exists>c s'. decimal_form m q = c # s' \<and> is_digit c"
proof -
  have "\<exists>n rest. decimal_form m q = show_nat n @ rest" by (simp add: decimal_form_def) blast
  then obtain n rest where "decimal_form m q = show_nat n @ rest" by blast
  then show ?thesis using show_nat_digits [of n] by (cases "show_nat n") auto
qed

theorem format_float_reads_back:
  assumes "is_decimal x"
  shows "parse_float (format_float x) = Some x"
proof (cases "x = 0")
  case True
  then show ?thesis
    by (simp add: format_float_def parse_float_def parse_sign_def parse_mantissa_def is_digit_def digit_val_def read_exponent_def)
next
  case False
  obtain m q where mq: "shortest_decimal \<bar>x\<bar> = (m, q)" by fastforce
  have val: "\<bar>x\<bar> = real m * 10 powi q" by (rule shortest_decimal_value [OF assms mq])
  then have m: "0 < m" using False by (cases m) auto
  let ?e = "int (length (show_nat m)) + q - 1"
  define body where "body = (if ?e < - 4 \<or> 6 \<le> ?e then exponent_form (show_nat m) ?e else decimal_form m q)"
  have "\<exists>n k rest e. parse_mantissa body = Some (n, k, rest) \<and> read_exponent rest = Some e
      \<and> real n * 10 powi (e - int k) = \<bar>x\<bar>"
  proof (cases "?e < - 4 \<or> 6 \<le> ?e")
    case True
    have "0 < length (show_nat m)" by simp
    then have "?e - int (length (show_nat m) - 1) = q" by linarith
    with mantissa_exponent_form [OF m, of ?e] True val show ?thesis by (auto simp: body_def)
  next
    case False
    with mantissa_decimal_form [of m q] val show ?thesis by (auto simp: body_def read_exponent_def)
  qed
  then obtain n k rest e where r: "parse_mantissa body = Some (n, k, rest)" "read_exponent rest = Some e"
    "real n * 10 powi (e - int k) = \<bar>x\<bar>" by blast
  have "\<exists>c s'. body = c # s' \<and> is_digit c"
    using exponent_form_starts decimal_form_starts by (simp add: body_def)
  note sign = unsigned_form [OF this]
  have "format_float x = (if x < 0 then ''-'' else []) @ body"
    using False mq by (simp add: format_float_def body_def Let_def)
  with sign r show ?thesis by (cases "x < 0") (auto simp: parse_float_def)
qed

end
