(* ===== verification/GoTime.thy ===== *)
theory GoTime imports GoFloat begin

text \<open>
  The calendar of Go's \<open>time\<close> package as far as the source prints and reads it: the civil date of
  a day number, \<open>t.UTC().Format(time.RFC3339)\<close> and \<open>time.Parse(time.RFC3339, s)\<close> on the strict
  form (the parser's fast path; its lenient fallback, which also takes a one-digit hour or a
  comma before the fraction, is not modelled). A time is its nanoseconds since 1970 in UTC.
\<close>

section \<open>Dates\<close>

definition leap_year :: "int \<Rightarrow> bool" where
  "leap_year y \<longleftrightarrow> y mod 4 = 0 \<and> (y mod 100 \<noteq> 0 \<or> y mod 400 = 0)"

definition days_before :: "int list" where
  "days_before = [0, 31, 59, 90, 120, 151, 181, 212, 243, 273, 304, 334, 365]"

definition days_in :: "int \<Rightarrow> int \<Rightarrow> int" where
  "days_in m y = (if m = 2 \<and> leap_year y then 29 else days_before ! nat m - days_before ! nat (m - 1))"

text \<open>The month and day of a day of the year, counted from 0.\<close>

definition month_day :: "bool \<Rightarrow> int \<Rightarrow> int \<times> int" where
  "month_day leap yday =
     (if leap \<and> yday = 59 then (2, 29)
      else (let d = (if leap \<and> 59 < yday then yday - 1 else yday); m = d div 31;
                up = days_before ! nat (m + 1) in
            if up \<le> d then (m + 2, d - up + 1) else (m + 1, d - days_before ! nat m + 1)))"

text \<open>Days are counted from 1970-01-01; the cycles of the calendar start in the year 1.\<close>

definition year_day :: "int \<Rightarrow> int \<times> int" where
  "year_day days =
     (let d = days + 719162; n400 = d div 146097; d = d - 146097 * n400;
          n = d div 36524; n100 = n - n div 4; d = d - 36524 * n100;
          n4 = d div 1461; d = d - 1461 * n4;
          n = d div 365; n1 = n - n div 4
      in (400 * n400 + 100 * n100 + 4 * n4 + n1 + 1, d - 365 * n1))"

definition civil_of_days :: "int \<Rightarrow> int \<times> int \<times> int" where
  "civil_of_days days =
     (case year_day days of (y, yday) \<Rightarrow> (case month_day (leap_year y) yday of (m, d) \<Rightarrow> (y, m, d)))"

definition days_of_year :: "int \<Rightarrow> int" where
  "days_of_year y =
     (let a = y - 1; n400 = a div 400; a = a - 400 * n400; n100 = a div 100; a = a - 100 * n100;
          n4 = a div 4; a = a - 4 * n4
      in 146097 * n400 + 36524 * n100 + 1461 * n4 + 365 * a - 719162)"

definition days_of_civil :: "int \<Rightarrow> int \<Rightarrow> int \<Rightarrow> int" where
  "days_of_civil y m d =
     days_of_year y + days_before ! nat (m - 1) + (if leap_year y \<and> 3 \<le> m then 1 else 0) + d - 1"

section \<open>RFC 3339\<close>

definition pad_int :: "nat \<Rightarrow> int \<Rightarrow> string" where
  "pad_int w i = (if i < 0 then CHR ''-'' # pad_zeros w (show_nat (nat (- i))) else pad_zeros w (show_nat (nat i)))"

definition format_rfc3339 :: "gotime \<Rightarrow> string" where
  "format_rfc3339 t =
     (let secs = t div second; s = secs mod 86400 in
      case civil_of_days (secs div 86400) of (y, m, d) \<Rightarrow>
        pad_int 4 y @ CHR ''-'' # pad_int 2 m @ CHR ''-'' # pad_int 2 d
        @ CHR ''T'' # pad_int 2 (s div 3600) @ CHR '':'' # pad_int 2 (s mod 3600 div 60)
        @ CHR '':'' # pad_int 2 (s mod 60) @ ''Z'')"

definition parse_uint :: "string \<Rightarrow> int \<Rightarrow> int \<Rightarrow> int option" where
  "parse_uint s lo hi =
     (case read_digits 0 s of None \<Rightarrow> None | Some n \<Rightarrow> if lo \<le> int n \<and> int n \<le> hi then Some (int n) else None)"

text \<open>The fraction: its first nine digits count, the rest is skipped.\<close>

definition parse_fraction :: "string \<Rightarrow> int \<times> string" where
  "parse_fraction s =
     (case s of
        c # d # cs \<Rightarrow>
          if c = CHR ''.'' \<and> is_digit d
          then (let ds = take 9 (takeWhile is_digit (d # cs)) in
                (case read_digits 0 ds of None \<Rightarrow> 0 | Some n \<Rightarrow> int n * 10 ^ (9 - length ds), dropWhile is_digit (d # cs)))
          else (0, s)
      | _ \<Rightarrow> (0, s))"

text \<open>The zone, as the seconds east of UTC.\<close>

definition parse_zone :: "string \<Rightarrow> int option" where
  "parse_zone s =
     (if s = ''Z'' then Some 0
      else if length s \<noteq> 6 then None
      else (case (parse_uint (take 2 (drop 1 s)) 0 23, parse_uint (take 2 (drop 4 s)) 0 59) of
              (Some h, Some m) \<Rightarrow>
                if (hd s = CHR ''-'' \<or> hd s = CHR ''+'') \<and> s ! 3 = CHR '':''
                then Some ((if hd s = CHR ''-'' then - 1 else 1) * (h * 60 + m) * 60) else None
            | _ \<Rightarrow> None))"

definition parse_rfc3339 :: "string \<Rightarrow> gotime option" where
  "parse_rfc3339 s =
     (if length s < 19 then None
      else if \<not> (s ! 4 = CHR ''-'' \<and> s ! 7 = CHR ''-'' \<and> s ! 10 = CHR ''T'' \<and> s ! 13 = CHR '':'' \<and> s ! 16 = CHR '':'') then None
      else (case (parse_uint (take 4 s) 0 9999, parse_uint (take 2 (drop 5 s)) 1 12) of
              (Some y, Some m) \<Rightarrow>
                (case (parse_uint (take 2 (drop 8 s)) 1 (days_in m y), parse_uint (take 2 (drop 11 s)) 0 23,
                       parse_uint (take 2 (drop 14 s)) 0 59, parse_uint (take 2 (drop 17 s)) 0 59) of
                   (Some d, Some h, Some mi, Some se) \<Rightarrow>
                     (case parse_fraction (drop 19 s) of (nsec, rest) \<Rightarrow>
                        map_option (\<lambda>off. ((days_of_civil y m d * 86400 + h * 3600 + mi * 60 + se) - off) * second + nsec)
                          (parse_zone rest))
                 | _ \<Rightarrow> None)
            | _ \<Rightarrow> None))"

section \<open>The calendar inverts\<close>

lemma div_below:
  assumes "d < n * k" and "0 < (k :: int)"
  shows "d div k < n"
proof (rule ccontr)
  assume "\<not> d div k < n"
  then have "k * n \<le> k * (d div k)" using assms(2) by (intro mult_left_mono) simp_all
  also have "\<dots> \<le> d" using assms(2) pos_mod_sign [of k d] by (simp add: minus_mod_eq_mult_div [symmetric])
  finally show False using assms(1) by (simp add: mult.commute)
qed

lemma quot_three:
  assumes "0 \<le> d" and "d \<le> 4 * k" and "0 < k" and "q = d div k - d div k div (4 :: int)"
  shows "0 \<le> q \<and> q \<le> 3 \<and> 0 \<le> d - k * q \<and> d - k * q \<le> k \<and> (q \<noteq> 3 \<longrightarrow> d - k * q < k) \<and> (d - k * q = k \<longrightarrow> q = 3 \<and> d = 4 * k)"
proof (cases "d = 4 * k")
  case True
  with assms(3,4) have "q = 3" by simp
  with True assms(3) show ?thesis by simp
next
  case False
  with assms(2) have "d < 4 * k" by simp
  then have "d div k < 4" using assms(3) by (rule div_below)
  moreover have "0 \<le> d div k" using assms(1,3) by (simp add: pos_imp_zdiv_nonneg_iff)
  ultimately have "q = d div k" using assms(4) by simp
  moreover from this have "d - k * q = d mod k" by (simp add: minus_mult_div_eq_mod)
  moreover have "0 \<le> d mod k" "d mod k < k" using assms(3) by simp_all
  ultimately show ?thesis using \<open>d div k < 4\<close> \<open>0 \<le> d div k\<close> by linarith
qed

lemma year_day_split:
  assumes "year_day days = (y, yd)"
  obtains a b c e where "y = 400 * a + 100 * b + 4 * c + e + 1"
    and "days + 719162 = 146097 * a + 36524 * b + 1461 * c + 365 * e + yd"
    and "0 \<le> b" "b \<le> 3" "0 \<le> c" "c \<le> 24" "0 \<le> e" "e \<le> 3" "0 \<le> yd" "yd \<le> 365"
    and "yd = 365 \<longrightarrow> e = 3 \<and> (c = 24 \<longrightarrow> b = 3)"
proof -
  define d0 where "d0 = days + 719162"
  define a where "a = d0 div 146097"
  define d1 where "d1 = d0 - 146097 * a"
  define b where "b = d1 div 36524 - d1 div 36524 div 4"
  define d2 where "d2 = d1 - 36524 * b"
  define c where "c = d2 div 1461"
  define d3 where "d3 = d2 - 1461 * c"
  define e where "e = d3 div 365 - d3 div 365 div 4"
  have d1: "0 \<le> d1" "d1 \<le> 146096" by (simp_all add: d1_def a_def minus_mult_div_eq_mod)
  have b: "0 \<le> b" "b \<le> 3" "0 \<le> d2" "d2 \<le> 36524" "b \<noteq> 3 \<longrightarrow> d2 \<le> 36523"
    using quot_three [OF d1(1), of 36524 b] d1(2) by (auto simp: b_def d2_def)
  have r: "d2 = 1461 * c + d3" "0 \<le> d3" "d3 \<le> 1460"
    using pos_mod_sign [of 1461 d2] pos_mod_bound [of 1461 d2]
    by (simp_all add: c_def d3_def minus_mult_div_eq_mod)
  have c: "0 \<le> c" using r b(3) by linarith
  have c24: "c \<le> 24" using r b(4) by linarith
  have d3: "d3 \<le> 1459" if "c = 24" "b \<noteq> 3" using r b(5) that by simp
  have e: "0 \<le> e" "e \<le> 3" "0 \<le> d3 - 365 * e" "d3 - 365 * e \<le> 365" "d3 - 365 * e = 365 \<longrightarrow> e = 3 \<and> d3 = 1460"
    using quot_three [OF r(2), of 365 e] r(3) by (auto simp: e_def)
  have "year_day days = (400 * a + 100 * b + 4 * c + e + 1, d3 - 365 * e)"
    by (simp only: year_day_def Let_def d0_def a_def d1_def b_def d2_def c_def d3_def e_def)
  with assms have y: "y = 400 * a + 100 * b + 4 * c + e + 1" and yd: "yd = d3 - 365 * e" by simp_all
  have sum: "days + 719162 = 146097 * a + 36524 * b + 1461 * c + 365 * e + yd"
    by (simp add: yd d3_def d2_def d1_def d0_def)
  have last: "yd = 365 \<longrightarrow> e = 3 \<and> (c = 24 \<longrightarrow> b = 3)"
    using e(5) d3 unfolding yd by (cases "c = 24"; cases "b = 3") auto
  show ?thesis
    by (rule that [OF y sum b(1) b(2) c c24 e(1) e(2) e(3) [folded yd] e(4) [folded yd] last])
qed

lemma year_day_days: "year_day days = (y, yd) \<Longrightarrow> days_of_year y + yd = days"
proof (erule year_day_split)
  fix a b c e
  assume y: "y = 400 * a + 100 * b + 4 * c + e + 1"
    and d: "days + 719162 = 146097 * a + 36524 * b + 1461 * c + 365 * e + yd"
    and r: "0 \<le> b" "b \<le> 3" "0 \<le> c" "c \<le> 24" "0 \<le> e" "e \<le> 3"
  have "(y - 1) div 400 = a" "(y - 1 - 400 * a) div 100 = b" "(y - 1 - 400 * a - 100 * b) div 4 = c"
    using y r by (auto intro!: int_div_pos_eq [of _ _ _ "100 * b + 4 * c + e"] int_div_pos_eq [of _ _ _ "4 * c + e"]
      int_div_pos_eq [of _ _ _ e])
  then show "days_of_year y + yd = days" using y d by (simp add: days_of_year_def Let_def)
qed

lemma year_day_range: "year_day days = (y, yd) \<Longrightarrow> 0 \<le> yd \<and> yd < (if leap_year y then 366 else 365)"
proof (erule year_day_split)
  fix a b c e :: int
  assume y: "y = 400 * a + 100 * b + 4 * c + e + 1"
    and r: "0 \<le> b" "b \<le> 3" "0 \<le> c" "c \<le> 24" "0 \<le> e" "e \<le> 3" "0 \<le> yd" "yd \<le> 365"
      "yd = 365 \<longrightarrow> e = 3 \<and> (c = 24 \<longrightarrow> b = 3)"
  have "leap_year y" if "yd = 365"
  proof -
    have e: "e = 3" and "c = 24 \<longrightarrow> b = 3" using r(9) that by auto
    have "y = 4 * (100 * a + 25 * b + c + 1)" using y e by simp
    then have "y mod 4 = 0" by simp
    moreover have "y mod 100 \<noteq> 0" if "c \<noteq> 24"
      using int_mod_pos_eq [of y 100 "4 * a + b" "4 * c + 4"] y e r(3,4) that by simp
    moreover have "y mod 400 = 0" if "c = 24" "b = 3"
    proof -
      have "y = 400 * (a + 1)" using y e that by simp
      then show ?thesis by simp
    qed
    ultimately show ?thesis using \<open>c = 24 \<longrightarrow> b = 3\<close> by (cases "c = 24") (auto simp: leap_year_def)
  qed
  then show "0 \<le> yd \<and> yd < (if leap_year y then 366 else 365)"
    using r(7,8) by (cases "yd = 365") auto
qed

definition month_day_ok :: "bool \<Rightarrow> int \<Rightarrow> bool" where
  "month_day_ok leap yd \<longleftrightarrow>
     (case month_day leap yd of (m, d) \<Rightarrow>
        1 \<le> m \<and> m \<le> 12 \<and> 1 \<le> d
        \<and> d \<le> (if m = 2 \<and> leap then 29 else days_before ! nat m - days_before ! nat (m - 1))
        \<and> days_before ! nat (m - 1) + (if leap \<and> 3 \<le> m then 1 else 0) + d - 1 = yd)"

lemma month_days: "list_all (month_day_ok False) [0..364] \<and> list_all (month_day_ok True) [0..365]"
  by code_simp

lemma civil_range:
  assumes "civil_of_days days = (y, m, d)"
  shows "1 \<le> m \<and> m \<le> 12 \<and> 1 \<le> d \<and> d \<le> days_in m y \<and> days_of_civil y m d = days"
proof -
  obtain yd where yd: "year_day days = (y, yd)" "month_day (leap_year y) yd = (m, d)"
    using assms by (auto simp: civil_of_days_def split: prod.splits)
  have "month_day_ok (leap_year y) yd"
    using year_day_range [OF yd(1)] month_days by (cases "leap_year y") (auto simp: list_all_iff)
  with yd(2) have ok: "1 \<le> m" "m \<le> 12" "1 \<le> d" "d \<le> days_in m y"
    "days_before ! nat (m - 1) + (if leap_year y \<and> 3 \<le> m then 1 else 0) + d - 1 = yd"
    by (auto simp: month_day_ok_def days_in_def)
  then show ?thesis using year_day_days [OF yd(1)] by (auto simp: days_of_civil_def)
qed

section \<open>What is printed reads back\<close>

lemma length_pad_int: "0 \<le> i \<Longrightarrow> i < 10 ^ w \<Longrightarrow> 0 < w \<Longrightarrow> length (pad_int w i) = w"
  by (simp add: pad_int_def length_pad nat_less_iff)

lemma parse_pad_int: "0 \<le> i \<Longrightarrow> lo \<le> i \<Longrightarrow> i \<le> hi \<Longrightarrow> parse_uint (pad_int w i) lo hi = Some i"
  by (simp add: parse_uint_def pad_int_def)

text \<open>Fields of fixed width separated by one character each, read back by position.\<close>

lemma fixed_fields:
  assumes "length y = 4" "length m = 2" "length d = 2" "length h = 2" "length i = 2" "length s = 2"
    and "t = y @ CHR ''-'' # m @ CHR ''-'' # d @ CHR ''T'' # h @ CHR '':'' # i @ CHR '':'' # s @ rest"
  shows "take 4 t = y" "take 2 (drop 5 t) = m" "take 2 (drop 8 t) = d" "take 2 (drop 11 t) = h"
    "take 2 (drop 14 t) = i" "take 2 (drop 17 t) = s" "drop 19 t = rest"
    "t ! 4 = CHR ''-''" "t ! 7 = CHR ''-''" "t ! 10 = CHR ''T''" "t ! 13 = CHR '':''" "t ! 16 = CHR '':''"
    "19 \<le> length t"
  using assms(1-6) by (simp_all add: assms(7) nth_append)

lemma two_digits: "0 \<le> i \<Longrightarrow> i < 100 \<Longrightarrow> length (pad_int 2 i) = 2"
  by (rule length_pad_int) simp_all

lemma month_lengths: "list_all (\<lambda>m. days_before ! nat m - days_before ! nat (m - 1) \<le> 31) [1..12]"
  by code_simp

lemma days_in_31: "1 \<le> m \<Longrightarrow> m \<le> 12 \<Longrightarrow> days_in m y \<le> 31"
  using month_lengths by (auto simp: list_all_iff days_in_def)

lemma parse_written:
  assumes "0 \<le> y" "y \<le> 9999" and "1 \<le> m" "m \<le> 12" and "1 \<le> d" "d \<le> days_in m y"
    and "0 \<le> h" "h \<le> 23" and "0 \<le> i" "i \<le> 59" and "0 \<le> e" "e \<le> 59"
    and "t = pad_int 4 y @ CHR ''-'' # pad_int 2 m @ CHR ''-'' # pad_int 2 d @ CHR ''T'' # pad_int 2 h
      @ CHR '':'' # pad_int 2 i @ CHR '':'' # pad_int 2 e @ ''Z''"
  shows "parse_rfc3339 t = Some ((days_of_civil y m d * 86400 + h * 3600 + i * 60 + e) * second)"
proof -
  have "d \<le> 31" using days_in_31 [OF assms(3,4), of y] assms(6) by simp
  have l: "length (pad_int 4 y) = 4" by (rule length_pad_int) (use assms in simp_all)
  have l2: "length (pad_int 2 m) = 2" "length (pad_int 2 d) = 2" "length (pad_int 2 h) = 2"
    "length (pad_int 2 i) = 2" "length (pad_int 2 e) = 2"
    using assms(3-12) \<open>d \<le> 31\<close> by (simp_all add: two_digits)
  note f = fixed_fields [OF l l2 assms(13)]
  have "parse_uint (pad_int 4 y) 0 9999 = Some y" "parse_uint (pad_int 2 m) 1 12 = Some m"
    "parse_uint (pad_int 2 d) 1 (days_in m y) = Some d" "parse_uint (pad_int 2 h) 0 23 = Some h"
    "parse_uint (pad_int 2 i) 0 59 = Some i" "parse_uint (pad_int 2 e) 0 59 = Some e"
    using assms(1-12) by (simp_all add: parse_pad_int)
  then show ?thesis
    using f(13) by (simp add: parse_rfc3339_def f(1-12) parse_fraction_def parse_zone_def)
qed

lemma clock_fields:
  assumes "0 \<le> s" and "s < 86400"
  shows "0 \<le> s div 3600" "s div 3600 \<le> 23" "0 \<le> s mod 3600 div 60" "s mod 3600 div 60 \<le> 59"
    "0 \<le> s mod 60" "s mod 60 \<le> 59" "s div 3600 * 3600 + s mod 3600 div 60 * 60 + s mod 60 = (s :: int)"
proof -
  show "s div 3600 \<le> 23" using div_below [of s 24 3600] assms by simp
  show "s mod 3600 div 60 \<le> 59" using div_below [of "s mod 3600" 60 60] by simp
  show "0 \<le> s div 3600" using assms(1) by (simp add: pos_imp_zdiv_nonneg_iff)
  show "0 \<le> s mod 3600 div 60" by (simp add: pos_imp_zdiv_nonneg_iff)
  show "0 \<le> s mod 60" by simp
  show "s mod 60 \<le> 59" using pos_mod_bound [of 60 s] by simp
  have "s mod 3600 mod 60 = s mod 60" by (rule mod_mod_cancel) simp
  with div_mult_mod_eq [of s 3600] div_mult_mod_eq [of "s mod 3600" 60]
  show "s div 3600 * 3600 + s mod 3600 div 60 * 60 + s mod 60 = s" by linarith
qed

theorem rfc3339_reads_back:
  assumes "civil_of_days (t div second div 86400) = (y, m, d)" and "0 \<le> y" and "y \<le> 9999"
  shows "parse_rfc3339 (format_rfc3339 t) = Some (t - t mod second)"
proof -
  define secs where "secs = t div second"
  define s where "s = secs mod 86400"
  have civ: "1 \<le> m" "m \<le> 12" "1 \<le> d" "d \<le> days_in m y" "days_of_civil y m d = secs div 86400"
    using civil_range [OF assms(1)] by (simp_all add: secs_def)
  have s: "0 \<le> s" "s < 86400" by (simp_all add: s_def)
  note r = clock_fields [OF s]
  have "format_rfc3339 t = pad_int 4 y @ CHR ''-'' # pad_int 2 m @ CHR ''-'' # pad_int 2 d
      @ CHR ''T'' # pad_int 2 (s div 3600) @ CHR '':'' # pad_int 2 (s mod 3600 div 60)
      @ CHR '':'' # pad_int 2 (s mod 60) @ ''Z''"
    using assms(1) by (simp only: format_rfc3339_def Let_def secs_def s_def prod.case)
  from parse_written [OF assms(2,3) civ(1-4) r(1-6) this]
  have "parse_rfc3339 (format_rfc3339 t) =
      Some ((secs div 86400 * 86400 + s div 3600 * 3600 + s mod 3600 div 60 * 60 + s mod 60) * second)"
    by (simp only: civ(5))
  also have "secs div 86400 * 86400 + s div 3600 * 3600 + s mod 3600 div 60 * 60 + s mod 60 = secs"
    using r(7) div_mult_mod_eq [of secs 86400] by (simp only: s_def add.assoc)
  finally show ?thesis by (simp only: secs_def minus_mod_eq_div_mult [symmetric])
qed

end
