(* ===== verification/Settings.thy ===== *)
theory Settings imports GoTime begin

text \<open>
  The settings table: the three statements of \<open>internal/db/settings.sql.go\<close>, the typed store of
  \<open>internal/settings/settings.go\<close> and \<open>alpr.go\<close>, and the retention endpoints of
  \<open>internal/api/settings.go\<close>. A statement that fails is named by the fault predicate. What a
  typed reader relies on of the writer of its type is the locale \<open>setting_codec\<close>.
\<close>

section \<open>The table\<close>

type_synonym settings_db = "string \<Rightarrow> string option"

datatype setting_query = GetSetting | UpsertSetting | InsertSettingIfMissing

datatype setting_error = SettingNotFound | SettingDbError | SettingSyntax

definition db_get_setting :: "settings_db \<Rightarrow> string \<Rightarrow> string option" where
  "db_get_setting d k = d k"

definition db_upsert_setting :: "string \<Rightarrow> string \<Rightarrow> settings_db \<Rightarrow> settings_db" where
  "db_upsert_setting k v d = d(k \<mapsto> v)"

definition db_insert_setting_if_missing :: "string \<Rightarrow> string \<Rightarrow> settings_db \<Rightarrow> settings_db" where
  "db_insert_setting_if_missing k v d = (case d k of None \<Rightarrow> d(k \<mapsto> v) | Some _ \<Rightarrow> d)"

interpretation setting_table: keyed_store db_get_setting db_upsert_setting
  by unfold_locales (simp_all add: db_get_setting_def db_upsert_setting_def)

section \<open>The typed store\<close>

definition get_setting :: "(setting_query \<Rightarrow> bool) \<Rightarrow> string \<Rightarrow> settings_db \<Rightarrow> setting_error + string" where
  "get_setting flt k d =
     (if flt GetSetting then Inl SettingDbError
      else (case db_get_setting d k of None \<Rightarrow> Inl SettingNotFound | Some v \<Rightarrow> Inr v))"

definition get_int_setting :: "(setting_query \<Rightarrow> bool) \<Rightarrow> string \<Rightarrow> settings_db \<Rightarrow> setting_error + int" where
  "get_int_setting flt k d =
     (case get_setting flt k d of
        Inl e \<Rightarrow> Inl e
      | Inr raw \<Rightarrow> (case parse_int 64 raw of None \<Rightarrow> Inl SettingSyntax | Some n \<Rightarrow> Inr n))"

definition set_setting ::
  "(setting_query \<Rightarrow> bool) \<Rightarrow> string \<Rightarrow> string \<Rightarrow> settings_db \<Rightarrow> setting_error option \<times> settings_db" where
  "set_setting flt k v d =
     (if flt UpsertSetting then (Some SettingDbError, d) else (None, db_upsert_setting k v d))"

definition set_int_setting ::
  "(setting_query \<Rightarrow> bool) \<Rightarrow> string \<Rightarrow> int \<Rightarrow> settings_db \<Rightarrow> setting_error option \<times> settings_db" where
  "set_int_setting flt k n d = set_setting flt k (show_int n) d"

definition seed_int_if_missing ::
  "(setting_query \<Rightarrow> bool) \<Rightarrow> string \<Rightarrow> int \<Rightarrow> settings_db \<Rightarrow> setting_error option \<times> settings_db" where
  "seed_int_if_missing flt k n d =
     (if flt InsertSettingIfMissing then (Some SettingDbError, d)
      else (None, db_insert_setting_if_missing k (show_int n) d))"

text \<open>\<open>strconv.ParseBool\<close>.\<close>

definition parse_bool :: "string \<Rightarrow> bool option" where
  "parse_bool s =
     (if s \<in> {''1'', ''t'', ''T'', ''TRUE'', ''true'', ''True''} then Some True
      else if s \<in> {''0'', ''f'', ''F'', ''FALSE'', ''false'', ''False''} then Some False
      else None)"

definition get_bool_setting :: "(setting_query \<Rightarrow> bool) \<Rightarrow> string \<Rightarrow> settings_db \<Rightarrow> setting_error + bool" where
  "get_bool_setting flt k d =
     (case get_setting flt k d of
        Inl e \<Rightarrow> Inl e
      | Inr raw \<Rightarrow> (case parse_bool raw of None \<Rightarrow> Inl SettingSyntax | Some b \<Rightarrow> Inr b))"

definition set_bool_setting ::
  "(setting_query \<Rightarrow> bool) \<Rightarrow> string \<Rightarrow> bool \<Rightarrow> settings_db \<Rightarrow> setting_error option \<times> settings_db" where
  "set_bool_setting flt k b d = set_setting flt k (if b then ''true'' else ''false'') d"

text \<open>The value, and the error next to it: a missing row is the default without an error.\<close>

definition or_default :: "'a \<Rightarrow> setting_error + 'a \<Rightarrow> 'a \<times> setting_error option" where
  "or_default def r =
     (case r of Inr v \<Rightarrow> (v, None)
      | Inl e \<Rightarrow> if e = SettingNotFound then (def, None) else (def, Some e))"

definition bool_or :: "(setting_query \<Rightarrow> bool) \<Rightarrow> string \<Rightarrow> bool \<Rightarrow> settings_db \<Rightarrow> bool \<times> setting_error option" where
  "bool_or flt k def d = or_default def (get_bool_setting flt k d)"

definition int_or :: "(setting_query \<Rightarrow> bool) \<Rightarrow> string \<Rightarrow> int \<Rightarrow> settings_db \<Rightarrow> int \<times> setting_error option" where
  "int_or flt k def d = or_default def (get_int_setting flt k d)"

definition get_float_setting :: "(setting_query \<Rightarrow> bool) \<Rightarrow> string \<Rightarrow> settings_db \<Rightarrow> setting_error + real" where
  "get_float_setting flt k d =
     (case get_setting flt k d of
        Inl e \<Rightarrow> Inl e
      | Inr raw \<Rightarrow> (case parse_float raw of None \<Rightarrow> Inl SettingSyntax | Some x \<Rightarrow> Inr x))"

definition float_or :: "(setting_query \<Rightarrow> bool) \<Rightarrow> string \<Rightarrow> real \<Rightarrow> settings_db \<Rightarrow> real \<times> setting_error option" where
  "float_or flt k def d = or_default def (get_float_setting flt k d)"

definition set_float_setting ::
  "(setting_query \<Rightarrow> bool) \<Rightarrow> string \<Rightarrow> real \<Rightarrow> settings_db \<Rightarrow> setting_error option \<times> settings_db" where
  "set_float_setting flt k x d = set_setting flt k (format_float x) d"

definition seed_float_if_missing ::
  "(setting_query \<Rightarrow> bool) \<Rightarrow> string \<Rightarrow> real \<Rightarrow> settings_db \<Rightarrow> setting_error option \<times> settings_db" where
  "seed_float_if_missing flt k x d =
     (if flt InsertSettingIfMissing then (Some SettingDbError, d)
      else (None, db_insert_setting_if_missing k (format_float x) d))"

definition string_or :: "(setting_query \<Rightarrow> bool) \<Rightarrow> string \<Rightarrow> string \<Rightarrow> settings_db \<Rightarrow> string \<times> setting_error option" where
  "string_or flt k def d = or_default def (get_setting flt k d)"

definition get_time_setting :: "(setting_query \<Rightarrow> bool) \<Rightarrow> string \<Rightarrow> settings_db \<Rightarrow> setting_error + gotime" where
  "get_time_setting flt k d =
     (case get_setting flt k d of
        Inl e \<Rightarrow> Inl e
      | Inr raw \<Rightarrow> (case parse_rfc3339 raw of None \<Rightarrow> Inl SettingSyntax | Some t \<Rightarrow> Inr t))"

text \<open>\<open>TimeOrZero\<close>: the time when a valid one was loaded.\<close>

definition time_or_zero :: "(setting_query \<Rightarrow> bool) \<Rightarrow> string \<Rightarrow> settings_db \<Rightarrow> setting_error + gotime option" where
  "time_or_zero flt k d =
     (case get_time_setting flt k d of
        Inr t \<Rightarrow> Inr (Some t)
      | Inl e \<Rightarrow> if e = SettingNotFound then Inr None else Inl e)"

text \<open>The next step of a handler that answers the same error whichever read failed.\<close>

definition or_bind :: "'a \<times> setting_error option \<Rightarrow> ('a \<Rightarrow> setting_error + 'b) \<Rightarrow> setting_error + 'b" where
  "or_bind r f = (case r of (v, None) \<Rightarrow> f v | (_, Some e) \<Rightarrow> Inl e)"

section \<open>A typed value survives its row\<close>

locale setting_codec =
  fixes enc :: "'a \<Rightarrow> string"
    and dec :: "string \<Rightarrow> 'a option"
    and fits :: "'a \<Rightarrow> bool"
  assumes dec_enc: "fits v \<Longrightarrow> dec (enc v) = Some v"
begin

definition typed_get :: "(setting_query \<Rightarrow> bool) \<Rightarrow> string \<Rightarrow> settings_db \<Rightarrow> setting_error + 'a" where
  "typed_get flt k d =
     (case get_setting flt k d of
        Inl e \<Rightarrow> Inl e
      | Inr raw \<Rightarrow> (case dec raw of None \<Rightarrow> Inl SettingSyntax | Some v \<Rightarrow> Inr v))"

lemma stored:
  "fits v \<Longrightarrow> \<not> flt GetSetting \<Longrightarrow> db_get_setting d k = Some (enc v) \<Longrightarrow> typed_get flt k d = Inr v"
  by (simp add: typed_get_def get_setting_def dec_enc)

lemma stored_or:
  "fits v \<Longrightarrow> \<not> flt GetSetting \<Longrightarrow> db_get_setting d k = Some (enc v) \<Longrightarrow> or_default def (typed_get flt k d) = (v, None)"
  by (simp add: stored or_default_def)

lemma absent_or:
  "\<not> flt GetSetting \<Longrightarrow> db_get_setting d k = None \<Longrightarrow> or_default def (typed_get flt k d) = (def, None)"
  by (simp add: typed_get_def get_setting_def or_default_def)

lemma set_get:
  "fits v \<Longrightarrow> \<not> flt GetSetting \<Longrightarrow> set_setting flt' k (enc v) d = (None, d') \<Longrightarrow> typed_get flt k d' = Inr v"
  by (rule stored) (auto simp: set_setting_def setting_table.look_put_same split: if_splits)

lemma same_row: "db_get_setting d k = db_get_setting d' k \<Longrightarrow> typed_get flt k d = typed_get flt k d'"
  by (simp add: typed_get_def get_setting_def)

end

definition in_int64 :: "int \<Rightarrow> bool" where
  "in_int64 n \<longleftrightarrow> - (2 ^ 63) \<le> n \<and> n < 2 ^ 63"

definition show_bool :: "bool \<Rightarrow> string" where
  "show_bool b = (if b then ''true'' else ''false'')"

definition whole_second :: "gotime \<Rightarrow> bool" where
  "whole_second t \<longleftrightarrow> t mod second = 0 \<and>
     (case civil_of_days (t div second div 86400) of (y, _, _) \<Rightarrow> 0 \<le> y \<and> y \<le> 9999)"

interpretation int_row: setting_codec show_int "parse_int 64" in_int64
  by unfold_locales (simp add: in_int64_def parse_show_int)

interpretation float_row: setting_codec format_float parse_float is_decimal
  by unfold_locales (rule format_float_reads_back)

interpretation bool_row: setting_codec show_bool parse_bool "\<lambda>_. True"
  by unfold_locales (simp add: show_bool_def parse_bool_def)

interpretation time_row: setting_codec format_rfc3339 parse_rfc3339 whole_second
proof
  fix t assume "whole_second t"
  then show "parse_rfc3339 (format_rfc3339 t) = Some t"
    using rfc3339_reads_back [of t] by (auto simp: whole_second_def)
qed

lemma typed_rows:
  "get_int_setting = int_row.typed_get" "get_float_setting = float_row.typed_get"
  "get_bool_setting = bool_row.typed_get" "get_time_setting = time_row.typed_get"
  by (intro ext, simp add: get_int_setting_def int_row.typed_get_def get_float_setting_def
      float_row.typed_get_def get_bool_setting_def bool_row.typed_get_def get_time_setting_def time_row.typed_get_def)+

definition key_retention_days :: string where
  "key_retention_days = ''retention_days''"

definition retention_days :: "(setting_query \<Rightarrow> bool) \<Rightarrow> int \<Rightarrow> settings_db \<Rightarrow> int \<times> setting_error option" where
  "retention_days flt env_default d =
     (case get_int_setting flt key_retention_days d of
        Inr n \<Rightarrow> (n, None)
      | Inl SettingNotFound \<Rightarrow> (env_default, None)
      | Inl e \<Rightarrow> (env_default, Some e))"

section \<open>The retention endpoints\<close>

datatype retention_resp = RetentionErr nat string | RetentionIs int

definition get_retention :: "(setting_query \<Rightarrow> bool) \<Rightarrow> int \<Rightarrow> settings_db \<Rightarrow> retention_resp" where
  "get_retention flt env d =
     (case retention_days flt env d of
        (n, None) \<Rightarrow> RetentionIs n
      | (_, Some SettingNotFound) \<Rightarrow> RetentionIs env
      | (_, Some _) \<Rightarrow> RetentionErr 500 ''failed to read retention setting'')"

text \<open>The body: \<open>None\<close> when binding fails, \<open>Some None\<close> without the field; the field is an \<open>int\<close>.\<close>

definition set_retention ::
  "(setting_query \<Rightarrow> bool) \<Rightarrow> int option option \<Rightarrow> settings_db \<Rightarrow> retention_resp \<times> settings_db" where
  "set_retention flt body d =
     (case body of
        None \<Rightarrow> (RetentionErr 400 ''failed to parse request body'', d)
      | Some None \<Rightarrow> (RetentionErr 400 ''retention_days is required'', d)
      | Some (Some n) \<Rightarrow>
          if n < 0 then (RetentionErr 400 ''retention_days must be 0 or a positive integer'', d)
          else (case set_int_setting flt key_retention_days n d of
                  (Some _, d') \<Rightarrow> (RetentionErr 500 ''failed to update retention setting'', d')
                | (None, d') \<Rightarrow> (RetentionIs n, d')))"

lemma int_setting_roundtrip:
  assumes "- (2 ^ 63) \<le> n" and "n < 2 ^ 63" and "\<not> flt GetSetting"
    and "set_int_setting flt' k n d = (None, d')"
  shows "get_int_setting flt k d' = Inr n"
  unfolding typed_rows
  by (rule int_row.set_get) (use assms in \<open>simp_all add: in_int64_def set_int_setting_def\<close>)

lemma set_int_setting_other:
  "set_int_setting flt k n d = (e, d') \<Longrightarrow> k' \<noteq> k \<Longrightarrow> db_get_setting d' k' = db_get_setting d k'"
  by (auto simp: set_int_setting_def set_setting_def setting_table.look_put_other split: if_splits)

lemma set_retention_stored:
  assumes "set_retention flt body d = (RetentionIs n, d')" and "n < 2 ^ 63"
  shows "0 \<le> n \<and> (\<not> flt' GetSetting \<longrightarrow> retention_days flt' env d' = (n, None))"
proof -
  obtain m where body: "body = Some (Some m)"
    using assms(1) by (auto simp: set_retention_def split: option.splits)
  then have set: "m = n" "0 \<le> n" "set_int_setting flt key_retention_days n d = (None, d')"
    using assms(1) by (auto simp: set_retention_def split: if_splits option.splits prod.splits)
  then show ?thesis
    using int_setting_roundtrip [OF _ assms(2) _ set(3), of flt'] by (simp add: retention_days_def)
qed

section \<open>Properties\<close>

text \<open>A retention accepted by the endpoint is the effective one from then on, whatever the
  environment default; a rejected or failed request leaves the table alone, and no request
  touches another key.\<close>

theorem retention_put_get:
  assumes "set_retention flt body d = (resp, d')" and "\<forall>n. body = Some (Some n) \<longrightarrow> n < 2 ^ 63"
  shows "(case resp of RetentionIs n \<Rightarrow> get_retention (\<lambda>_. False) env d' = RetentionIs n \<and> 0 \<le> n
          | RetentionErr _ _ \<Rightarrow> d' = d)
    \<and> (\<forall>k. k \<noteq> key_retention_days \<longrightarrow> db_get_setting d' k = db_get_setting d k)"
proof -
  have frame: "\<forall>k. k \<noteq> key_retention_days \<longrightarrow> db_get_setting d' k = db_get_setting d k"
    using assms(1) by (auto simp: set_retention_def set_int_setting_other split: option.splits if_splits prod.splits)
  show ?thesis
  proof (cases resp)
    case (RetentionIs n)
    then have "n < 2 ^ 63" using assms by (auto simp: set_retention_def split: option.splits if_splits prod.splits)
    then show ?thesis
      using set_retention_stored [of flt body d n d' "\<lambda>_. False" env] assms(1) RetentionIs frame
      by (simp add: get_retention_def)
  next
    case (RetentionErr st msg)
    then show ?thesis
      using assms(1) frame by (auto simp: set_retention_def set_int_setting_def set_setting_def split: option.splits if_splits prod.splits)
  qed
qed

theorem retention_put_get_witness:
  "get_retention (\<lambda>_. False) 30 (snd (set_retention (\<lambda>_. False) (Some (Some 7)) (\<lambda>_. None))) = RetentionIs 7"
proof -
  obtain d' where r: "set_retention (\<lambda>_. False) (Some (Some 7)) (\<lambda>_. None) = (RetentionIs 7, d')"
    by (simp add: set_retention_def set_int_setting_def set_setting_def)
  from retention_put_get [OF r, of 30] r show ?thesis by simp
qed

end
