(* ===== verification/Cleanup.thy ===== *)
theory Cleanup imports Storage Settings RouteTable begin

text \<open>
  The retention worker of \<open>internal/worker/cleanup.go\<close> with the two statements it runs on the
  routes table. The cutoff is computed with the wrap-around of \<open>Duration\<close> arithmetic. The
  context's cancellation is a predicate on the number of routes handled; size accounting and
  logging are left out.
\<close>

section \<open>State\<close>

record cleanup_world =
  cw_routes :: "route list"
  cw_fs :: fs
  cw_settings :: settings_db

record cleanup_cfg =
  cc_max :: int
  cc_dry_run :: bool
  cc_env_days :: int

datatype cleanup_query = CqList | CqDelete int

datatype cleanup_error =
  ResolveRetention setting_error | ListStale | Cancelled | RouteErrors "(string \<times> string \<times> fs_error option) list"

section \<open>Queries\<close>

text \<open>Rows of equal end time come in table order.\<close>

definition list_stale_routes :: "gotime \<Rightarrow> int \<Rightarrow> route list \<Rightarrow> route list option" where
  "list_stale_routes cutoff limit rs =
     (if limit < 0 then None
      else Some (take (nat limit)
        (sort_key (\<lambda>r. case r_end r of None \<Rightarrow> 0 | Some e \<Rightarrow> e) (filter (\<lambda>r. \<not> r_preserved r \<and> (case r_end r of None \<Rightarrow> False | Some e \<Rightarrow> e < cutoff)) rs))))"

definition delete_route_row :: "int \<Rightarrow> route list \<Rightarrow> route list" where
  "delete_route_row i rs = filter (\<lambda>r. r_id r \<noteq> i) rs"

section \<open>The pass\<close>

text \<open>\<open>-time.Duration(days) * 24 * time.Hour\<close>, on 64 bits.\<close>

definition retention_cutoff :: "gotime \<Rightarrow> int \<Rightarrow> gotime" where
  "retention_cutoff now days = now + to_int64 (to_int64 (- days * 24) * hour)"

definition effective_limit :: "cleanup_cfg \<Rightarrow> int" where
  "effective_limit c = (if cc_max c \<le> 0 then 1000 else cc_max c)"

text \<open>One stale route: \<open>None\<close> is success, \<open>Some None\<close> the row's delete failing.\<close>

definition delete_stale_route ::
  "(fs_call \<Rightarrow> bool) \<Rightarrow> (string list \<Rightarrow> bool) \<Rightarrow> (cleanup_query \<Rightarrow> bool) \<Rightarrow> storage \<Rightarrow> cleanup_cfg \<Rightarrow> route
     \<Rightarrow> cleanup_world \<Rightarrow> fs_error option option \<times> cleanup_world" where
  "delete_stale_route ff keep qf st c r w =
     (if cc_dry_run c then (None, w)
      else
        (case remove_route ff keep st (r_dongle r) (r_name r) (cw_fs w) of
           (Some e, s') \<Rightarrow> (Some (Some e), w\<lparr>cw_fs := s'\<rparr>)
         | (None, s') \<Rightarrow>
             if qf (CqDelete (r_id r)) then (Some None, w\<lparr>cw_fs := s'\<rparr>)
             else (None, w\<lparr>cw_fs := s', cw_routes := delete_route_row (r_id r) (cw_routes w)\<rparr>)))"

fun cleanup_loop ::
  "(fs_call \<Rightarrow> bool) \<Rightarrow> (string list \<Rightarrow> bool) \<Rightarrow> (cleanup_query \<Rightarrow> bool) \<Rightarrow> (nat \<Rightarrow> bool) \<Rightarrow> storage \<Rightarrow> cleanup_cfg
     \<Rightarrow> nat \<Rightarrow> route list \<Rightarrow> (string \<times> string \<times> fs_error option) list \<Rightarrow> cleanup_world
     \<Rightarrow> cleanup_error option \<times> cleanup_world" where
  "cleanup_loop ff keep qf gone st c n [] errs w = ((if errs = [] then None else Some (RouteErrors errs)), w)"
| "cleanup_loop ff keep qf gone st c n (r # rs) errs w =
     (if gone n then (Some Cancelled, w)
      else
        (case delete_stale_route ff keep qf st c r w of
           (None, w') \<Rightarrow> cleanup_loop ff keep qf gone st c (Suc n) rs errs w'
         | (Some e, w') \<Rightarrow> cleanup_loop ff keep qf gone st c (Suc n) rs (errs @ [(r_dongle r, r_name r, e)]) w'))"

definition cleanup_run_once ::
  "(fs_call \<Rightarrow> bool) \<Rightarrow> (string list \<Rightarrow> bool) \<Rightarrow> (cleanup_query \<Rightarrow> bool) \<Rightarrow> (setting_query \<Rightarrow> bool) \<Rightarrow> (nat \<Rightarrow> bool)
     \<Rightarrow> storage \<Rightarrow> cleanup_cfg \<Rightarrow> gotime \<Rightarrow> cleanup_world \<Rightarrow> cleanup_error option \<times> cleanup_world" where
  "cleanup_run_once ff keep qf sf gone st c now w =
     (case retention_days sf (cc_env_days c) (cw_settings w) of
        (_, Some e) \<Rightarrow> (Some (ResolveRetention e), w)
      | (days, None) \<Rightarrow>
          if days \<le> 0 then (None, w)
          else if qf CqList then (Some ListStale, w)
          else (case list_stale_routes (retention_cutoff now days) (to_int32 (effective_limit c)) (cw_routes w) of
                  None \<Rightarrow> (Some ListStale, w)
                | Some rs \<Rightarrow> cleanup_loop ff keep qf gone st c 0 rs [] w))"

section \<open>Lemmas\<close>

text \<open>The retention window in days for which the arithmetic does not wrap: about 292 years.\<close>

definition days_fit :: "int \<Rightarrow> bool" where
  "days_fit days \<longleftrightarrow> 0 \<le> days \<and> days \<le> 106751"

lemma cutoff_exact: "days_fit days \<Longrightarrow> retention_cutoff now days = now - days * 24 * hour"
proof -
  assume "days_fit days"
  then have "0 \<le> days" and "days \<le> 106751" by (simp_all add: days_fit_def)
  then have "to_int64 (- days * 24) = - days * 24" and "to_int64 (- days * 24 * hour) = - days * 24 * hour"
    by (simp_all add: to_int64_def hour_def)
  then show ?thesis by (simp add: retention_cutoff_def)
qed

definition stale :: "gotime \<Rightarrow> route \<Rightarrow> bool" where
  "stale cutoff r \<longleftrightarrow> \<not> r_preserved r \<and> (case r_end r of None \<Rightarrow> False | Some e \<Rightarrow> e < cutoff)"

lemma delete_stale_frame:
  assumes "delete_stale_route ff keep qf st c r w = (e, w')"
  shows "cw_settings w' = cw_settings w"
    and "q \<in> set (cw_routes w') \<Longrightarrow> q \<in> set (cw_routes w)"
    and "q \<in> set (cw_routes w) \<Longrightarrow> q \<notin> set (cw_routes w') \<Longrightarrow> r_id q = r_id r"
    and "clean_path (st_cwd st) \<Longrightarrow> \<not> prefix (route_dir st (r_dongle r) (r_name r)) p
       \<Longrightarrow> fs_files (cw_fs w') p = fs_files (cw_fs w) p"
  using assms by (auto simp: delete_stale_route_def delete_route_row_def remove_route_def Let_def remove_all_def
      split: if_splits prod.splits option.splits)

lemma cleanup_loop_frame:
  assumes "cleanup_loop ff keep qf gone st c n rs errs w = (e, w')"
  shows "(\<forall>q. q \<in> set (cw_routes w) \<longrightarrow> q \<notin> set (cw_routes w') \<longrightarrow> r_id q \<in> r_id ` set rs)
    \<and> (\<forall>p. clean_path (st_cwd st) \<longrightarrow> (\<forall>r \<in> set rs. \<not> prefix (route_dir st (r_dongle r) (r_name r)) p)
        \<longrightarrow> fs_files (cw_fs w') p = fs_files (cw_fs w) p)
    \<and> (cc_dry_run c \<longrightarrow> w' = w)"
  using assms
proof (induction rs arbitrary: n errs w)
  case Nil
  then show ?case by auto
next
  case (Cons r rs)
  show ?case
  proof (cases "gone n")
    case True
    then show ?thesis using Cons.prems by auto
  next
    case False
    obtain x w1 where d: "delete_stale_route ff keep qf st c r w = (x, w1)"
      by (cases "delete_stale_route ff keep qf st c r w")
    obtain errs' where "cleanup_loop ff keep qf gone st c (Suc n) rs errs' w1 = (e, w')"
      using Cons.prems False d by (auto split: option.splits)
    note IH = Cons.IH [OF this]
    have "cc_dry_run c \<longrightarrow> w1 = w" using d by (auto simp: delete_stale_route_def)
    moreover have "r_id q \<in> r_id ` set (r # rs)" if "q \<in> set (cw_routes w)" "q \<notin> set (cw_routes w')" for q
      using IH delete_stale_frame(3) [OF d, of q] that by auto
    moreover have "fs_files (cw_fs w') p = fs_files (cw_fs w) p"
      if "clean_path (st_cwd st)" "\<forall>r \<in> set (r # rs). \<not> prefix (route_dir st (r_dongle r) (r_name r)) p" for p
      using IH delete_stale_frame(4) [OF d, of p] that by simp
    ultimately show ?thesis using IH by blast
  qed
qed

text \<open>What one pass may have touched, whatever its outcome.\<close>

lemma run_once_cases:
  assumes "cleanup_run_once ff keep qf sf gone st c now w = (e, w')"
    and "retention_days sf (cc_env_days c) (cw_settings w) = (days, err)"
  shows "w' = w \<or> (0 < days \<and> \<not> cc_dry_run c \<and> (\<exists>rs.
      list_stale_routes (retention_cutoff now days) (to_int32 (effective_limit c)) (cw_routes w) = Some rs
    \<and> (\<forall>q. q \<in> set (cw_routes w) \<longrightarrow> q \<notin> set (cw_routes w') \<longrightarrow> r_id q \<in> r_id ` set rs)
    \<and> (\<forall>p. clean_path (st_cwd st) \<longrightarrow> (\<forall>r \<in> set rs. \<not> prefix (route_dir st (r_dongle r) (r_name r)) p)
        \<longrightarrow> fs_files (cw_fs w') p = fs_files (cw_fs w) p)))"
proof (cases "w' = w")
  case False
  then obtain rs where "err = None" "0 < days" and rs:
      "list_stale_routes (retention_cutoff now days) (to_int32 (effective_limit c)) (cw_routes w) = Some rs"
      "cleanup_loop ff keep qf gone st c 0 rs [] w = (e, w')"
    using assms by (auto simp: cleanup_run_once_def split: option.splits if_splits)
  from cleanup_loop_frame [OF rs(2)] False rs(1) \<open>0 < days\<close> show ?thesis by blast
qed simp

lemma list_stale_mem:
  "list_stale_routes cutoff limit rs = Some xs \<Longrightarrow> r \<in> set xs \<Longrightarrow> r \<in> set rs \<and> stale cutoff r"
  by (auto simp: list_stale_routes_def stale_def split: if_splits dest: in_set_takeD)

lemma list_stale_length: "list_stale_routes cutoff limit rs = Some xs \<Longrightarrow> length xs \<le> nat limit"
  by (auto simp: list_stale_routes_def split: if_splits)

lemma same_id: "routes_wf rs \<Longrightarrow> q \<in> set rs \<Longrightarrow> r \<in> set rs \<Longrightarrow> r_id q = r_id r \<Longrightarrow> q = r"
  by (auto simp: routes_wf_def distinct_map inj_on_def)

section \<open>Properties\<close>


definition cleanup_route :: "int \<Rightarrow> string \<Rightarrow> gotime option \<Rightarrow> bool \<Rightarrow> route" where
  "cleanup_route i n e p = \<lparr>r_id = i, r_dongle = ''dev'', r_name = n, r_start = None, r_end = e, r_created = 0, r_preserved = p\<rparr>"

definition cleanup_start :: cleanup_world where
  "cleanup_start = \<lparr>cw_routes = [cleanup_route 1 ''r'' (Some 0) False, cleanup_route 2 ''q'' (Some 0) True], cw_fs = demo_fs,
     cw_settings = db_upsert_setting key_retention_days (show_int 30) (\<lambda>_. None)\<rparr>"

definition demo_cleanup :: cleanup_cfg where
  "demo_cleanup = \<lparr>cc_max = 0, cc_dry_run = False, cc_env_days = 0\<rparr>"

lemma set_days:
  "0 \<le> n \<Longrightarrow> set_retention (\<lambda>_. False) (Some (Some n)) (\<lambda>_. None)
     = (RetentionIs n, db_upsert_setting key_retention_days (show_int n) (\<lambda>_. None))"
  by (simp add: set_retention_def set_int_setting_def set_setting_def)

lemma demo_days: "retention_days (\<lambda>_. False) (cc_env_days demo_cleanup) (cw_settings cleanup_start) = (30, None)"
  using set_retention_stored [OF set_days [of 30], of "\<lambda>_. False"] by (simp add: cleanup_start_def)


text \<open>The files of a preserved route survive every pass, whatever fails in it, as long as the device
  and route names are plain path components.\<close>

theorem preserved_files_survive:
  assumes "cleanup_run_once ff keep qf sf gone st c now w = (e, w')"
    and "clean_path (st_cwd st)" and "st_base st \<noteq> []" and "routes_wf (cw_routes w)"
    and "\<forall>r \<in> set (cw_routes w). plain (r_dongle r) \<and> plain (r_name r)"
    and "q \<in> set (cw_routes w)" and "r_preserved q"
    and "prefix (route_dir st (r_dongle q) (r_name q)) p"
  shows "fs_files (cw_fs w') p = fs_files (cw_fs w) p \<and> q \<in> set (cw_routes w')"
proof -
  obtain days err where d: "retention_days sf (cc_env_days c) (cw_settings w) = (days, err)"
    by (cases "retention_days sf (cc_env_days c) (cw_settings w)")
  have dir: "route_dir st (r_dongle r) (r_name r) = base_dir st @ [r_dongle r, r_name r]" if "r \<in> set (cw_routes w)" for r
    using that assms(3,5) abs_join_below [of "st_base st" "[r_dongle r, r_name r]"] by (simp add: route_dir_def base_dir_def)
  show ?thesis
  proof (cases "w' = w")
    case False
    then obtain rs where rs: "list_stale_routes (retention_cutoff now days) (to_int32 (effective_limit c)) (cw_routes w) = Some rs"
      and gone: "q \<notin> set (cw_routes w') \<longrightarrow> r_id q \<in> r_id ` set rs"
      and frame: "(\<forall>r \<in> set rs. \<not> prefix (route_dir st (r_dongle r) (r_name r)) p) \<longrightarrow> fs_files (cw_fs w') p = fs_files (cw_fs w) p"
      using run_once_cases [OF assms(1) d] assms(2,6) by blast
    have other: "r_dongle r \<noteq> r_dongle q \<or> r_name r \<noteq> r_name q" "r_id r \<noteq> r_id q" if "r \<in> set rs" for r
    proof -
      have r: "r \<in> set (cw_routes w)" "r \<noteq> q" using list_stale_mem [OF rs that] assms(7) by (auto simp: stale_def)
      then show "r_dongle r \<noteq> r_dongle q \<or> r_name r \<noteq> r_name q" "r_id r \<noteq> r_id q"
        using assms(4,6) by (auto simp: routes_wf_def distinct_map inj_on_def)
    qed
    have "\<not> prefix (route_dir st (r_dongle r) (r_name r)) p" if "r \<in> set rs" for r
      using assms(8) other(1) [OF that] list_stale_mem [OF rs that] dir [of r] dir [OF assms(6)]
      by (auto simp: prefix_def)
    moreover have "r_id q \<notin> r_id ` set rs" using other(2) by force
    ultimately show ?thesis using frame gone by blast
  qed (use assms(6) in simp)
qed

theorem preserved_files_survive_witness:
  "\<exists>e w'. cleanup_run_once (\<lambda>_. False) (\<lambda>_. False) (\<lambda>_. False) (\<lambda>_. False) (\<lambda>_. False) demo_storage demo_cleanup (40 * 24 * hour)
      cleanup_start = (e, w') \<and> fs_files (cw_fs w') [''srv'', ''data'', ''dev'', ''q'', ''qlog''] = Some ''y''"
proof -
  obtain e w' where r: "cleanup_run_once (\<lambda>_. False) (\<lambda>_. False) (\<lambda>_. False) (\<lambda>_. False) (\<lambda>_. False) demo_storage
      demo_cleanup (40 * 24 * hour) cleanup_start = (e, w')" by fastforce
  have "fs_files (cw_fs w') [''srv'', ''data'', ''dev'', ''q'', ''qlog''] = fs_files (cw_fs cleanup_start) [''srv'', ''data'', ''dev'', ''q'', ''qlog'']
      \<and> cleanup_route 2 ''q'' (Some 0) True \<in> set (cw_routes w')"
  proof (rule preserved_files_survive [OF r])
    show "prefix (route_dir demo_storage (r_dongle (cleanup_route 2 ''q'' (Some 0) True)) (r_name (cleanup_route 2 ''q'' (Some 0) True)))
        [''srv'', ''data'', ''dev'', ''q'', ''qlog'']" by code_simp
  qed (simp_all add: cleanup_start_def cleanup_route_def routes_wf_def plain_def slash_def demo_storage_def)
  with r show ?thesis by (simp add: cleanup_start_def demo_fs_def)
qed

text \<open>Beyond 292 years the arithmetic of the window wraps. The endpoint accepts a retention of
  200000 days, and the next pass deletes a route that ended a second ago.\<close>

theorem retention_overflow_deletes:
  "\<exists>d'. set_retention (\<lambda>_. False) (Some (Some 200000)) (\<lambda>_. None) = (RetentionIs 200000, d')
    \<and> cw_routes (snd (cleanup_run_once (\<lambda>_. False) (\<lambda>_. False) (\<lambda>_. False) (\<lambda>_. False) (\<lambda>_. False) demo_storage demo_cleanup
        (1700000000 * second)
        \<lparr>cw_routes = [cleanup_route 1 ''r'' (Some (1699999999 * second)) False], cw_fs = demo_fs, cw_settings = d'\<rparr>)) = []"
proof -
  let ?r = "cleanup_route 1 ''r'' (Some (1699999999 * second)) False"
  let ?d = "db_upsert_setting key_retention_days (show_int 200000) (\<lambda>_. None)"
  let ?w = "\<lparr>cw_routes = [?r], cw_fs = demo_fs, cw_settings = ?d\<rparr>"
  have set: "set_retention (\<lambda>_. False) (Some (Some 200000)) (\<lambda>_. None) = (RetentionIs 200000, ?d)"
    by (rule set_days) simp
  have days: "retention_days (\<lambda>_. False) (cc_env_days demo_cleanup) ?d = (200000, None)"
    using set_retention_stored [OF set, of "\<lambda>_. False"] by simp
  have "list_stale_routes (retention_cutoff (1700000000 * second) 200000) (to_int32 (effective_limit demo_cleanup)) [?r] = Some [?r]"
    by (simp add: list_stale_routes_def retention_cutoff_def to_int64_def second_def hour_def cleanup_route_def
        effective_limit_def demo_cleanup_def to_int32_def)
  moreover have "within_base demo_storage (route_dir demo_storage (r_dongle ?r) (r_name ?r))" by code_simp
  then have "cw_routes (snd (cleanup_loop (\<lambda>_. False) (\<lambda>_. False) (\<lambda>_. False) (\<lambda>_. False) demo_storage demo_cleanup 0 [?r] [] ?w)) = []"
    by (simp add: delete_stale_route_def remove_route_def Let_def delete_route_row_def demo_cleanup_def)
  ultimately have "cw_routes (snd (cleanup_run_once (\<lambda>_. False) (\<lambda>_. False) (\<lambda>_. False) (\<lambda>_. False) (\<lambda>_. False) demo_storage demo_cleanup
      (1700000000 * second) ?w)) = []"
    unfolding cleanup_run_once_def by (simp add: days)
  with set show ?thesis by blast
qed

end
