(* ===== verification/Upload.thy ===== *)
theory Upload imports Storage Auth RouteTable begin

text \<open>
  Uploads: the device-facing URL endpoint and the PUT handler of \<open>internal/api/upload.go\<close>, the
  signed upload paths of \<open>internal/api/upload_signature.go\<close> with the middleware of
  \<open>cmd/server/routes.go\<close> that accepts them, and the statements on the routes and segments
  tables that track an upload. The body's bytes are a string; metrics are left out.
\<close>

section \<open>File names and paths\<close>

datatype upload_flag = Rlog | Qlog | Fcamera | Ecamera | Dcamera | Qcamera

definition filename_flags :: "(string \<times> upload_flag) list" where
  "filename_flags =
     [(''rlog'', Rlog), (''rlog.bz2'', Rlog), (''rlog.zst'', Rlog),
      (''qlog'', Qlog), (''qlog.bz2'', Qlog), (''qlog.zst'', Qlog),
      (''fcamera.hevc'', Fcamera), (''fcamera.hevc~'', Fcamera),
      (''ecamera.hevc'', Ecamera), (''ecamera.hevc~'', Ecamera),
      (''dcamera.hevc'', Dcamera), (''dcamera.hevc~'', Dcamera),
      (''qcamera.ts'', Qcamera)]"

definition filename_to_flag :: "string \<Rightarrow> upload_flag option" where
  "filename_to_flag f = map_of filename_flags f"

definition valid_filenames :: "string list" where
  "valid_filenames =
     [''rlog'', ''qlog'', ''fcamera.hevc'', ''ecamera.hevc'', ''dcamera.hevc'', ''qcamera.ts'', ''rlog.bz2'', ''qlog.bz2'',
      ''rlog.zst'', ''qlog.zst'', ''fcamera.hevc~'', ''ecamera.hevc~'', ''dcamera.hevc~'']"

text \<open>The last occurrence of the double dash, as \<open>strings.LastIndex\<close>.\<close>

definition last_dashes :: "string \<Rightarrow> nat option" where
  "last_dashes s =
     (case filter (\<lambda>i. prefix ''--'' (drop i s)) [0..<length s] of [] \<Rightarrow> None | i # is \<Rightarrow> Some (last (i # is)))"

definition parse_path :: "string \<Rightarrow> (string \<times> string \<times> string) option" where
  "parse_path path =
     (case split_two slash path of
        [rs, file] \<Rightarrow>
          if rs = [] \<or> file = [] then None
          else (case last_dashes rs of
                  None \<Rightarrow> None
                | Some i \<Rightarrow>
                    if i = length rs - 2 then None
                    else (let route = take i rs; segment = drop (i + 2) rs
                          in if route = [] \<or> segment = [] then None else Some (route, segment, file)))
      | _ \<Rightarrow> None)"

definition parse_upload_path :: "string \<Rightarrow> (string \<times> string \<times> string) option" where
  "parse_upload_path path =
     (case split_two slash path of
        [route, rest] \<Rightarrow>
          (case split_two slash rest of
             [segment, file] \<Rightarrow>
               if route = [] \<or> segment = [] \<or> file = [] then None
               else (case parse_int 64 segment of
                       None \<Rightarrow> None
                     | Some n \<Rightarrow> if n < 0 then None else Some (route, segment, file))
           | _ \<Rightarrow> None)
      | _ \<Rightarrow> None)"

definition parse_boot_path :: "string \<Rightarrow> string option" where
  "parse_boot_path path =
     (if \<not> prefix ''boot/'' path then None
      else (let rest = drop 5 path in
            if \<not> suffix ''.zst'' rest then None
            else (let ident = take (length rest - 4) rest in
                  if ident = [] \<or> slash \<in> set ident \<or> CHR 0x5C \<in> set ident \<or> sublist ''..'' ident then None
                  else Some ident)))"

section \<open>The URL endpoint\<close>

datatype url_resp = UrlErr nat string | UrlIs string

definition build_segment_upload_url :: "string \<Rightarrow> string \<Rightarrow> string \<Rightarrow> string \<Rightarrow> string \<Rightarrow> string" where
  "build_segment_upload_url base dongle route segment file =
     base @ ''/upload/'' @ dongle @ slash # route @ slash # segment @ slash # file"

definition build_boot_upload_url :: "string \<Rightarrow> string \<Rightarrow> string \<Rightarrow> string" where
  "build_boot_upload_url base dongle ident = base @ ''/upload/'' @ dongle @ ''/boot/'' @ ident @ ''.zst''"

definition get_upload_url :: "string \<Rightarrow> string \<Rightarrow> string \<Rightarrow> string \<Rightarrow> url_resp" where
  "get_upload_url base auth dongle path =
     (if auth \<noteq> dongle then UrlErr 403 ''dongle_id does not match authenticated device''
      else if path = [] then UrlErr 400 ''missing required query parameter: path''
      else if prefix ''boot/'' path
      then (case parse_boot_path path of
              None \<Rightarrow> UrlErr 400 ''invalid boot path''
            | Some ident \<Rightarrow> UrlIs (build_boot_upload_url base dongle ident))
      else (case parse_path path of
              None \<Rightarrow> UrlErr 400 ''failed to parse path''
            | Some (route, segment, file) \<Rightarrow>
                if file \<notin> set valid_filenames then UrlErr 400 ''unsupported file type''
                else UrlIs (build_segment_upload_url base dongle route segment file)))"

section \<open>The tables\<close>

record segment =
  sg_route :: int
  sg_num :: int
  sg_flags :: "upload_flag set"

record upload_db =
  ud_routes :: "route list"
  ud_segments :: "segment list"
  ud_next :: int

datatype upload_query = UqGetRoute nat | UqCreateRoute | UqCreateSegment | UqUpdateSegment

datatype upload_error = UploadDbError string

definition get_route_row :: "upload_db \<Rightarrow> string \<Rightarrow> string \<Rightarrow> route option" where
  "get_route_row d dongle name = find (\<lambda>r. r_dongle r = dongle \<and> r_name r = name) (ud_routes d)"

text \<open>\<open>CreateRoute\<close>: \<open>None\<close> when the pair is taken.\<close>

definition create_route :: "gotime \<Rightarrow> string \<Rightarrow> string \<Rightarrow> upload_db \<Rightarrow> (route \<times> upload_db) option" where
  "create_route now dongle name d =
     (case get_route_row d dongle name of
        Some _ \<Rightarrow> None
      | None \<Rightarrow>
          (let r = \<lparr>r_id = ud_next d, r_dongle = dongle, r_name = name, r_start = None, r_end = None, r_created = now,
                    r_preserved = False\<rparr>
           in Some (r, d\<lparr>ud_routes := ud_routes d @ [r], ud_next := ud_next d + 1\<rparr>)))"

definition create_segment :: "int \<Rightarrow> int \<Rightarrow> upload_db \<Rightarrow> upload_db" where
  "create_segment route num d =
     (if \<exists>s \<in> set (ud_segments d). sg_route s = route \<and> sg_num s = num then d
      else d\<lparr>ud_segments := ud_segments d @ [\<lparr>sg_route = route, sg_num = num, sg_flags = {}\<rparr>]\<rparr>)"

definition update_segment_upload :: "int \<Rightarrow> int \<Rightarrow> upload_flag \<Rightarrow> upload_db \<Rightarrow> upload_db" where
  "update_segment_upload route num fl d =
     d\<lparr>ud_segments := map (\<lambda>s. if sg_route s = route \<and> sg_num s = num then s\<lparr>sg_flags := insert fl (sg_flags s)\<rparr> else s)
        (ud_segments d)\<rparr>"

section \<open>Tracking\<close>

text \<open>
  The route record: read, created, or read again when a concurrent upload (\<open>race\<close>) took the pair in
  between.
\<close>

definition get_or_create_route ::
  "(upload_query \<Rightarrow> bool) \<Rightarrow> (upload_db \<Rightarrow> upload_db) \<Rightarrow> gotime \<Rightarrow> string \<Rightarrow> string \<Rightarrow> upload_db
     \<Rightarrow> (upload_error + route) \<times> upload_db" where
  "get_or_create_route flt race now dongle name d =
     (if flt (UqGetRoute 0) then (Inl (UploadDbError ''failed to get route''), d)
      else
        (case get_route_row d dongle name of
           Some r \<Rightarrow> (Inr r, d)
         | None \<Rightarrow>
             (let d1 = race d in
              (case (if flt UqCreateRoute then None else create_route now dongle name d1) of
                 Some (r, d2) \<Rightarrow> (Inr r, d2)
               | None \<Rightarrow>
                   if flt (UqGetRoute 1) then (Inl (UploadDbError ''failed to get or create route''), d1)
                   else (case get_route_row d1 dongle name of
                           None \<Rightarrow> (Inl (UploadDbError ''failed to get or create route''), d1)
                         | Some r \<Rightarrow> (Inr r, d1))))))"

definition track_upload ::
  "(upload_query \<Rightarrow> bool) \<Rightarrow> (upload_db \<Rightarrow> upload_db) \<Rightarrow> gotime \<Rightarrow> string \<Rightarrow> string \<Rightarrow> string \<Rightarrow> string \<Rightarrow> upload_db
     \<Rightarrow> upload_error option \<times> upload_db" where
  "track_upload flt race now dongle name segment file d =
     (case parse_int 64 segment of
        None \<Rightarrow> (Some (UploadDbError ''invalid segment number''), d)
      | Some num \<Rightarrow>
          (case get_or_create_route flt race now dongle name d of
             (Inl e, d1) \<Rightarrow> (Some e, d1)
           | (Inr r, d1) \<Rightarrow>
               if flt UqCreateSegment then (Some (UploadDbError ''failed to create segment''), d1)
               else
                 (let d2 = create_segment (r_id r) (to_int32 num) d1 in
                  (case filename_to_flag file of
                     None \<Rightarrow> (None, d2)
                   | Some fl \<Rightarrow>
                       if flt UqUpdateSegment then (Some (UploadDbError ''failed to update segment upload flag''), d2)
                       else (None, update_segment_upload (r_id r) (to_int32 num) fl d2)))))"

section \<open>The PUT handler\<close>

record upload_world =
  uw_fs :: fs
  uw_db :: "upload_db option"

datatype put_resp = PutErr nat string | PutOk

definition upload_segment_file ::
  "(fs_call \<Rightarrow> bool) \<Rightarrow> (upload_query \<Rightarrow> bool) \<Rightarrow> (upload_db \<Rightarrow> upload_db) \<Rightarrow> storage \<Rightarrow> gotime
     \<Rightarrow> string \<Rightarrow> string \<Rightarrow> string \<Rightarrow> string \<Rightarrow> string \<Rightarrow> upload_world \<Rightarrow> put_resp \<times> upload_world" where
  "upload_segment_file ff qf race st now dongle route segment file body w =
     (case store ff st dongle route segment file body (uw_fs w) of
        (Some _, s') \<Rightarrow> (PutErr 500 ''failed to store uploaded file'', w\<lparr>uw_fs := s'\<rparr>)
      | (None, s') \<Rightarrow>
          (case uw_db w of
             None \<Rightarrow> (PutOk, w\<lparr>uw_fs := s'\<rparr>)
           | Some d \<Rightarrow>
               (PutOk, w\<lparr>uw_fs := s', uw_db := Some (snd (track_upload qf race now dongle route segment file d))\<rparr>)))"

definition upload_file ::
  "(fs_call \<Rightarrow> bool) \<Rightarrow> (upload_query \<Rightarrow> bool) \<Rightarrow> (upload_db \<Rightarrow> upload_db) \<Rightarrow> storage \<Rightarrow> gotime
     \<Rightarrow> string \<Rightarrow> string \<Rightarrow> string \<Rightarrow> string \<Rightarrow> upload_world \<Rightarrow> put_resp \<times> upload_world" where
  "upload_file ff qf race st now auth dongle path body w =
     (if auth \<noteq> dongle then (PutErr 403 ''dongle_id does not match authenticated device'', w)
      else if path = [] then (PutErr 400 ''missing file path in URL'', w)
      else if prefix ''boot/'' path
      then (case parse_boot_path path of
              None \<Rightarrow> (PutErr 400 ''invalid boot path'', w)
            | Some ident \<Rightarrow>
                (case write_boot_log ff st dongle ident body (uw_fs w) of
                   (Some _, s') \<Rightarrow> (PutErr 500 ''failed to store boot log'', w\<lparr>uw_fs := s'\<rparr>)
                 | (None, s') \<Rightarrow> (PutOk, w\<lparr>uw_fs := s'\<rparr>)))
      else (case parse_upload_path path of
              None \<Rightarrow> (PutErr 400 ''failed to parse upload path'', w)
            | Some (route, segment, file) \<Rightarrow>
                if file \<notin> set valid_filenames then (PutErr 400 ''unsupported file type'', w)
                else upload_segment_file ff qf race st now dongle route segment file body w))"

section \<open>Signed upload paths\<close>

definition upload_sig_payload :: "string \<Rightarrow> int \<Rightarrow> string" where
  "upload_sig_payload path e = ''PUT'' @ CHR 0x0A # path @ CHR 0x0A # show_int e"

definition sign_upload_path :: "mac \<Rightarrow> string \<Rightarrow> string \<Rightarrow> gotime \<Rightarrow> string" where
  "sign_upload_path mac secret path t = b64_enc (mac secret (upload_sig_payload path (time_to_unix t)))"

definition verify_upload_signature_at :: "mac \<Rightarrow> string \<Rightarrow> string \<Rightarrow> string \<Rightarrow> string \<Rightarrow> gotime \<Rightarrow> bool" where
  "verify_upload_signature_at mac secret path expp sigp now =
     (if secret = [] \<or> expp = [] \<or> sigp = [] then False
      else (case parse_int 64 expp of
              None \<Rightarrow> False
            | Some e \<Rightarrow>
                if unix_to_time e < now then False
                else (case b64_dec (sign_upload_path mac secret path (unix_to_time e)) of
                        None \<Rightarrow> False
                      | Some want \<Rightarrow> (case b64_dec sigp of None \<Rightarrow> False | Some got \<Rightarrow> want = got))))"

text \<open>\<open>uploadAuthOrSignature\<close>: the dongle the handler will see as authenticated.\<close>

definition upload_auth ::
  "mac \<Rightarrow> 'key jwt_lib \<Rightarrow> (string \<Rightarrow> lookup_error + string option) \<Rightarrow> string \<Rightarrow> gotime \<Rightarrow> request
     \<Rightarrow> string \<Rightarrow> string \<Rightarrow> string \<Rightarrow> string \<Rightarrow> auth_result" where
  "upload_auth mac L lookup secret now r dongle path expp sigp =
     (if expp \<noteq> [] \<or> sigp \<noteq> []
      then (if secret = [] then Deny 401 ''upload signing is not configured''
            else if \<not> verify_upload_signature_at mac secret path expp sigp now
            then Deny 401 ''invalid or expired upload signature''
            else Pass (empty_ctx\<lparr>cx_dongle := Some dongle\<rparr>))
      else jwt_auth_from_db L lookup r empty_ctx)"

section \<open>Lemmas\<close>

lemma read_digits_chars: "read_digits acc s = Some n \<Longrightarrow> c \<in> set s \<Longrightarrow> digit_val c \<noteq> None"
  by (induction acc s rule: read_digits.induct) (auto split: option.splits)

text \<open>A segment number is a plain path component.\<close>

lemma parse_int_plain:
  assumes "parse_int bits s = Some n"
  shows "plain s"
proof -
  obtain neg ds where ds: "parse_sign s = (neg, ds)" "ds \<noteq> []" and "\<exists>m. read_digits 0 ds = Some m"
    using assms by (auto simp: parse_int_def split: prod.splits if_splits option.splits)
  then have digits: "\<forall>c \<in> set ds. digit_val c \<noteq> None" using read_digits_chars by blast
  have set: "set s \<subseteq> {CHR ''+'', CHR ''-''} \<union> set ds" and "set ds \<subseteq> set s"
    using ds(1) by (auto simp: parse_sign_def split: list.splits if_splits)
  have none: "digit_val (CHR ''.'') = None" "digit_val slash = None" by (simp_all add: digit_val_def slash_def)
  then have "CHR ''.'' \<notin> set ds" and "slash \<notin> set ds" using digits by auto
  then have "CHR ''.'' \<notin> set s" and "slash \<notin> set s" using set by (auto simp: slash_def)
  moreover have "s \<noteq> []" using ds(2) \<open>set ds \<subseteq> set s\<close> by auto
  ultimately show ?thesis by (auto simp: plain_def)
qed

lemma valid_plain: "f \<in> set valid_filenames \<Longrightarrow> plain f"
  by (auto simp: valid_filenames_def plain_def slash_def)

lemma parse_upload_parts:
  assumes "parse_upload_path path = Some (route, segment, file)"
  shows "path = route @ slash # segment @ slash # file" and "plain segment" and "route \<noteq> []" and "slash \<notin> set route"
    and "\<exists>n. parse_int 64 segment = Some n \<and> 0 \<le> n"
proof -
  obtain rest where "split_two slash path = [route, rest]" and "split_two slash rest = [segment, file]"
    and n: "\<exists>n. parse_int 64 segment = Some n \<and> 0 \<le> n" and "route \<noteq> []"
    using assms by (auto simp: parse_upload_path_def split: list.splits option.splits if_splits)
  then show "path = route @ slash # segment @ slash # file" and "slash \<notin> set route" and "route \<noteq> []"
    using split_two_cases [of slash path] split_two_cases [of slash rest] by auto
  show "\<exists>n. parse_int 64 segment = Some n \<and> 0 \<le> n" by (rule n)
  then show "plain segment" by (auto intro: parse_int_plain)
qed

lemma store_within:
  assumes "clean_path (st_cwd st)" and "st_base st \<noteq> []" and "plain file"
    and "store ff st dongle route segment file body s = (e, s')" and "fs_files s' q \<noteq> fs_files s q"
  shows "strict_prefix (base_dir st) q \<and> q = file_path st dongle route segment file"
proof -
  let ?d = "abs_join (st_cwd st) [st_base st, dongle, route, segment]"
  have run: "mkdir_and_write ff ?d (file_path st dongle route segment file) body s = (e, s')"
    and ok: "within_base st ?d \<or> render ?d = render (base_dir st)"
    using assms(4,5) by (auto simp: store_def Let_def split: if_splits)
  have q: "q = file_path st dongle route segment file"
    using mkdir_and_write_frame [OF run] assms(5) by blast
  have "prefix (base_dir st) ?d"
    using ok within_base_iff [OF assms(1) abs_join_clean [OF assms(1)]] render_inject abs_join_clean base_dir_clean assms(1)
    by (metis prefix_order.refl strict_prefix_def)
  moreover have "file_path st dongle route segment file = ?d @ [file]"
    using abs_join_last [OF assms(2), of "st_cwd st" "[dongle, route, segment]" "file"] assms(3)
    by (auto simp: file_path_def plain_def split_on_none)
  ultimately show ?thesis using q by (auto simp: strict_prefix_def)
qed

lemma store_ok_file:
  "store ff st dongle route segment file body s = (None, s') \<Longrightarrow>
     fs_files s' (file_path st dongle route segment file) = Some body"
  by (auto simp: store_def Let_def dest: mkdir_and_write_ok split: if_splits)

lemma upload_segment_fs:
  assumes "upload_segment_file ff qf race st now dongle route segment file body w = (resp, w')"
  shows "\<exists>e. store ff st dongle route segment file body (uw_fs w) = (e, uw_fs w') \<and> (resp = PutOk \<longleftrightarrow> e = None)"
  using assms by (auto simp: upload_segment_file_def split: prod.splits option.splits)

section \<open>Properties\<close>

text \<open>C21: an upload stays in the storage root. Whatever path a device sends, no file outside the root
  changes; and an accepted segment upload whose route is a plain name stores the body at
  \<open>base/dongle/route/segment/file\<close>, the only file that changes.\<close>

theorem upload_confined:
  assumes "upload_file ff qf race st now auth dongle path body w = (resp, w')"
    and "clean_path (st_cwd st)" and "st_base st \<noteq> []"
  shows "(\<forall>q. fs_files (uw_fs w') q \<noteq> fs_files (uw_fs w) q \<longrightarrow> strict_prefix (base_dir st) q)
    \<and> (resp = PutOk \<and> \<not> prefix ''boot/'' path \<and> plain dongle \<and> parse_upload_path path = Some (route, segment, file) \<and> plain route
      \<longrightarrow> fs_files (uw_fs w') (base_dir st @ [dongle, route, segment, file]) = Some body
        \<and> (\<forall>q. q \<noteq> base_dir st @ [dongle, route, segment, file] \<longrightarrow> fs_files (uw_fs w') q = fs_files (uw_fs w) q))"
proof (cases "uw_fs w' = uw_fs w \<and> resp \<noteq> PutOk")
  case False
  show ?thesis
  proof (cases "prefix ''boot/'' path")
    case True
    then obtain ident e where b: "write_boot_log ff st dongle ident body (uw_fs w) = (e, uw_fs w')"
      using assms(1) False by (auto simp: upload_file_def split: if_splits option.splits prod.splits)
    then have "\<forall>q. q \<noteq> base_dir st @ [dongle, ''boot'', ident @ ''.zst''] \<longrightarrow> fs_files (uw_fs w') q = fs_files (uw_fs w) q"
      using write_auxiliary_path [of ff st dongle "''boot''" ident "''.zst''" body "uw_fs w" e "uw_fs w'"] assms(3)
      by (simp add: write_boot_log_def plain_def slash_def)
    moreover have "strict_prefix (base_dir st) (base_dir st @ [dongle, ''boot'', ident @ ''.zst''])" by (simp add: strict_prefix_def)
    ultimately show ?thesis using True by metis
  next
    case False
    then obtain r sg f where parse: "parse_upload_path path = Some (r, sg, f)" and f: "f \<in> set valid_filenames"
      and up: "upload_segment_file ff qf race st now dongle r sg f body w = (resp, w')"
      using assms(1) \<open>\<not> (uw_fs w' = uw_fs w \<and> resp \<noteq> PutOk)\<close>
      by (auto simp: upload_file_def split: if_splits option.splits prod.splits)
    obtain e where st: "store ff st dongle r sg f body (uw_fs w) = (e, uw_fs w')" "resp = PutOk \<longleftrightarrow> e = None"
      using upload_segment_fs [OF up] by blast
    note within = store_within [OF assms(2,3) valid_plain [OF f] st(1)]
    have path: "file_path st dongle r sg f = base_dir st @ [dongle, r, sg, f]" if "plain dongle" "plain r"
      using that valid_plain [OF f] parse_upload_parts(2) [OF parse] assms(3)
        abs_join_below [of "st_base st" "[dongle, r, sg, f]"] by (simp add: file_path_def base_dir_def)
    show ?thesis using within path parse st store_ok_file by fastforce
  qed
qed auto

definition demo_upload_world :: upload_world where
  "demo_upload_world = \<lparr>uw_fs = empty_fs, uw_db = None\<rparr>"

lemma demo_storage_ok: "clean_path (st_cwd demo_storage)" "st_base demo_storage \<noteq> []"
  by (simp_all add: demo_storage_def plain_def slash_def)

theorem upload_confined_witness:
  "\<exists>resp w'. upload_file (\<lambda>_. False) (\<lambda>_. False) (\<lambda>d. d) demo_storage 0 ''dev'' ''dev'' ''../7/qlog'' ''x'' demo_upload_world = (resp, w')
     \<and> fs_files (uw_fs w') [''srv'', ''other''] = None"
proof -
  obtain resp w' where u: "upload_file (\<lambda>_. False) (\<lambda>_. False) (\<lambda>d. d) demo_storage 0 ''dev'' ''dev'' ''../7/qlog'' ''x'' demo_upload_world
      = (resp, w')" by fastforce
  have "\<not> strict_prefix (base_dir demo_storage) [''srv'', ''other'']" by (simp add: demo_base strict_prefix_def)
  then have "fs_files (uw_fs w') [''srv'', ''other''] = fs_files (uw_fs demo_upload_world) [''srv'', ''other'']"
    using upload_confined [OF u demo_storage_ok] by blast
  with u show ?thesis by (simp add: demo_upload_world_def empty_fs_def)
qed

text \<open>But it may leave the device's own directory. The route component is not checked, so a device
  that uploads to \<open>../7/qlog\<close> writes the directory of another.\<close>

theorem upload_leaves_device_dir:
  "\<exists>w'. upload_file (\<lambda>_. False) (\<lambda>_. False) (\<lambda>d. d) demo_storage 0 ''dev'' ''dev'' ''../7/qlog'' ''x'' demo_upload_world = (PutOk, w')
     \<and> fs_files (uw_fs w') (base_dir demo_storage @ [''7'', ''qlog'']) = Some ''x''"
proof -
  let ?d = "[''srv'', ''data'', ''7'']"
  have parse: "parse_upload_path ''../7/qlog'' = Some (''..'', ''7'', ''qlog'')"
    by (simp add: parse_upload_path_def slash_def parse_int_def parse_sign_def digit_val_def)
  have dir: "abs_join (st_cwd demo_storage) [st_base demo_storage, ''dev'', ''..'', ''7''] = ?d"
    and file_dir: "file_path demo_storage ''dev'' ''..'' ''7'' ''qlog'' = ?d @ [''qlog'']"
    and within: "within_base demo_storage ?d" by code_simp+
  have "mkdir_all ?d empty_fs = Some (empty_fs\<lparr>fs_dirs := {[]} \<union> set (prefixes ?d)\<rparr>)"
    by (simp add: mkdir_all_def empty_fs_def)
  then have "\<exists>s'. store (\<lambda>_. False) demo_storage ''dev'' ''..'' ''7'' ''qlog'' ''x'' empty_fs = (None, s')"
    unfolding store_def dir Let_def file_dir mkdir_and_write_def write_new_def
    using within by (simp add: create_file_def)
  then obtain s' where st: "store (\<lambda>_. False) demo_storage ''dev'' ''..'' ''7'' ''qlog'' ''x'' empty_fs = (None, s')" by blast
  have "upload_file (\<lambda>_. False) (\<lambda>_. False) (\<lambda>d. d) demo_storage 0 ''dev'' ''dev'' ''../7/qlog'' ''x'' demo_upload_world
      = (PutOk, demo_upload_world\<lparr>uw_fs := s'\<rparr>)"
    using st by (simp add: upload_file_def parse upload_segment_file_def demo_upload_world_def valid_filenames_def)
  then show ?thesis using store_ok_file [OF st] by (simp add: file_dir demo_base)
qed

section \<open>Tracking\<close>

definition flagged :: "upload_db \<Rightarrow> int \<Rightarrow> int \<Rightarrow> upload_flag \<Rightarrow> bool" where
  "flagged d i num fl \<longleftrightarrow> (\<exists>s \<in> set (ud_segments d). sg_route s = i \<and> sg_num s = num \<and> fl \<in> sg_flags s)"

lemma get_or_create_named:
  assumes "get_or_create_route flt race now dongle name d = (Inr r, d')"
  shows "r_dongle r = dongle \<and> r_name r = name \<and> get_route_row d' dongle name = Some r
    \<and> (ud_segments d' = ud_segments d \<or> ud_segments d' = ud_segments (race d))"
  using assms by (auto simp: get_or_create_route_def Let_def create_route_def get_route_row_def find_app
      dest: find_Some_mem split: if_splits option.splits prod.splits)

lemma create_segment_flagged [simp]: "flagged (create_segment i n d) j m fl = flagged d j m fl"
  by (auto simp: create_segment_def flagged_def)

lemma create_segment_exists: "\<exists>s \<in> set (ud_segments (create_segment i n d)). sg_route s = i \<and> sg_num s = n"
  by (auto simp: create_segment_def)

lemma update_flagged:
  assumes "\<exists>s \<in> set (ud_segments d). sg_route s = i \<and> sg_num s = n"
  shows "flagged (update_segment_upload i n fl d) j m f \<longleftrightarrow> flagged d j m f \<or> j = i \<and> m = n \<and> f = fl"
proof -
  have "flagged (update_segment_upload i n fl d) j m f \<longleftrightarrow>
      (\<exists>s \<in> set (ud_segments d). sg_route s = j \<and> sg_num s = m \<and> (f \<in> sg_flags s \<or> j = i \<and> m = n \<and> f = fl))"
  proof -
    have "ud_segments (update_segment_upload i n fl d)
        = map (\<lambda>s. if sg_route s = i \<and> sg_num s = n then s\<lparr>sg_flags := insert fl (sg_flags s)\<rparr> else s) (ud_segments d)"
      by (simp add: update_segment_upload_def)
    then show ?thesis unfolding flagged_def by (simp only: bex_map) (rule bex_cong, simp_all, auto)
  qed
  then show ?thesis using assms by (auto simp: flagged_def)
qed

lemma routes_after_segments [simp]:
  "get_route_row (create_segment i n d) = get_route_row d" "get_route_row (update_segment_upload i n fl d) = get_route_row d"
  by (simp_all add: get_route_row_def fun_eq_iff create_segment_def update_segment_upload_def)

text \<open>Tracking sets exactly one flag. After it succeeds the route row exists, the flag of the file's
  base type is set on the segment numbered by the low 32 bits, and every other flag of every
  segment is as it was, also when a concurrent upload created the route in between.\<close>

theorem tracking_exact:
  assumes "track_upload flt race now dongle name segment file d = (None, d')"
    and "ud_segments (race d) = ud_segments d" and "file \<in> set valid_filenames"
  shows "\<exists>r num fl. get_route_row d' dongle name = Some r \<and> parse_int 64 segment = Some num
    \<and> filename_to_flag file = Some fl
    \<and> (\<forall>j m f. flagged d' j m f \<longleftrightarrow> flagged d j m f \<or> j = r_id r \<and> m = to_int32 num \<and> f = fl)"
proof -
  obtain num where num: "parse_int 64 segment = Some num" using assms(1) by (auto simp: track_upload_def split: option.splits)
  obtain r d1 where g: "get_or_create_route flt race now dongle name d = (Inr r, d1)"
    using assms(1) num by (cases "get_or_create_route flt race now dongle name d") (auto simp: track_upload_def split: sum.splits)
  have same: "flagged d1 j m f = flagged d j m f" for j m f
    using get_or_create_named [OF g] assms(2) by (auto simp: flagged_def)
  obtain fl where fl: "filename_to_flag file = Some fl"
    using assms(3) by (auto simp: valid_filenames_def filename_to_flag_def filename_flags_def)
  have d': "d' = update_segment_upload (r_id r) (to_int32 num) fl (create_segment (r_id r) (to_int32 num) d1)"
    using assms(1) num g fl by (auto simp: track_upload_def Let_def split: if_splits)
  show ?thesis
    using num fl get_or_create_named [OF g] update_flagged [OF create_segment_exists]
    by (intro exI [of _ r] exI [of _ num] exI [of _ fl]) (simp add: d' same)
qed

definition demo_db :: upload_db where
  "demo_db = \<lparr>ud_routes = [], ud_segments = [], ud_next = 1\<rparr>"

lemma demo_track:
  assumes "parse_int 64 segment = Some num"
  shows "track_upload (\<lambda>_. False) (\<lambda>d. d) 0 ''dev'' ''r'' segment ''qlog.zst'' demo_db
    = (None, \<lparr>ud_routes = [\<lparr>r_id = 1, r_dongle = ''dev'', r_name = ''r'', r_start = None, r_end = None, r_created = 0, r_preserved = False\<rparr>],
        ud_segments = [\<lparr>sg_route = 1, sg_num = to_int32 num, sg_flags = {Qlog}\<rparr>], ud_next = 2\<rparr>)"
  using assms by (simp add: track_upload_def get_or_create_route_def demo_db_def get_route_row_def create_route_def
      create_segment_def filename_to_flag_def filename_flags_def update_segment_upload_def Let_def)

theorem tracking_exact_witness:
  "\<exists>i. flagged (snd (track_upload (\<lambda>_. False) (\<lambda>d. d) 0 ''dev'' ''r'' ''3'' ''qlog.zst'' demo_db)) i 3 Qlog"
proof -
  have three: "parse_int 64 ''3'' = Some 3" by (simp add: parse_int_def parse_sign_def digit_val_def)
  obtain d' where t: "track_upload (\<lambda>_. False) (\<lambda>d. d) 0 ''dev'' ''r'' ''3'' ''qlog.zst'' demo_db = (None, d')"
    using demo_track [OF three] by blast
  have "filename_to_flag ''qlog.zst'' = Some Qlog" by (simp add: filename_to_flag_def filename_flags_def)
  then show ?thesis
    using tracking_exact [OF t] t three by (auto simp: valid_filenames_def to_int32_def)
qed

text \<open>The segment number is cut to 32 bits only when it is tracked: an upload to segment 4294967296
  is stored under that name and flags segment 0.\<close>

theorem segment_number_wraps:
  "parse_upload_path ''r/4294967296/qlog.zst'' = Some (''r'', ''4294967296'', ''qlog.zst'')
   \<and> flagged (snd (track_upload (\<lambda>_. False) (\<lambda>d. d) 0 ''dev'' ''r'' ''4294967296'' ''qlog.zst'' demo_db)) 1 0 Qlog"
proof -
  have n: "parse_int 64 ''4294967296'' = Some 4294967296" by (simp add: parse_int_def parse_sign_def digit_val_def)
  show ?thesis
    by (simp add: demo_track [OF n] flagged_def to_int32_def parse_upload_path_def slash_def n)
qed

section \<open>Signatures\<close>

lemma newline_free: "CHR 0x0A \<notin> set (show_int i)"
  using show_int_chars [of "CHR 0x0A" i] by (auto simp: digit_val_def Let_def)

lemma rev_append_sep:
  "xs @ c # ys = xs' @ c # ys' \<Longrightarrow> c \<notin> set ys \<Longrightarrow> c \<notin> set ys' \<Longrightarrow> xs = xs' \<and> ys = ys'"
proof (induction xs arbitrary: xs')
  case Nil
  then show ?case by (cases xs') auto
next
  case (Cons x xs)
  then show ?case by (cases xs') auto
qed

lemma show_int_inject: "show_int i = show_int j \<Longrightarrow> - (2 ^ 63) \<le> i \<Longrightarrow> i < 2 ^ 63 \<Longrightarrow> - (2 ^ 63) \<le> j \<Longrightarrow> j < 2 ^ 63 \<Longrightarrow> i = j"
proof -
  have "parse_int 64 (show_int k) = Some k" if "- (2 ^ 63) \<le> k" "k < 2 ^ 63" for k
    using that by (intro parse_show_int) simp_all
  then show "show_int i = show_int j \<Longrightarrow> - (2 ^ 63) \<le> i \<Longrightarrow> i < 2 ^ 63 \<Longrightarrow> - (2 ^ 63) \<le> j \<Longrightarrow> j < 2 ^ 63 \<Longrightarrow> i = j"
    by (metis option.inject)
qed

lemma payload_inject:
  assumes "upload_sig_payload p (time_to_unix t) = upload_sig_payload q (time_to_unix u)"
  shows "p = q \<and> time_to_unix t = time_to_unix u"
proof -
  have "p = q" and "show_int (time_to_unix t) = show_int (time_to_unix u)"
    using assms rev_append_sep [OF _ newline_free newline_free] unfolding upload_sig_payload_def by auto
  then show ?thesis
    using show_int_inject to_int64_bounds unfolding time_to_unix_def by blast
qed

lemma own_signature_valid:
  assumes "secret \<noteq> []" and "unix_range t" and "sign_upload_path mac secret path t \<noteq> []" and "now \<le> t div second * second"
  shows "verify_upload_signature_at mac secret path (show_int (t div second)) (sign_upload_path mac secret path t) now"
proof -
  have range: "- (2 ^ 63) \<le> t div second" "t div second < 2 ^ 63" using assms(2) by (simp_all add: unix_range_def)
  then have "parse_int 64 (show_int (t div second)) = Some (t div second)" by (intro parse_show_int) simp_all
  moreover have again: "unix_to_time (t div second) = t div second * second"
    using unix_roundtrip [OF assms(2)] time_to_unix_range [OF assms(2)] by simp
  moreover have "sign_upload_path mac secret path (unix_to_time (t div second)) = sign_upload_path mac secret path t"
    using time_to_unix_range [OF assms(2)] range again by (simp add: sign_upload_path_def time_to_unix_def to_int64_id second_def)
  moreover have "show_int (t div second) \<noteq> []" by (simp add: show_int_def)
  ultimately show ?thesis
    using assms by (simp add: verify_upload_signature_at_def) (simp add: sign_upload_path_def b64.roundtrip)
qed

text \<open>A signed upload URL is good for its path and its expiry only. The signature minted for a path
  and an expiry passes the middleware for no other path, and for no expiry that reads as another
  time; and it does pass for its own until then.\<close>

theorem upload_signature_binds:
  assumes "\<And>m m'. mac secret m = mac secret m' \<Longrightarrow> m = m'" and "secret \<noteq> []" and "unix_range t"
    and "sign_upload_path mac secret path t \<noteq> []"
  shows "(verify_upload_signature_at mac secret path' expp (sign_upload_path mac secret path t) now \<longrightarrow>
        path' = path \<and> (\<exists>e. parse_int 64 expp = Some e \<and> time_to_unix (unix_to_time e) = t div second \<and> now \<le> unix_to_time e))
    \<and> (now \<le> t div second * second \<longrightarrow>
        verify_upload_signature_at mac secret path (show_int (t div second)) (sign_upload_path mac secret path t) now)"
proof (intro conjI impI)
  assume "verify_upload_signature_at mac secret path' expp (sign_upload_path mac secret path t) now"
  then obtain e where e: "parse_int 64 expp = Some e" "now \<le> unix_to_time e"
    and "mac secret (upload_sig_payload path' (time_to_unix (unix_to_time e))) = mac secret (upload_sig_payload path (time_to_unix t))"
    by (auto simp: verify_upload_signature_at_def sign_upload_path_def b64.roundtrip split: if_splits option.splits)
  with payload_inject assms(1) time_to_unix_range [OF assms(3)]
  show "path' = path" and "\<exists>e. parse_int 64 expp = Some e \<and> time_to_unix (unix_to_time e) = t div second \<and> now \<le> unix_to_time e"
    by metis+
qed (use own_signature_valid assms in blast)

theorem upload_signature_binds_witness:
  "\<not> verify_upload_signature_at (\<lambda>s m. s @ m) ''key'' ''/upload/dev/r/1/qlog'' ''1000''
     (sign_upload_path (\<lambda>s m. s @ m) ''key'' ''/upload/dev/r/0/qlog'' (1000 * second)) 0"
proof -
  have "sign_upload_path (\<lambda>s m. s @ m) ''key'' ''/upload/dev/r/0/qlog'' (1000 * second) \<noteq> []"
    unfolding sign_upload_path_def by (simp add: upload_sig_payload_def)
  from upload_signature_binds [where mac = "\<lambda>s m. s @ m", OF _ _ demo_unix(2) this] show ?thesis by auto
qed

end
