(* ===== verification/Share.thy ===== *)
theory Share imports Upload Settings begin

text \<open>
  The public share links of \<open>internal/api/share.go\<close>: minting a token for a route, verifying it on
  the public endpoints, and streaming the whitelisted files of exactly that route from the
  storage directory, with the redaction gate. The build that a cache miss starts is an
  effect recorded in the response. Geometry, segments and content types are left out.
\<close>

section \<open>State and responses\<close>

record share_world =
  sh_routes :: "route list"
  sh_fs :: fs
  sh_settings :: "settings_db option"
  sh_storage :: storage
  sh_secret :: string

datatype share_resp =
  ShareErr nat string
| Preparing "(string \<times> string) option"
| Served string

datatype share_query = SqRouteById | SqRoute

section \<open>Parameters of the URL\<close>

definition parse_segment_number :: "string \<Rightarrow> int option" where
  "parse_segment_number s =
     (case parse_int 64 s of None \<Rightarrow> None | Some n \<Rightarrow> if n < 0 \<or> 9999 < n then None else Some n)"

definition share_media_files :: "(string \<times> bool) list" where
  "share_media_files =
     [(''index.m3u8'', True), (''qcamera.ts'', True), (''fcamera.hevc'', False), (''ecamera.hevc'', False),
      (''dcamera.hevc'', False), (''rlog'', False), (''rlog.bz2'', False), (''rlog.zst'', False), (''qlog'', False),
      (''qlog.bz2'', False), (''qlog.zst'', False)]"

definition is_allowed_share_media_file :: "string \<Rightarrow> bool" where
  "is_allowed_share_media_file name = (case map_of share_media_files name of None \<Rightarrow> False | Some b \<Rightarrow> b)"

definition share_media_camera_dirs :: "string list" where
  "share_media_camera_dirs = [''fcamera'', ''ecamera'', ''dcamera'', ''qcamera'']"

definition is_allowed_hls_file :: "string \<Rightarrow> bool" where
  "is_allowed_hls_file name =
     (if name = [] \<or> slash \<in> set name \<or> CHR 0x5C \<in> set name then False
      else if name = ''..'' \<or> sublist ''..'' name then False
      else if name = ''index.m3u8'' then True
      else suffix ''.ts'' name)"

section \<open>Tokens\<close>

definition consume_token_full ::
  "mac \<Rightarrow> unmarshal \<Rightarrow> gotime \<Rightarrow> share_world \<Rightarrow> string \<Rightarrow> (nat \<times> string) + (int \<times> gotime \<times> bool)" where
  "consume_token_full mac um now w tok =
     (if sh_secret w = [] then Inl (501, ''share links are disabled: SESSION_SECRET is not configured'')
      else (case parse_share_token mac um (sh_secret w) tok now of
              Inl ShareExpired \<Rightarrow> Inl (410, ''share link has expired'')
            | Inl _ \<Rightarrow> Inl (401, ''invalid share token'')
            | Inr p \<Rightarrow> Inr p))"

definition route_by_id :: "(share_query \<Rightarrow> bool) \<Rightarrow> share_world \<Rightarrow> int \<Rightarrow> (nat \<times> string) + route" where
  "route_by_id flt w i =
     (if flt SqRouteById then Inl (500, ''failed to retrieve route'')
      else (case find (\<lambda>r. r_id r = i) (sh_routes w) of
              None \<Rightarrow> Inl (404, ''route not found'') | Some r \<Rightarrow> Inr r))"

definition share_alpr_enabled :: "(setting_query \<Rightarrow> bool) \<Rightarrow> share_world \<Rightarrow> bool" where
  "share_alpr_enabled sf w =
     (case sh_settings w of
        None \<Rightarrow> False
      | Some d \<Rightarrow> (case bool_or sf ''alpr_enabled'' False d of (v, None) \<Rightarrow> v | (_, Some _) \<Rightarrow> False))"

section \<open>Minting\<close>

datatype create_resp = CreateErr nat string | Created string gotime bool

text \<open>The body: \<open>None\<close> when binding fails, otherwise the hours and the optional flag.\<close>

definition clamp_hours :: "int \<Rightarrow> int" where
  "clamp_hours h = (let h1 = (if h \<le> 0 then 72 else h) in if 720 < h1 then 720 else h1)"

definition create_share ::
  "mac \<Rightarrow> (share_query \<Rightarrow> bool) \<Rightarrow> gotime \<Rightarrow> auth_ctx \<Rightarrow> string \<Rightarrow> string \<Rightarrow> (int \<times> bool option) option \<Rightarrow> share_world
     \<Rightarrow> create_resp" where
  "create_share mac flt now c dongle name body w =
     (if sh_secret w = [] then CreateErr 501 ''share links are disabled: SESSION_SECRET is not configured''
      else if \<not> check_dongle_access c dongle then CreateErr 403 ''dongle_id does not match authenticated device''
      else
        (case body of
           None \<Rightarrow> CreateErr 400 ''failed to parse request body''
         | Some (h, flag) \<Rightarrow>
             (let e = now + clamp_hours h * hour; redact = (case flag of None \<Rightarrow> True | Some b \<Rightarrow> b) in
              if flt SqRoute then CreateErr 500 ''failed to retrieve route''
              else
                (case find (\<lambda>r. r_dongle r = dongle \<and> r_name r = name) (sh_routes w) of
                   None \<Rightarrow> CreateErr 404 ''route not found''
                 | Some r \<Rightarrow>
                     (case sign_share mac (sh_secret w) (r_id r) e redact of
                        Inl _ \<Rightarrow> CreateErr 500 ''failed to sign share token''
                      | Inr tok \<Rightarrow> Created tok e redact)))))"

section \<open>Streaming\<close>

text \<open>\<open>stat_fails\<close> names the paths whose \<open>Stat\<close> fails for another reason than absence.\<close>

definition serve_share_file :: "(string list \<Rightarrow> bool) \<Rightarrow> share_world \<Rightarrow> string list \<Rightarrow> share_resp" where
  "serve_share_file stat_fails w p =
     (if stat_fails p then ShareErr 500 ''failed to stat file''
      else if p \<in> fs_dirs (sh_fs w) then ShareErr 404 ''file not found''
      else (case fs_files (sh_fs w) p of None \<Rightarrow> ShareErr 404 ''file not found'' | Some b \<Rightarrow> Served b))"

definition seg_path :: "share_world \<Rightarrow> route \<Rightarrow> int \<Rightarrow> string list \<Rightarrow> string list" where
  "seg_path w r n xs = abs_join (st_cwd (sh_storage w)) ([st_base (sh_storage w), r_dongle r, r_name r, show_int n] @ xs)"

definition get_share_media ::
  "mac \<Rightarrow> unmarshal \<Rightarrow> (share_query \<Rightarrow> bool) \<Rightarrow> (setting_query \<Rightarrow> bool) \<Rightarrow> (string list \<Rightarrow> bool) \<Rightarrow> gotime
     \<Rightarrow> string \<Rightarrow> string \<Rightarrow> string \<Rightarrow> share_world \<Rightarrow> share_resp" where
  "get_share_media mac um flt sf stat_fails now tok seg name w =
     (case consume_token_full mac um now w tok of
        Inl (st, msg) \<Rightarrow> ShareErr st msg
      | Inr (rid, e, redact) \<Rightarrow>
          (case parse_segment_number seg of
             None \<Rightarrow> ShareErr 400 ''invalid segment_num''
           | Some n \<Rightarrow>
               if \<not> is_allowed_share_media_file name then ShareErr 404 ''file not found''
               else if redact \<and> name = ''qcamera.ts'' \<and> share_alpr_enabled sf w then ShareErr 404 ''file not found''
               else (case route_by_id flt w rid of
                       Inl (st, msg) \<Rightarrow> ShareErr st msg
                     | Inr r \<Rightarrow> serve_share_file stat_fails w (seg_path w r n [name]))))"

definition get_share_camera_media ::
  "mac \<Rightarrow> unmarshal \<Rightarrow> (share_query \<Rightarrow> bool) \<Rightarrow> (setting_query \<Rightarrow> bool) \<Rightarrow> (string list \<Rightarrow> bool) \<Rightarrow> bool \<Rightarrow> gotime
     \<Rightarrow> string \<Rightarrow> string \<Rightarrow> string \<Rightarrow> string \<Rightarrow> share_world \<Rightarrow> share_resp" where
  "get_share_camera_media mac um flt sf stat_fails trigger now tok seg camera name w =
     (case consume_token_full mac um now w tok of
        Inl (st, msg) \<Rightarrow> ShareErr st msg
      | Inr (rid, e, redact) \<Rightarrow>
          (case parse_segment_number seg of
             None \<Rightarrow> ShareErr 400 ''invalid segment_num''
           | Some n \<Rightarrow>
               if camera \<notin> set share_media_camera_dirs then ShareErr 404 ''file not found''
               else if \<not> is_allowed_hls_file name then ShareErr 404 ''file not found''
               else
                 (case route_by_id flt w rid of
                    Inl (st, msg) \<Rightarrow> ShareErr st msg
                  | Inr r \<Rightarrow>
                      if redact \<and> camera = ''qcamera'' \<and> share_alpr_enabled sf w
                      then (let p = seg_path w r n [''qcamera-redacted'', name] in
                            if \<not> stat_fails p \<and> (p \<in> fs_dirs (sh_fs w) \<or> fs_files (sh_fs w) p \<noteq> None)
                            then serve_share_file stat_fails w p
                            else Preparing (if trigger then Some (r_dongle r, r_name r) else None))
                      else serve_share_file stat_fails w (seg_path w r n [camera, name]))))"

section \<open>Lemmas\<close>

lemma consume_ok_iff:
  "consume_token_full mac um now w tok = Inr p \<longleftrightarrow>
     sh_secret w \<noteq> [] \<and> parse_share_token mac um (sh_secret w) tok now = Inr p"
  by (auto simp: consume_token_full_def split: sum.splits share_error.splits)

lemma route_by_id_ok: "route_by_id flt w i = Inr r \<Longrightarrow> r \<in> set (sh_routes w) \<and> r_id r = i"
  by (auto simp: route_by_id_def dest: find_Some_mem split: if_splits option.splits)

lemma served_file: "serve_share_file sf w p = Served b \<Longrightarrow> fs_files (sh_fs w) p = Some b"
  by (auto simp: serve_share_file_def split: if_splits option.splits)

text \<open>What either endpoint served, and from where.\<close>

definition media_reply where
  "media_reply mac um flt sf stat_fails trigger now tok seg cam name w =
     (case cam of None \<Rightarrow> get_share_media mac um flt sf stat_fails now tok seg name w
      | Some camera \<Rightarrow> get_share_camera_media mac um flt sf stat_fails trigger now tok seg camera name w)"

lemma media_served:
  assumes "media_reply mac um flt sf stat_fails trigger now tok seg cam name w = Served b"
  shows "\<exists>rid e redact n r dir. parse_share_token mac um (sh_secret w) tok now = Inr (rid, e, redact)
    \<and> parse_segment_number seg = Some n \<and> r \<in> set (sh_routes w) \<and> r_id r = rid
    \<and> fs_files (sh_fs w) (seg_path w r n (dir @ [name])) = Some b
    \<and> (case cam of
         None \<Rightarrow> dir = [] \<and> is_allowed_share_media_file name \<and> \<not> (redact \<and> name = ''qcamera.ts'' \<and> share_alpr_enabled sf w)
       | Some camera \<Rightarrow> camera \<in> set share_media_camera_dirs \<and> is_allowed_hls_file name
           \<and> dir = (if redact \<and> camera = ''qcamera'' \<and> share_alpr_enabled sf w then [''qcamera-redacted''] else [camera]))"
proof (cases cam)
  case None
  then obtain rid e redact n r where "consume_token_full mac um now w tok = Inr (rid, e, redact)"
      "parse_segment_number seg = Some n" "is_allowed_share_media_file name"
      "\<not> (redact \<and> name = ''qcamera.ts'' \<and> share_alpr_enabled sf w)" "route_by_id flt w rid = Inr r"
      "serve_share_file stat_fails w (seg_path w r n [name]) = Served b"
    using assms by (auto simp: media_reply_def get_share_media_def split: sum.splits option.splits if_splits)
  then show ?thesis using None route_by_id_ok [of flt w rid r] served_file
    by (intro exI [of _ rid] exI [of _ e] exI [of _ redact] exI [of _ n] exI [of _ r] exI [of _ "[]"]) (simp add: consume_ok_iff)
next
  case (Some camera)
  then obtain rid e redact n r where c: "consume_token_full mac um now w tok = Inr (rid, e, redact)"
      "parse_segment_number seg = Some n" "camera \<in> set share_media_camera_dirs" "is_allowed_hls_file name"
      "route_by_id flt w rid = Inr r"
      "serve_share_file stat_fails w (seg_path w r n
         [if redact \<and> camera = ''qcamera'' \<and> share_alpr_enabled sf w then ''qcamera-redacted'' else camera, name]) = Served b"
    using assms by (auto simp: media_reply_def get_share_camera_media_def Let_def split: sum.splits option.splits if_splits)
  then show ?thesis using Some route_by_id_ok [of flt w rid r] served_file [OF c(6)]
    by (intro exI [of _ rid] exI [of _ e] exI [of _ redact] exI [of _ n] exI [of _ r]
        exI [of _ "[if redact \<and> camera = ''qcamera'' \<and> share_alpr_enabled sf w then ''qcamera-redacted'' else camera]"])
      (simp add: consume_ok_iff)
qed

lemma hls_plain: "is_allowed_hls_file name \<Longrightarrow> plain name"
  by (auto simp: is_allowed_hls_file_def plain_def suffix_def split: if_splits)

lemma media_file_cases: "is_allowed_share_media_file name \<Longrightarrow> name = ''index.m3u8'' \<or> name = ''qcamera.ts''"
  by (auto simp: is_allowed_share_media_file_def share_media_files_def split: option.splits if_splits)

lemma segment_number_plain:
  assumes "parse_segment_number seg = Some n"
  shows "plain (show_int n)"
proof -
  have "0 \<le> n" and "n \<le> 9999" using assms by (auto simp: parse_segment_number_def split: option.splits if_splits)
  then have "parse_int 64 (show_int n) = Some n" by (intro parse_show_int) simp_all
  then show ?thesis by (rule parse_int_plain)
qed

definition share_root :: "share_world \<Rightarrow> route \<Rightarrow> int \<Rightarrow> string list" where
  "share_root w r n = base_dir (sh_storage w) @ [r_dongle r, r_name r, show_int n]"

lemma seg_path_plain:
  assumes "st_base (sh_storage w) \<noteq> []" and "plain (r_dongle r)" and "plain (r_name r)" and "plain (show_int n)"
    and "\<forall>x \<in> set xs. plain x"
  shows "seg_path w r n xs = share_root w r n @ xs"
  using assms abs_join_below [of "st_base (sh_storage w)" "[r_dongle r, r_name r, show_int n] @ xs"]
  by (simp add: seg_path_def share_root_def base_dir_def)

section \<open>Properties\<close>

text \<open>C19: a share link opens one route. Whatever a holder asks for, content comes only with a token that
  verifies, and then from a whitelisted playlist or transport-stream file of the very route the
  token names, in one of its segment directories.\<close>

theorem share_scope:
  assumes "media_reply mac um flt sf stat_fails trigger now tok seg cam name w = Served b"
    and "st_base (sh_storage w) \<noteq> []" and "\<forall>r \<in> set (sh_routes w). plain (r_dongle r) \<and> plain (r_name r)"
  shows "\<exists>rid e redact r n rest. parse_share_token mac um (sh_secret w) tok now = Inr (rid, e, redact)
    \<and> r \<in> set (sh_routes w) \<and> r_id r = rid \<and> 0 \<le> n \<and> n \<le> 9999
    \<and> fs_files (sh_fs w) (share_root w r n @ rest) = Some b
    \<and> (rest = [''index.m3u8''] \<or> rest = [''qcamera.ts'']
       \<or> (\<exists>dir. rest = [dir, name] \<and> (dir \<in> set share_media_camera_dirs \<or> dir = ''qcamera-redacted'')
            \<and> (name = ''index.m3u8'' \<or> suffix ''.ts'' name)))"
proof -
  obtain rid e redact n r dir where m: "parse_share_token mac um (sh_secret w) tok now = Inr (rid, e, redact)"
      "parse_segment_number seg = Some n" "r \<in> set (sh_routes w)" "r_id r = rid"
      "fs_files (sh_fs w) (seg_path w r n (dir @ [name])) = Some b"
    and c: "case cam of
         None \<Rightarrow> dir = [] \<and> is_allowed_share_media_file name \<and> \<not> (redact \<and> name = ''qcamera.ts'' \<and> share_alpr_enabled sf w)
       | Some camera \<Rightarrow> camera \<in> set share_media_camera_dirs \<and> is_allowed_hls_file name
           \<and> dir = (if redact \<and> camera = ''qcamera'' \<and> share_alpr_enabled sf w then [''qcamera-redacted''] else [camera])"
    using media_served [OF assms(1)] by blast
  have n: "0 \<le> n" "n \<le> 9999" using m(2) by (auto simp: parse_segment_number_def split: option.splits if_splits)
  have rest: "dir @ [name] = [''index.m3u8''] \<or> dir @ [name] = [''qcamera.ts'']
       \<or> (\<exists>d. dir @ [name] = [d, name] \<and> (d \<in> set share_media_camera_dirs \<or> d = ''qcamera-redacted'')
            \<and> (name = ''index.m3u8'' \<or> suffix ''.ts'' name))"
    using c by (cases cam) (auto simp: is_allowed_hls_file_def dest: media_file_cases split: if_splits)
  have "\<forall>x \<in> set (dir @ [name]). plain x"
    using c by (cases cam) (auto simp: share_media_camera_dirs_def plain_def slash_def hls_plain [unfolded plain_def slash_def]
        dest: media_file_cases split: if_splits)
  then have "seg_path w r n (dir @ [name]) = share_root w r n @ dir @ [name]"
    using assms(2,3) m(3) segment_number_plain [OF m(2)] by (intro seg_path_plain) auto
  with m n rest show ?thesis by (metis append.assoc)
qed

definition demo_mac :: mac where
  "demo_mac s m = s @ m"

definition demo_token :: string where
  "demo_token = (case sign_share demo_mac ''key'' 5 (1000 * second) True of Inl _ \<Rightarrow> [] | Inr t \<Rightarrow> t)"

definition demo_share :: share_world where
  "demo_share = \<lparr>sh_routes = [\<lparr>r_id = 5, r_dongle = ''dev'', r_name = ''r'', r_start = None, r_end = None, r_created = 0, r_preserved = False\<rparr>],
     sh_fs = \<lparr>fs_files = [[''srv'', ''data'', ''dev'', ''r'', ''0'', ''qcamera.ts''] \<mapsto> ''raw'',
        [''srv'', ''data'', ''dev'', ''r'', ''0'', ''qcamera-redacted'', ''index.m3u8''] \<mapsto> ''blurred''], fs_dirs = {}\<rparr>,
     sh_settings = Some [''alpr_enabled'' \<mapsto> ''true''], sh_storage = demo_storage, sh_secret = ''key''\<rparr>"

lemma demo_token_parses: "parse_share_token demo_mac demo_unmarshal ''key'' demo_token (900 * second) = Inr (5, 1000 * second, True)"
proof -
  obtain tok where tok: "sign_share demo_mac ''key'' 5 (1000 * second) True = Inr tok"
    by (simp add: sign_share_def Let_def)
  have um: "demo_unmarshal (marshal_share \<lparr>sp_route = 5, sp_exp = time_to_unix (1000 * second), sp_redact = True\<rparr>)
      = Some \<lparr>sp_route = 5, sp_exp = time_to_unix (1000 * second), sp_redact = True\<rparr>"
    by (simp add: demo_unmarshal_def demo_unix)
  have "parse_share_token demo_mac demo_unmarshal ''key'' tok (900 * second) = Inr (5, 1000 * second, True)"
    unfolding parse_share_token_def parse_signed_share [where unmarshal = demo_unmarshal, OF tok um] using demo_unix
    by (simp add: check_share_payload_def unix_to_time_def to_int64_def second_def)
  then show ?thesis by (simp add: demo_token_def tok)
qed

lemma demo_seg_path:
  assumes "\<forall>x \<in> set xs. plain x"
  shows "seg_path demo_share (hd (sh_routes demo_share)) 0 xs = [''srv'', ''data'', ''dev'', ''r'', ''0''] @ xs"
proof -
  have "show_int 0 = ''0''" by code_simp
  then show ?thesis
    using seg_path_plain [of demo_share "hd (sh_routes demo_share)" 0 xs] assms
    using demo_base by (simp add: demo_share_def share_root_def demo_storage_def plain_def slash_def)
qed

text \<open>The requests with a redacting token, and a settings read that may fail.\<close>

lemma demo_segment: "parse_segment_number ''0'' = Some 0"
  by (simp add: parse_segment_number_def parse_int_def parse_sign_def digit_val_def)

lemma demo_consume: "consume_token_full demo_mac demo_unmarshal (900 * second) demo_share demo_token = Inr (5, 1000 * second, True)"
  using demo_token_parses by (simp add: consume_ok_iff demo_share_def)

lemma demo_route_row: "route_by_id (\<lambda>_. False) demo_share 5 = Inr (hd (sh_routes demo_share))"
  by (simp add: route_by_id_def demo_share_def)

lemma demo_alpr: "get_bool_setting (\<lambda>_. False) ''alpr_enabled'' [''alpr_enabled'' \<mapsto> ''true''] = Inr True"
  by (simp add: get_bool_setting_def get_setting_def db_get_setting_def parse_bool_def)

lemma demo_alpr_on: "share_alpr_enabled (\<lambda>_. False) demo_share"
  by (simp add: share_alpr_enabled_def demo_share_def bool_or_def or_default_def demo_alpr)

lemma demo_stream:
  "media_reply demo_mac demo_unmarshal (\<lambda>_. False) (\<lambda>_. False) (\<lambda>_. False) False (900 * second) demo_token ''0'' (Some ''qcamera'')
     ''index.m3u8'' demo_share = Served ''blurred''"
proof -
  have p: "seg_path demo_share (hd (sh_routes demo_share)) 0 [''qcamera-redacted'', ''index.m3u8'']
      = [''srv'', ''data'', ''dev'', ''r'', ''0'', ''qcamera-redacted'', ''index.m3u8'']"
    by (subst demo_seg_path) (simp_all add: plain_def slash_def)
  have serve: "serve_share_file (\<lambda>_. False) demo_share [''srv'', ''data'', ''dev'', ''r'', ''0'', ''qcamera-redacted'', ''index.m3u8'']
      = Served ''blurred''" by (simp add: serve_share_file_def demo_share_def)
  have "fs_files (sh_fs demo_share) [''srv'', ''data'', ''dev'', ''r'', ''0'', ''qcamera-redacted'', ''index.m3u8''] \<noteq> None"
    by (simp add: demo_share_def)
  moreover have "is_allowed_hls_file ''index.m3u8''" by code_simp
  ultimately show ?thesis
    by (simp add: media_reply_def get_share_camera_media_def demo_consume demo_segment demo_route_row p serve demo_alpr_on
        share_media_camera_dirs_def Let_def)
qed

lemma demo_preview:
  "media_reply demo_mac demo_unmarshal (\<lambda>_. False) sf (\<lambda>_. False) False (900 * second) demo_token ''0'' None ''qcamera.ts'' demo_share
     = (if share_alpr_enabled sf demo_share then ShareErr 404 ''file not found'' else Served ''raw'')"
proof -
  have p: "seg_path demo_share (hd (sh_routes demo_share)) 0 [''qcamera.ts''] = [''srv'', ''data'', ''dev'', ''r'', ''0'', ''qcamera.ts'']"
    by (subst demo_seg_path) (simp_all add: plain_def slash_def)
  have serve: "serve_share_file (\<lambda>_. False) demo_share [''srv'', ''data'', ''dev'', ''r'', ''0'', ''qcamera.ts''] = Served ''raw''"
    by (simp add: serve_share_file_def demo_share_def)
  show ?thesis
    by (simp add: media_reply_def get_share_media_def demo_consume demo_segment demo_route_row p serve is_allowed_share_media_file_def
        share_media_files_def)
qed

lemma alpr_read_fails: "share_alpr_enabled (\<lambda>_. True) w = False"
  by (auto simp: share_alpr_enabled_def bool_or_def or_default_def get_bool_setting_def get_setting_def split: option.splits)

theorem share_scope_witness:
  "\<exists>n rest. fs_files (sh_fs demo_share) (share_root demo_share (hd (sh_routes demo_share)) n @ rest) = Some ''raw''"
proof -
  have "media_reply demo_mac demo_unmarshal (\<lambda>_. False) (\<lambda>_. True) (\<lambda>_. False) False (900 * second) demo_token ''0'' None ''qcamera.ts''
      demo_share = Served ''raw''" by (simp add: demo_preview alpr_read_fails)
  moreover have "st_base (sh_storage demo_share) \<noteq> []"
    and "\<forall>r \<in> set (sh_routes demo_share). plain (r_dongle r) \<and> plain (r_name r)"
    by (simp_all add: demo_share_def demo_storage_def plain_def slash_def)
  ultimately obtain r n rest where "r \<in> set (sh_routes demo_share)"
      and "fs_files (sh_fs demo_share) (share_root demo_share r n @ rest) = Some ''raw''"
    using share_scope by blast
  moreover from this(1) have "r = hd (sh_routes demo_share)" by (simp add: demo_share_def)
  ultimately show ?thesis by blast
qed



text \<open>The gate fails open. With the same redacting token and ALPR enabled, a settings read that
  fails makes the endpoint serve the unredacted preview.\<close>

theorem share_redaction_fails_open:
  "media_reply demo_mac demo_unmarshal (\<lambda>_. False) (\<lambda>_. False) (\<lambda>_. False) False (900 * second) demo_token ''0'' None ''qcamera.ts'' demo_share
     = ShareErr 404 ''file not found''
   \<and> media_reply demo_mac demo_unmarshal (\<lambda>_. False) (\<lambda>_. True) (\<lambda>_. False) False (900 * second) demo_token ''0'' None ''qcamera.ts'' demo_share
     = Served ''raw''"
  by (simp add: demo_preview alpr_read_fails demo_alpr_on)

end
