(* ===== verification/Hub.thy ===== *)
theory Hub imports Codec begin

text \<open>
  The device connections of \<open>internal/ws\<close>: the hub (\<open>hub.go\<close>), the outgoing calls and their
  correlation (\<open>methods.go\<close>, \<open>RPCCaller\<close>), the JSON-RPC envelope (\<open>rpc.go\<close>) and a client's message
  handling (\<open>client.go\<close>). Critical sections are the steps of two transition systems, because
  the goroutines interleave between them. JSON decoding is a parameter; metrics are left out.
\<close>

section \<open>The hub\<close>

text \<open>
  A client is a number; \<open>dongle c\<close> is the device it was authenticated as. \<open>h_evicted\<close> holds the
  clients a registration has replaced but not closed yet, \<open>h_left\<close> those whose read loop ended.
\<close>

type_synonym client = nat

type_synonym clients = "string \<Rightarrow> client option"

definition get_client :: "clients \<Rightarrow> string \<Rightarrow> client option" where
  "get_client m d = m d"

definition put_client :: "string \<Rightarrow> client \<Rightarrow> clients \<Rightarrow> clients" where
  "put_client d c m = m(d \<mapsto> c)"

definition del_client :: "string \<Rightarrow> clients \<Rightarrow> clients" where
  "del_client d m = m(d := None)"

interpretation hub_map: keyed_store_del get_client put_client del_client
  by unfold_locales (simp_all add: get_client_def put_client_def del_client_def)

record hub =
  h_clients :: clients
  h_known :: "client set"
  h_evicted :: "client set"
  h_left :: "client set"
  h_closed :: "client set"

text \<open>The critical section of \<open>Register\<close>; the replaced client is closed after it.\<close>

definition register :: "(client \<Rightarrow> string) \<Rightarrow> client \<Rightarrow> hub \<Rightarrow> hub" where
  "register dongle c h =
     h\<lparr>h_clients := put_client (dongle c) c (h_clients h), h_known := insert c (h_known h),
       h_evicted := (case get_client (h_clients h) (dongle c) of None \<Rightarrow> h_evicted h | Some old \<Rightarrow> insert old (h_evicted h))\<rparr>"

definition close_client :: "client \<Rightarrow> hub \<Rightarrow> hub" where
  "close_client c h = h\<lparr>h_closed := insert c (h_closed h)\<rparr>"

definition unregister :: "(client \<Rightarrow> string) \<Rightarrow> client \<Rightarrow> hub \<Rightarrow> hub" where
  "unregister dongle c h =
     (let h1 = h\<lparr>h_left := insert c (h_left h)\<rparr> in
      if get_client (h_clients h) (dongle c) = Some c then h1\<lparr>h_clients := del_client (dongle c) (h_clients h)\<rparr> else h1)"

definition hub_start :: "hub \<Rightarrow> bool" where
  "hub_start h \<longleftrightarrow> h = \<lparr>h_clients = (\<lambda>_. None), h_known = {}, h_evicted = {}, h_left = {}, h_closed = {}\<rparr>"

inductive hub_step :: "(client \<Rightarrow> string) \<Rightarrow> hub \<Rightarrow> hub \<Rightarrow> bool" for dongle :: "client \<Rightarrow> string" where
  hub_register: "c \<notin> h_known h \<Longrightarrow> hub_step dongle h (register dongle c h)"
| hub_close: "c \<in> h_known h \<Longrightarrow> hub_step dongle h (close_client c h)"
| hub_unregister: "c \<in> h_known h \<Longrightarrow> hub_step dongle h (unregister dongle c h)"

definition hub_inv :: "(client \<Rightarrow> string) \<Rightarrow> hub \<Rightarrow> bool" where
  "hub_inv dongle h \<longleftrightarrow>
     (\<forall>d c. get_client (h_clients h) d = Some c \<longrightarrow> dongle c = d \<and> c \<in> h_known h)
   \<and> (\<forall>c \<in> h_known h. get_client (h_clients h) (dongle c) = Some c \<or> c \<in> h_evicted h \<or> c \<in> h_left h)
   \<and> h_evicted h \<subseteq> h_known h"

lemma register_frames [frame_simps]:
  "get_client (h_clients (register dongle c h)) d = (if d = dongle c then Some c else get_client (h_clients h) d)"
  "h_known (register dongle c h) = insert c (h_known h)" "h_left (register dongle c h) = h_left h"
  "h_closed (register dongle c h) = h_closed h"
  "x \<in> h_evicted (register dongle c h) \<longleftrightarrow> x \<in> h_evicted h \<or> get_client (h_clients h) (dongle c) = Some x"
  by (auto simp: register_def hub_map.look_put split: option.splits)

lemma unregister_frames [frame_simps]:
  "get_client (h_clients (unregister dongle c h)) d =
     (if d = dongle c \<and> get_client (h_clients h) d = Some c then None else get_client (h_clients h) d)"
  "h_known (unregister dongle c h) = h_known h" "h_left (unregister dongle c h) = insert c (h_left h)"
  "h_closed (unregister dongle c h) = h_closed h" "h_evicted (unregister dongle c h) = h_evicted h"
  by (auto simp: unregister_def Let_def hub_map.look_del)

lemma hub_invD:
  assumes "hub_inv dongle h"
  shows "get_client (h_clients h) d = Some c \<Longrightarrow> dongle c = d \<and> c \<in> h_known h"
    and "c \<in> h_known h \<Longrightarrow> get_client (h_clients h) (dongle c) = Some c \<or> c \<in> h_evicted h \<or> c \<in> h_left h"
    and "c \<in> h_evicted h \<Longrightarrow> c \<in> h_known h"
  using assms unfolding hub_inv_def by blast+

lemma register_inv [inv_intros]:
  assumes inv: "hub_inv dongle h" and "c \<notin> h_known h"
  shows "hub_inv dongle (register dongle c h)"
  unfolding hub_inv_def frame_simps
proof (intro conjI allI impI ballI subsetI)
  fix x assume "x \<in> h_evicted (register dongle c h)"
  then show "x \<in> insert c (h_known h)" using hub_invD(1,3) [OF inv] by (auto simp: frame_simps)
next
  fix x assume "x \<in> insert c (h_known h)"
  then show "(if dongle x = dongle c then Some c else get_client (h_clients h) (dongle x)) = Some x
      \<or> (x \<in> h_evicted h \<or> get_client (h_clients h) (dongle c) = Some x) \<or> x \<in> h_left h"
    using hub_invD(2) [OF inv, of x] by (cases "x = c") auto
qed (use hub_invD(1) [OF inv] in \<open>auto split: if_splits\<close>)

lemma close_inv [inv_intros]: "hub_inv dongle h \<Longrightarrow> hub_inv dongle (close_client c h)"
  by (simp add: hub_inv_def close_client_def)

lemma unregister_inv [inv_intros]:
  assumes inv: "hub_inv dongle h"
  shows "hub_inv dongle (unregister dongle c h)"
  unfolding hub_inv_def frame_simps
proof (intro conjI allI impI ballI subsetI)
  fix x assume "x \<in> h_known h"
  then show "(if dongle x = dongle c \<and> get_client (h_clients h) (dongle x) = Some c then None
        else get_client (h_clients h) (dongle x)) = Some x \<or> x \<in> h_evicted h \<or> x \<in> insert c (h_left h)"
    using hub_invD(2) [OF inv, of x] by auto
qed (use hub_invD(1,3) [OF inv] in \<open>auto split: if_splits\<close>)

interpretation hub_sys: step_invariant hub_start "hub_step dongle" "hub_inv dongle"
proof
  show "hub_inv dongle h" if "hub_start h" for h
    using that by (simp add: hub_start_def hub_inv_def get_client_def)
  show "hub_inv dongle t" if "hub_inv dongle s" "hub_step dongle s t" for s t
    using that(2,1) by cases (auto intro: inv_intros)
qed

lemma unregister_other [frame_simps]:
  "get_client (h_clients h) (dongle c) \<noteq> Some c \<Longrightarrow> h_clients (unregister dongle c h) = h_clients h"
  by (simp add: unregister_def Let_def)

section \<open>Outgoing calls\<close>

text \<open>Identifiers, parameters and results are raw JSON text; an absent or null identifier is empty.\<close>

record rpc_error =
  re_code :: int
  re_message :: string

record rpc_response =
  rr_version :: string
  rr_result :: string
  rr_error :: "rpc_error option"
  rr_id :: string

text \<open>
  The caller: the pending calls by identifier, the one-place channel and the identifier of each
  call, and the counter. \<open>c_done\<close> is what a finished call returned, \<open>None\<close> for a time-out or a
  disconnect.
\<close>

type_synonym call = nat

record caller =
  c_pending :: "string \<Rightarrow> call option"
  c_chan :: "call \<Rightarrow> rpc_response option"
  c_ident :: "call \<Rightarrow> string option"
  c_next :: int
  c_done :: "call \<Rightarrow> rpc_response option option"

definition next_request_id :: "caller \<Rightarrow> string \<times> caller" where
  "next_request_id s = (let i = c_next s + 1 in (show_int i, s\<lparr>c_next := i\<rparr>))"

definition look_pending :: "caller \<Rightarrow> string \<Rightarrow> call option" where
  "look_pending s i = c_pending s i"

definition put_pending :: "string \<Rightarrow> call \<Rightarrow> caller \<Rightarrow> caller" where
  "put_pending i k s = s\<lparr>c_pending := (c_pending s)(i \<mapsto> k)\<rparr>"

definition del_pending :: "string \<Rightarrow> caller \<Rightarrow> caller" where
  "del_pending i s = s\<lparr>c_pending := (c_pending s)(i := None)\<rparr>"

interpretation pending: keyed_store_del look_pending put_pending del_pending
  by unfold_locales (simp_all add: look_pending_def put_pending_def del_pending_def)

text \<open>\<open>doCall\<close> up to the wait: a fresh identifier and an empty channel.\<close>

definition start_call :: "call \<Rightarrow> caller \<Rightarrow> caller" where
  "start_call k s =
     (case next_request_id s of
        (i, s1) \<Rightarrow> put_pending i k (s1\<lparr>c_ident := (c_ident s1)(k \<mapsto> i), c_chan := (c_chan s1)(k := None)\<rparr>))"

definition handle_response :: "rpc_response \<Rightarrow> caller \<Rightarrow> bool \<times> caller" where
  "handle_response r s =
     (if rr_id r = [] then (False, s)
      else (case look_pending s (rr_id r) of
              None \<Rightarrow> (False, s)
            | Some k \<Rightarrow> (True, case c_chan s k of None \<Rightarrow> s\<lparr>c_chan := (c_chan s)(k \<mapsto> r)\<rparr> | Some _ \<Rightarrow> s)))"

text \<open>The end of the wait, with the deferred delete: a response from the channel, or giving up.\<close>

definition finish_call :: "call \<Rightarrow> rpc_response option \<Rightarrow> caller \<Rightarrow> caller" where
  "finish_call k out s =
     (case c_ident s k of
        None \<Rightarrow> s
      | Some i \<Rightarrow> del_pending i (s\<lparr>c_done := (c_done s)(k \<mapsto> out), c_ident := (c_ident s)(k := None)\<rparr>))"

definition caller_start :: "caller \<Rightarrow> bool" where
  "caller_start s \<longleftrightarrow> s = \<lparr>c_pending = (\<lambda>_. None), c_chan = (\<lambda>_. None), c_ident = (\<lambda>_. None), c_next = 0, c_done = (\<lambda>_. None)\<rparr>"

text \<open>
  The counter stays within 64 bits. A call number is used once. \<open>call_gives_up\<close> is the time-out or
  the disconnect, at any moment.
\<close>

inductive caller_step :: "caller \<Rightarrow> caller \<Rightarrow> bool" where
  call_starts: "c_ident s k = None \<Longrightarrow> c_done s k = None \<Longrightarrow> c_next s < 9223372036854775807 \<Longrightarrow> caller_step s (start_call k s)"
| response_arrives: "caller_step s (snd (handle_response r s))"
| call_returns: "c_ident s k \<noteq> None \<Longrightarrow> c_chan s k = Some r \<Longrightarrow> caller_step s (finish_call k (Some r) s)"
| call_gives_up: "c_ident s k \<noteq> None \<Longrightarrow> caller_step s (finish_call k None s)"

text \<open>
  The invariant: the pending table is exactly the identifiers of the calls in flight; identifiers
  are numbers the counter has passed; and a response in a channel carries its call's identifier.
\<close>

definition caller_inv :: "caller \<Rightarrow> bool" where
  "caller_inv s \<longleftrightarrow>
     (\<forall>i k. look_pending s i = Some k \<longleftrightarrow> c_ident s k = Some i)
   \<and> (\<forall>k i. c_ident s k = Some i \<longrightarrow> (\<exists>n. i = show_int n \<and> 1 \<le> n \<and> n \<le> c_next s))
   \<and> (\<forall>k i r. c_ident s k = Some i \<longrightarrow> c_chan s k = Some r \<longrightarrow> rr_id r = i)
   \<and> 0 \<le> c_next s \<and> c_next s \<le> 9223372036854775807"

lemma show_int_eq:
  assumes "0 \<le> m" and "m \<le> 9223372036854775807" and "0 \<le> n" and "n \<le> 9223372036854775807"
  shows "show_int m = show_int n \<longleftrightarrow> m = n"
proof -
  have "parse_int 64 (show_int k) = Some k" if "0 \<le> k" "k \<le> 9223372036854775807" for k
    using that by (intro parse_show_int) simp_all
  then show ?thesis using assms by (metis option.inject)
qed

lemma pending_frames [frame_simps]:
  "c_ident (put_pending i k s) = c_ident s" "c_chan (put_pending i k s) = c_chan s" "c_next (put_pending i k s) = c_next s"
  "c_done (put_pending i k s) = c_done s" "c_ident (del_pending i s) = c_ident s" "c_chan (del_pending i s) = c_chan s"
  "c_next (del_pending i s) = c_next s" "c_done (del_pending i s) = c_done s"
  by (simp_all add: put_pending_def del_pending_def)

lemma look_pending_frame [frame_simps]:
  "look_pending (s\<lparr>c_chan := x\<rparr>) = look_pending s" "look_pending (s\<lparr>c_ident := y\<rparr>) = look_pending s"
  "look_pending (s\<lparr>c_next := n\<rparr>) = look_pending s" "look_pending (s\<lparr>c_done := z\<rparr>) = look_pending s"
  by (simp_all add: look_pending_def fun_eq_iff)

lemma start_call_inv [inv_intros]:
  assumes inv: "caller_inv s" and fresh: "c_ident s k = None" and bound: "c_next s < 9223372036854775807"
  shows "caller_inv (start_call k s)"
proof -
  let ?i = "show_int (c_next s + 1)"
  have new: "c_ident s k' \<noteq> Some ?i" for k'
  proof
    assume "c_ident s k' = Some ?i"
    then obtain n where n: "?i = show_int n" "1 \<le> n" "n \<le> c_next s" using inv unfolding caller_inv_def by blast
    moreover have "0 \<le> c_next s" using inv by (simp add: caller_inv_def)
    ultimately show False using show_int_eq [of "c_next s + 1" n] bound by linarith
  qed
  have start: "start_call k s = put_pending ?i k (s\<lparr>c_next := c_next s + 1, c_ident := (c_ident s)(k \<mapsto> ?i), c_chan := (c_chan s)(k := None)\<rparr>)"
    by (simp add: start_call_def next_request_id_def Let_def)
  have idents: "\<exists>n. i = show_int n \<and> 1 \<le> n \<and> n \<le> c_next s + 1" if "((c_ident s)(k \<mapsto> ?i)) k' = Some i" for k' i
  proof (cases "k' = k")
    case True
    then show ?thesis using that inv by (intro exI [of _ "c_next s + 1"]) (auto simp: caller_inv_def)
  next
    case False
    then have "c_ident s k' = Some i" using that by simp
    then obtain n where "i = show_int n" "1 \<le> n" "n \<le> c_next s" using inv unfolding caller_inv_def by blast
    then show ?thesis by (intro exI [of _ n]) simp
  qed
  have table: "look_pending (start_call k s) i = Some k' \<longleftrightarrow> ((c_ident s)(k \<mapsto> ?i)) k' = Some i" for i k'
    using inv fresh new by (auto simp: start pending.look_put frame_simps caller_inv_def)
  show ?thesis
    using inv bound idents table unfolding caller_inv_def by (auto simp: start frame_simps split: if_splits)
qed

lemma handle_response_inv [inv_intros]: "caller_inv s \<Longrightarrow> caller_inv (snd (handle_response r s))"
  by (auto simp: caller_inv_def handle_response_def frame_simps split: option.splits)

lemma ident_unique: "caller_inv s \<Longrightarrow> c_ident s k = Some i \<Longrightarrow> c_ident s k' = Some i \<Longrightarrow> k' = k"
  unfolding caller_inv_def by (metis option.inject)

lemma finish_call_frames [frame_simps]:
  assumes "c_ident s k = Some i"
  shows "look_pending (finish_call k out s) j = (if j = i then None else look_pending s j)"
    and "c_ident (finish_call k out s) = (c_ident s)(k := None)" and "c_chan (finish_call k out s) = c_chan s"
    and "c_next (finish_call k out s) = c_next s" and "c_done (finish_call k out s) = (c_done s)(k \<mapsto> out)"
  using assms by (simp_all add: finish_call_def pending.look_del frame_simps)

lemma finish_call_inv [inv_intros]:
  assumes inv: "caller_inv s"
  shows "caller_inv (finish_call k out s)"
proof (cases "c_ident s k")
  case None
  then show ?thesis using inv by (simp add: finish_call_def)
next
  case (Some i)
  have "look_pending (finish_call k out s) j = Some k' \<longleftrightarrow> ((c_ident s)(k := None)) k' = Some j" for j k'
    using inv Some ident_unique [OF inv Some, of k'] unfolding finish_call_frames [OF Some] caller_inv_def
    by (cases "k' = k") auto
  then show ?thesis
    using inv unfolding caller_inv_def finish_call_frames(2-5) [OF Some] by (auto split: if_splits)
qed

interpretation caller_sys: step_invariant caller_start caller_step caller_inv
proof
  show "caller_inv s" if "caller_start s" for s
    using that by (simp add: caller_start_def caller_inv_def look_pending_def)
  show "caller_inv t" if "caller_inv s" "caller_step s t" for s t
    using that(2,1) by cases (auto intro: inv_intros)
qed

section \<open>Messages from a device\<close>

record rpc_request =
  rq_version :: string
  rq_method :: string
  rq_params :: string
  rq_id :: string

text \<open>
  \<open>json.Unmarshal\<close> of a message into the three structures: the peek at method and identifier, a
  response, a request.
\<close>

record rpc_json =
  j_peek :: "string \<Rightarrow> (string \<times> string) option"
  j_response :: "string \<Rightarrow> rpc_response option"
  j_request :: "string \<Rightarrow> rpc_request option"

text \<open>The two shapes \<open>MarshalJSON\<close> writes: version, result or error, identifier (null when empty).\<close>

datatype wire = WireResult string string string | WireError string rpc_error string

definition wire_id :: "string \<Rightarrow> string" where
  "wire_id i = (if i = [] then ''null'' else i)"

definition marshal_response :: "rpc_response \<Rightarrow> wire" where
  "marshal_response r =
     (case rr_error r of
        Some e \<Rightarrow> WireError (rr_version r) e (wire_id (rr_id r))
      | None \<Rightarrow> WireResult (rr_version r) (if rr_result r = [] then ''null'' else rr_result r) (wire_id (rr_id r)))"

definition new_rpc_response :: "string \<Rightarrow> string \<Rightarrow> rpc_response" where
  "new_rpc_response i res = \<lparr>rr_version = ''2.0'', rr_result = res, rr_error = None, rr_id = i\<rparr>"

definition new_rpc_error_response :: "string \<Rightarrow> rpc_error \<Rightarrow> rpc_response" where
  "new_rpc_error_response i e = \<lparr>rr_version = ''2.0'', rr_result = [], rr_error = Some e, rr_id = i\<rparr>"

definition parse_request :: "rpc_json \<Rightarrow> string \<Rightarrow> string + rpc_request" where
  "parse_request J data =
     (case j_request J data of
        None \<Rightarrow> Inl ''failed to parse JSON-RPC request''
      | Some q \<Rightarrow>
          if rq_version q \<noteq> ''2.0'' then Inl ''failed to validate JSON-RPC version''
          else if rq_method q = [] then Inl ''failed to validate JSON-RPC request: method is required''
          else Inr q)"

definition is_notification :: "rpc_request \<Rightarrow> bool" where
  "is_notification q \<longleftrightarrow> rq_id q = [] \<or> rq_id q = ''null''"

text \<open>The message is a response for the caller.\<close>

definition routed_response :: "rpc_json \<Rightarrow> string \<Rightarrow> rpc_response option" where
  "routed_response J data =
     (case j_peek J data of
        None \<Rightarrow> None
      | Some (method, i) \<Rightarrow> if method = [] \<and> i \<noteq> [] \<and> i \<noteq> ''null'' then j_response J data else None)"

type_synonym method_handler = "string \<Rightarrow> string \<Rightarrow> string \<times> rpc_error option"

text \<open>
  \<open>handleMessage\<close>: the caller's state (\<open>None\<close> when there is no caller), the handler invocations and the
  responses enqueued.
\<close>

definition handle_message ::
  "rpc_json \<Rightarrow> (string \<Rightarrow> method_handler option) \<Rightarrow> string \<Rightarrow> string \<Rightarrow> caller option
     \<Rightarrow> caller option \<times> (string \<times> string) list \<times> wire list" where
  "handle_message J handlers dongle data cs =
     (case (case cs of None \<Rightarrow> None | Some s \<Rightarrow> map_option (\<lambda>r. snd (handle_response r s)) (routed_response J data)) of
        Some s' \<Rightarrow> (Some s', [], [])
      | None \<Rightarrow>
          (case parse_request J data of
             Inl msg \<Rightarrow> (cs, [], [marshal_response (new_rpc_error_response [] \<lparr>re_code = - 32700, re_message = msg\<rparr>)])
           | Inr q \<Rightarrow>
               (case handlers (rq_method q) of
                  None \<Rightarrow>
                    (cs, [], if is_notification q then []
                     else [marshal_response (new_rpc_error_response (rq_id q) \<lparr>re_code = - 32601, re_message = ''method not found''\<rparr>)])
                | Some f \<Rightarrow>
                    (case f dongle (rq_params q) of
                       (res, err) \<Rightarrow>
                         (cs, [(dongle, rq_params q)],
                          if is_notification q then []
                          else [marshal_response (case err of Some e \<Rightarrow> new_rpc_error_response (rq_id q) e
                                                  | None \<Rightarrow> new_rpc_response (rq_id q) res)])))))"

definition send_message :: "'m \<Rightarrow> 'm list \<Rightarrow> 'm list" where
  "send_message m q = (if length q < 64 then q @ [m] else q)"

section \<open>Properties\<close>

text \<open>C23: at most one live connection per device. In every reachable state of the hub, a client that was
  registered and is neither waiting to be closed by its successor nor past its read loop is the one
  the hub returns for its device, so two such clients never share a device; and an old client
  that unregisters does not remove the client that replaced it.\<close>

theorem one_connection:
  assumes "reach hub_start (hub_step dongle) h"
    and "c \<in> h_known h - h_evicted h - h_left h" and "c' \<in> h_known h - h_evicted h - h_left h"
  shows "get_client (h_clients h) (dongle c) = Some c
    \<and> (dongle c = dongle c' \<longrightarrow> c = c')
    \<and> (\<forall>old. old \<noteq> c \<longrightarrow> get_client (h_clients (unregister dongle old h)) (dongle c) = Some c)"
proof -
  have inv: "hub_inv dongle h" using assms(1) by (rule hub_sys.reachable)
  have c: "get_client (h_clients h) (dongle c) = Some c" and c': "get_client (h_clients h) (dongle c') = Some c'"
    using hub_invD(2) [OF inv] assms(2,3) by blast+
  then have "dongle c = dongle c' \<longrightarrow> c = c'" by (metis option.inject)
  moreover have "get_client (h_clients (unregister dongle old h)) (dongle c) = Some c" if "old \<noteq> c" for old
    using c that by (simp add: unregister_frames)
  ultimately show ?thesis using c by blast
qed

lemma get_client_empty [simp]: "get_client (\<lambda>_. None) d = None"
  by (simp add: get_client_def)

lemma demo_hub_reach:
  assumes "hub_start h0"
  shows "reach hub_start (hub_step (\<lambda>_. ''dev'')) (register (\<lambda>_. ''dev'') 4 (register (\<lambda>_. ''dev'') 3 h0))"
proof (rule reach_step [OF reach_step [OF reach_init [where init = hub_start, OF assms]]])
  show "hub_step (\<lambda>_. ''dev'') h0 (register (\<lambda>_. ''dev'') 3 h0)"
    using assms by (intro hub_register) (simp add: hub_start_def)
  show "hub_step (\<lambda>_. ''dev'') (register (\<lambda>_. ''dev'') 3 h0) (register (\<lambda>_. ''dev'') 4 (register (\<lambda>_. ''dev'') 3 h0))"
    using assms by (intro hub_register) (simp add: hub_start_def register_frames)
qed

theorem one_connection_witness:
  "\<exists>h0. hub_start h0 \<and> get_client (h_clients (register (\<lambda>_. ''dev'') 4 (register (\<lambda>_. ''dev'') 3 h0))) ''dev'' = Some 4"
proof -
  define h0 where "h0 = \<lparr>h_clients = (\<lambda>_. None), h_known = {}, h_evicted = {}, h_left = {}, h_closed = {}\<rparr>"
  have "hub_start h0" by (simp add: hub_start_def h0_def)
  moreover have two: "4 \<in> h_known (register (\<lambda>_. ''dev'') 4 (register (\<lambda>_. ''dev'') 3 h0))
      - h_evicted (register (\<lambda>_. ''dev'') 4 (register (\<lambda>_. ''dev'') 3 h0)) - h_left (register (\<lambda>_. ''dev'') 4 (register (\<lambda>_. ''dev'') 3 h0))"
    by (simp add: register_frames h0_def)
  ultimately show ?thesis using one_connection [OF demo_hub_reach [of h0] two two] by blast
qed

text \<open>C22: responses are correlated. In every reachable state of the caller, the pending table holds
  exactly the calls in flight under their own identifiers, no two calls share one, and what a call
  finds in its channel is a response to its own identifier, however calls, responses, time-outs and
  disconnects interleave.\<close>

theorem rpc_correlation:
  assumes "reach caller_start caller_step s"
  shows "(look_pending s i = Some k \<longleftrightarrow> c_ident s k = Some i)
    \<and> (c_ident s k = Some i \<and> c_ident s k' = Some i \<longrightarrow> k = k')
    \<and> (c_ident s k = Some i \<and> c_chan s k = Some r \<longrightarrow> rr_id r = i)"
  using caller_sys.reachable [OF assms] ident_unique unfolding caller_inv_def by (metis option.inject)

definition idle_caller :: caller where
  "idle_caller = \<lparr>c_pending = (\<lambda>_. None), c_chan = (\<lambda>_. None), c_ident = (\<lambda>_. None), c_next = 0, c_done = (\<lambda>_. None)\<rparr>"

lemma demo_call_reach: "reach caller_start caller_step (start_call 0 idle_caller)"
  by (rule reach_step [OF reach_init]) (auto simp: caller_start_def idle_caller_def intro: call_starts)

theorem rpc_correlation_witness: "look_pending (start_call 0 idle_caller) ''1'' = Some 0"
proof -
  have "c_ident (start_call 0 idle_caller) 0 = Some ''1''"
    by (simp add: start_call_def next_request_id_def idle_caller_def frame_simps Let_def) code_simp
  then show ?thesis using rpc_correlation [OF demo_call_reach] by blast
qed

text \<open>But the correlation is by identifier only, and identifiers are small consecutive numbers. A
  response-shaped message from any connected device completes the pending call with that
  identifier, whichever device it was made to.\<close>

theorem response_from_any_device:
  assumes "routed_response J data = Some r" and "rr_id r \<noteq> []" and "look_pending s (rr_id r) = Some k" and "c_chan s k = None"
  shows "\<exists>s'. handle_message J handlers any_device data (Some s) = (Some s', [], []) \<and> c_chan s' k = Some r"
  using assms by (simp add: handle_message_def handle_response_def)

definition demo_response :: rpc_response where
  "demo_response = \<lparr>rr_version = ''2.0'', rr_result = ''0'', rr_error = None, rr_id = ''1''\<rparr>"

definition demo_json :: rpc_json where
  "demo_json = \<lparr>j_peek = (\<lambda>_. Some ([], ''1'')), j_response = (\<lambda>_. Some demo_response), j_request = (\<lambda>_. None)\<rparr>"

theorem response_from_any_device_witness:
  "\<exists>s'. handle_message demo_json (\<lambda>_. None) ''other'' ''{}'' (Some (start_call 0 idle_caller)) = (Some s', [], [])
     \<and> c_chan s' 0 = Some demo_response"
proof (rule response_from_any_device)
  show "routed_response demo_json ''{}'' = Some demo_response" by (simp add: routed_response_def demo_json_def)
  show "look_pending (start_call 0 idle_caller) (rr_id demo_response) = Some 0" by code_simp
  show "c_chan (start_call 0 idle_caller) 0 = None"
    by (simp add: start_call_def next_request_id_def idle_caller_def frame_simps Let_def)
qed (simp add: demo_response_def)

text \<open>Every request is answered once. A message that is not a response for the caller leaves the
  caller alone and is answered exactly once, except a valid notification, which is not answered;
  the answer carries the request's identifier and either a result or an error; and the handler of a
  known method runs exactly once, for the authenticated device.\<close>

theorem message_answers:
  assumes "cs = None \<or> routed_response J data = None"
  shows "\<exists>calls out. handle_message J handlers dongle data cs = (cs, calls, out)
    \<and> (case parse_request J data of
         Inl msg \<Rightarrow> calls = [] \<and> out = [WireError ''2.0'' \<lparr>re_code = - 32700, re_message = msg\<rparr> ''null'']
       | Inr q \<Rightarrow>
           calls = (case handlers (rq_method q) of None \<Rightarrow> [] | Some _ \<Rightarrow> [(dongle, rq_params q)])
         \<and> (if is_notification q then out = []
            else (case handlers (rq_method q) of
                    None \<Rightarrow> \<exists>e. re_code e = - 32601 \<and> out = [WireError ''2.0'' e (rq_id q)]
                  | Some f \<Rightarrow>
                      (case f dongle (rq_params q) of
                         (res, Some e) \<Rightarrow> out = [WireError ''2.0'' e (rq_id q)]
                       | (res, None) \<Rightarrow> out = [WireResult ''2.0'' (if res = [] then ''null'' else res) (rq_id q)]))))"
proof -
  have none: "(case cs of None \<Rightarrow> None | Some s \<Rightarrow> map_option (\<lambda>r. snd (handle_response r s)) (routed_response J data)) = None"
    using assms by (auto split: option.splits)
  show ?thesis
  proof (cases "parse_request J data")
    case (Inl msg)
    then show ?thesis
      by (simp add: handle_message_def none marshal_response_def new_rpc_error_response_def wire_id_def)
  next
    case (Inr q)
    then show ?thesis
      by (cases "handlers (rq_method q)")
        (auto simp: handle_message_def none marshal_response_def new_rpc_error_response_def new_rpc_response_def wire_id_def
          is_notification_def split: prod.splits option.splits)
  qed
qed

theorem message_answers_witness:
  "\<exists>out. handle_message demo_json (\<lambda>_. None) ''dev'' ''{}'' None = (None, [], out) \<and> length out = 1"
  using message_answers [of None demo_json "''{}''" "\<lambda>_. None" "''dev''"] by (simp add: parse_request_def demo_json_def)

end
