(* ===== verification/Heuristic.thy ===== *)
theory Heuristic imports GoFloat begin

text \<open>
  The stalking score of \<open>internal/alpr/heuristic/scoring.go\<close>: the five rules, the whitelist
  override, the severity buckets and the one-line reason. \<open>Score\<close> is a function of the
  encounters, the whitelist flag and the thresholds. The Go maps over routes and cells are
  built in encounter order; every loop over one is shown not to depend on its order.
\<close>

section \<open>Data\<close>

type_synonym buckets = "real \<times> real \<times> real \<times> real"

record thresholds =
  th_turns_min :: int
  th_turns_cap :: real
  th_persist_mid :: real
  th_persist_high :: real
  th_persist_mid_points :: real
  th_persist_high_points :: real
  th_routes_mid :: int
  th_routes_mid_points :: real
  th_routes_high :: int
  th_routes_high_points :: real
  th_areas_min :: int
  th_areas_points :: real
  th_cell_km :: real
  th_timing_hours :: real
  th_timing_points :: real
  th_buckets :: buckets

definition default_buckets :: buckets where
  "default_buckets = (2, 4, 6, 8)"

definition default_thresholds :: thresholds where
  "default_thresholds =
     \<lparr>th_turns_min = 2, th_turns_cap = 4, th_persist_mid = 8, th_persist_high = 15,
      th_persist_mid_points = 1, th_persist_high_points = 3 / 2, th_routes_mid = 3,
      th_routes_mid_points = 3 / 2, th_routes_high = 5, th_routes_high_points = 1,
      th_areas_min = 2, th_areas_points = 2, th_cell_km = 5, th_timing_hours = 24,
      th_timing_points = 1, th_buckets = default_buckets\<rparr>"

record sighting =
  si_id :: int
  si_route :: string
  si_first :: gotime
  si_last :: gotime
  si_turns :: int
  si_lat :: real
  si_lng :: real
  si_gps :: bool

datatype evidence = EvInt int | EvReal real | EvStr string | EvBool bool

record component =
  co_name :: string
  co_points :: real
  co_evidence :: "(string \<times> evidence) list"

record scoring_input =
  in_encounters :: "sighting list"
  in_whitelisted :: bool
  in_thresholds :: thresholds

record score_result =
  sc_total :: real
  sc_severity :: int
  sc_components :: "component list"
  sc_reason :: string

section \<open>The rules\<close>

text \<open>The first encounter with the most turns; the first one with the longest usable duration.\<close>

definition keep_first_max :: "('a \<Rightarrow> int) \<Rightarrow> 'a \<Rightarrow> 'a option \<Rightarrow> 'a option" where
  "keep_first_max f e b = (case b of None \<Rightarrow> Some e | Some x \<Rightarrow> if f x < f e then Some e else Some x)"

definition compute_within_route_turns :: "sighting list \<Rightarrow> thresholds \<Rightarrow> component option" where
  "compute_within_route_turns encs t =
     (case fold (keep_first_max si_turns) encs None of
        None \<Rightarrow> None
      | Some e \<Rightarrow>
          (let excess = to_int64 (si_turns e - th_turns_min t) in
           if excess \<le> 0 then None
           else (let raw = real_of_int excess * 1;
                     points = (if 0 < th_turns_cap t \<and> th_turns_cap t < raw then th_turns_cap t else raw) in
             Some \<lparr>co_name = ''within_route_turns'', co_points = points,
                co_evidence = [(''turn_count'', EvInt (si_turns e)), (''route'', EvStr (si_route e)),
                  (''encounter_id'', EvInt (si_id e)), (''turns_min'', EvInt (th_turns_min t)),
                  (''capped_at'', EvReal (th_turns_cap t))]\<rparr>)))"

definition si_span :: "sighting \<Rightarrow> duration" where
  "si_span e = time_sub (si_last e) (si_first e)"

definition usable_span :: "sighting \<Rightarrow> bool" where
  "usable_span e \<longleftrightarrow> si_first e \<noteq> zero_time \<and> si_last e \<noteq> zero_time \<and> 0 \<le> si_span e"

definition compute_within_route_persistence :: "sighting list \<Rightarrow> thresholds \<Rightarrow> component option" where
  "compute_within_route_persistence encs t =
     (case fold (keep_first_max si_span) (filter usable_span encs) None of
        None \<Rightarrow> None
      | Some e \<Rightarrow>
          (let mins = dur_minutes (si_span e);
               award = (\<lambda>points tier. Some \<lparr>co_name = ''within_route_persistence'', co_points = points,
                  co_evidence = [(''duration_minutes'', EvReal mins), (''tier'', EvStr tier),
                    (''route'', EvStr (si_route e)), (''encounter_id'', EvInt (si_id e)),
                    (''mid_minutes'', EvReal (th_persist_mid t)), (''high_minutes'', EvReal (th_persist_high t))]\<rparr>) in
           if th_persist_high t \<le> mins then award (th_persist_high_points t) ''high''
           else if th_persist_mid t \<le> mins then award (th_persist_mid_points t) ''mid''
           else None))"

definition named_routes :: "sighting list \<Rightarrow> string list" where
  "named_routes encs = remdups (filter (\<lambda>r. r \<noteq> []) (map si_route encs))"

definition compute_cross_route_count :: "sighting list \<Rightarrow> thresholds \<Rightarrow> component option" where
  "compute_cross_route_count encs t =
     (let count = int (length (named_routes encs)) in
      if encs = [] \<or> count < th_routes_mid t then None
      else (let high = th_routes_high t \<le> count in
        Some \<lparr>co_name = ''cross_route_count'',
          co_points = (if high then th_routes_mid_points t + th_routes_high_points t else th_routes_mid_points t),
          co_evidence = [(''distinct_routes'', EvInt count), (''tier'', EvStr (if high then ''high'' else ''mid'')),
            (''mid_threshold'', EvInt (th_routes_mid t)), (''high_threshold'', EvInt (th_routes_high t))]\<rparr>))"

text \<open>\<open>geoCellKey\<close>. The conversions of the two floors to \<open>int64\<close> do not overflow at coordinates in degrees.\<close>

definition km_per_deg_lat :: real where
  "km_per_deg_lat = 11132 / 100"

definition geo_cell_key :: "real \<Rightarrow> real \<Rightarrow> real \<Rightarrow> string" where
  "geo_cell_key lat lng cell_km =
     (if cell_km \<le> 0 then ''0|0''
      else
        (let lat_deg = cell_km / km_per_deg_lat;
             clamped = (if 899 / 10 < lat then 899 / 10 else if lat < - (899 / 10) then - (899 / 10) else lat);
             cos_lat = max (1 / 10 ^ 6) (cos (clamped * pi / 180));
             lng_deg = lat_deg / cos_lat in
         show_int \<lfloor>lat / lat_deg\<rfloor> @ CHR ''|'' # show_int \<lfloor>lng / lng_deg\<rfloor>))"

text \<open>One start per route: the first encounter with GPS, otherwise the last one without.\<close>

definition keep_start :: "sighting \<Rightarrow> (string \<Rightarrow> sighting option) \<Rightarrow> string \<Rightarrow> sighting option" where
  "keep_start e m =
     (if si_route e = [] then m
      else (case m (si_route e) of
              Some s \<Rightarrow> if si_gps s then m else m(si_route e \<mapsto> e)
            | None \<Rightarrow> m(si_route e \<mapsto> e)))"

definition route_starts :: "sighting list \<Rightarrow> sighting list" where
  "route_starts encs =
     (let m = fold keep_start encs (\<lambda>_. None) in map (\<lambda>r. the (m r)) (named_routes encs))"

definition compute_cross_route_geo_spread :: "sighting list \<Rightarrow> thresholds \<Rightarrow> component option" where
  "compute_cross_route_geo_spread encs t =
     (if encs = [] \<or> th_cell_km t \<le> 0 then None
      else
        (let located = filter si_gps (route_starts encs);
             count = int (length (remdups (map (\<lambda>s. geo_cell_key (si_lat s) (si_lng s) (th_cell_km t)) located))) in
         if count < th_areas_min t then None
         else Some \<lparr>co_name = ''cross_route_geo_spread'', co_points = th_areas_points t,
           co_evidence = [(''distinct_cells'', EvInt count), (''routes_with_gps'', EvInt (int (length located))),
             (''area_cell_km'', EvReal (th_cell_km t)), (''min_threshold'', EvInt (th_areas_min t))]\<rparr>))"

text \<open>The earliest first sighting of each route, sorted, and the sweep over neighbours.\<close>

definition keep_earliest :: "sighting \<Rightarrow> (string \<Rightarrow> gotime option) \<Rightarrow> string \<Rightarrow> gotime option" where
  "keep_earliest e m =
     (if si_route e = [] \<or> si_first e = zero_time then m
      else (case m (si_route e) of
              Some cur \<Rightarrow> if si_first e < cur then m(si_route e \<mapsto> si_first e) else m
            | None \<Rightarrow> m(si_route e \<mapsto> si_first e)))"

definition earliest_starts :: "sighting list \<Rightarrow> gotime list" where
  "earliest_starts encs =
     (let m = fold keep_earliest encs (\<lambda>_. None) in sort (List.map_filter m (named_routes encs)))"

fun sweep :: "duration \<Rightarrow> gotime list \<Rightarrow> int \<times> duration \<Rightarrow> int \<times> duration" where
  "sweep w (a # b # ts) (n, mg) =
     (let gap = time_sub b a in
      sweep w (b # ts) (if gap \<le> w then (n + 1, if mg < 0 \<or> gap < mg then gap else mg) else (n, mg)))"
| "sweep w ts acc = acc"

definition compute_cross_route_timing :: "sighting list \<Rightarrow> thresholds \<Rightarrow> component option" where
  "compute_cross_route_timing encs t =
     (if encs = [] \<or> th_timing_hours t \<le> 0 then None
      else
        (let ts = earliest_starts encs in
         if length ts < 2 then None
         else (case sweep (dur_hours (th_timing_hours t)) ts (0, - 1) of
                 (n, mg) \<Rightarrow>
                   if n = 0 then None
                   else Some \<lparr>co_name = ''cross_route_timing'', co_points = th_timing_points t,
                     co_evidence = [(''adjacent_pairs_within_window'', EvInt n),
                       (''window_hours'', EvReal (th_timing_hours t)), (''min_gap_minutes'', EvReal (dur_minutes mg))]\<rparr>)))"

section \<open>Severity, reason, score\<close>

definition severity_for_score_buckets :: "real \<Rightarrow> buckets \<Rightarrow> int" where
  "severity_for_score_buckets tot b =
     (case b of (b2, b3, b4, b5) \<Rightarrow>
        if b5 \<le> tot then 5 else if b4 \<le> tot then 4 else if b3 \<le> tot then 3 else if b2 \<le> tot then 2 else 0)"

definition effective_severity_buckets :: "buckets \<Rightarrow> buckets" where
  "effective_severity_buckets b =
     (case b of (b2, b3, b4, b5) \<Rightarrow>
        if 0 < b2 \<or> 0 < b3 \<or> 0 < b4 \<or> 0 < b5 then b else default_buckets)"

definition summed_without_whitelist :: "component list \<Rightarrow> real" where
  "summed_without_whitelist cs = sum_list (map co_points (filter (\<lambda>c. co_name c \<noteq> ''whitelist_suppression'') cs))"

definition summarize_with_buckets :: "component list \<Rightarrow> real \<Rightarrow> int \<Rightarrow> bool \<Rightarrow> buckets \<Rightarrow> string" where
  "summarize_with_buckets cs tot sev wl b =
     (if wl then
        (let ws = summed_without_whitelist cs in
         ''whitelist suppressed (would have scored '' @ show_fixed 2 ws @ '', severity ''
           @ show_int (severity_for_score_buckets ws b) @ '')'')
      else if sev = 0 then
        (if tot \<le> 0 then ''no signal'' else ''below alert threshold (score '' @ show_fixed 2 tot @ '')'')
      else
        (case cs of
           [] \<Rightarrow> ''score '' @ show_fixed 2 tot @ '', severity '' @ show_int sev
         | c # rest \<Rightarrow>
             (let headline = fold (\<lambda>d h. if co_points h < co_points d then d else h) rest c in
              ''severity '' @ show_int sev @ '' (score '' @ show_fixed 2 tot @ '', top '' @ co_name headline
                @ '' +'' @ show_fixed 2 (co_points headline) @ '')'')))"

definition rule_components :: "sighting list \<Rightarrow> thresholds \<Rightarrow> component list" where
  "rule_components encs t =
     List.map_filter (\<lambda>rule. rule encs t)
       [compute_within_route_turns, compute_within_route_persistence, compute_cross_route_count,
        compute_cross_route_geo_spread, compute_cross_route_timing]"

definition score :: "scoring_input \<Rightarrow> score_result" where
  "score inp =
     (let t = in_thresholds inp; cs = rule_components (in_encounters inp) t;
          raw = sum_list (map co_points cs); b = effective_severity_buckets (th_buckets t);
          wl = in_whitelisted inp;
          cs' = (if wl then cs @ [\<lparr>co_name = ''whitelist_suppression'', co_points = 0,
                    co_evidence = [(''suppressed'', EvBool True), (''would_score'', EvReal raw),
                      (''would_severity'', EvInt (severity_for_score_buckets raw b))]\<rparr>] else cs);
          tot = (if wl then 0 else raw); sev = severity_for_score_buckets tot b in
      \<lparr>sc_total = tot, sc_severity = sev, sc_components = cs',
       sc_reason = summarize_with_buckets cs' tot sev wl b\<rparr>)"

section \<open>The reference: points of a set of encounters\<close>

text \<open>
  What each rule awards, written over the set of encounters: maxima, cardinalities and the
  existence of a close pair of routes instead of the loops.
\<close>

definition ref_turns :: "sighting set \<Rightarrow> thresholds \<Rightarrow> real" where
  "ref_turns S t =
     (if S = {} then 0
      else (let x = to_int64 (Max (si_turns ` S) - th_turns_min t) in
            if x \<le> 0 then 0 else if 0 < th_turns_cap t then min (th_turns_cap t) (of_int x) else of_int x))"

definition ref_persistence :: "sighting set \<Rightarrow> thresholds \<Rightarrow> real" where
  "ref_persistence S t =
     (let D = si_span ` {e \<in> S. usable_span e} in
      if D = {} then 0
      else if th_persist_high t \<le> dur_minutes (Max D) then th_persist_high_points t
      else if th_persist_mid t \<le> dur_minutes (Max D) then th_persist_mid_points t else 0)"

definition ref_routes :: "sighting set \<Rightarrow> string set" where
  "ref_routes S = si_route ` S - {[]}"

definition ref_count :: "sighting set \<Rightarrow> thresholds \<Rightarrow> real" where
  "ref_count S t =
     (if S = {} \<or> int (card (ref_routes S)) < th_routes_mid t then 0
      else th_routes_mid_points t + (if th_routes_high t \<le> int (card (ref_routes S)) then th_routes_high_points t else 0))"

definition cell_of :: "thresholds \<Rightarrow> sighting \<Rightarrow> string" where
  "cell_of t e = geo_cell_key (si_lat e) (si_lng e) (th_cell_km t)"

definition ref_spread :: "sighting set \<Rightarrow> thresholds \<Rightarrow> real" where
  "ref_spread S t =
     (if S = {} \<or> th_cell_km t \<le> 0
        \<or> int (card (cell_of t ` {e \<in> S. si_gps e \<and> si_route e \<noteq> []})) < th_areas_min t
      then 0 else th_areas_points t)"

definition route_times :: "sighting set \<Rightarrow> string \<Rightarrow> gotime set" where
  "route_times S r = si_first ` {e \<in> S. si_route e = r \<and> si_first e \<noteq> zero_time}"

definition close_routes :: "sighting set \<Rightarrow> duration \<Rightarrow> bool" where
  "close_routes S w \<longleftrightarrow> (\<exists>r \<in> ref_routes S. \<exists>q \<in> ref_routes S. r \<noteq> q \<and> route_times S r \<noteq> {} \<and> route_times S q \<noteq> {}
     \<and> \<bar>Min (route_times S r) - Min (route_times S q)\<bar> \<le> w)"

definition ref_timing :: "sighting set \<Rightarrow> thresholds \<Rightarrow> real" where
  "ref_timing S t =
     (if 0 < th_timing_hours t \<and> close_routes S (dur_hours (th_timing_hours t)) then th_timing_points t else 0)"

definition ref_total :: "sighting set \<Rightarrow> thresholds \<Rightarrow> real" where
  "ref_total S t = ref_turns S t + ref_persistence S t + ref_count S t + ref_spread S t + ref_timing S t"

text \<open>The GPS starts of one route lie in one cell: then it does not matter which one is kept.\<close>

definition one_start_cell :: "thresholds \<Rightarrow> sighting set \<Rightarrow> bool" where
  "one_start_cell t S \<longleftrightarrow> (\<forall>a \<in> S. \<forall>b \<in> S. si_gps a \<longrightarrow> si_gps b \<longrightarrow> si_route a = si_route b \<longrightarrow> si_route a \<noteq> [] \<longrightarrow>
     cell_of t a = cell_of t b)"

section \<open>The loops compute the reference\<close>

definition points :: "component option \<Rightarrow> real" where
  "points c = (case c of None \<Rightarrow> 0 | Some c \<Rightarrow> co_points c)"

lemma keep_first_max_from:
  "\<exists>y \<in> insert x (set xs). fold (keep_first_max f) xs (Some x) = Some y \<and> (\<forall>z \<in> insert x (set xs). f z \<le> f y)"
proof (induction xs arbitrary: x)
  case Nil
  then show ?case by simp
next
  case (Cons a xs)
  show ?case
  proof (cases "f x < f a")
    case True
    with Cons [of a] show ?thesis by (auto simp: keep_first_max_def)
  next
    case False
    with Cons [of x] show ?thesis by (auto simp: keep_first_max_def)
  qed
qed

lemma keep_first_max_spec:
  assumes "xs \<noteq> []"
  shows "\<exists>y \<in> set xs. fold (keep_first_max f) xs None = Some y \<and> f y = Max (f ` set xs)"
proof -
  obtain x ys where xs: "xs = x # ys" using assms by (cases xs) auto
  obtain y where "y \<in> set xs" "fold (keep_first_max f) xs None = Some y" and "\<forall>z \<in> set xs. f z \<le> f y"
    using keep_first_max_from [where f = f and xs = ys and x = x] xs by (auto simp: keep_first_max_def)
  moreover from this have "Max (f ` set xs) = f y" by (intro Max_eqI) auto
  ultimately show ?thesis by metis
qed

lemma turns_points: "points (compute_within_route_turns encs t) = ref_turns (set encs) t"
proof (cases "encs = []")
  case True
  then show ?thesis by (simp add: compute_within_route_turns_def points_def ref_turns_def)
next
  case False
  from keep_first_max_spec [OF this, of si_turns] obtain y where
    "fold (keep_first_max si_turns) encs None = Some y" "si_turns y = Max (si_turns ` set encs)" by blast
  with False show ?thesis by (auto simp: compute_within_route_turns_def points_def ref_turns_def Let_def)
qed

lemma persistence_points: "points (compute_within_route_persistence encs t) = ref_persistence (set encs) t"
proof (cases "filter usable_span encs = []")
  case True
  moreover from this have "{e \<in> set encs. usable_span e} = {}" by (auto simp: filter_empty_conv)
  ultimately show ?thesis
    unfolding compute_within_route_persistence_def points_def ref_persistence_def by simp
next
  case False
  from keep_first_max_spec [OF this, of si_span] obtain y where
    y: "fold (keep_first_max si_span) (filter usable_span encs) None = Some y"
    "si_span y = Max (si_span ` set (filter usable_span encs))" by blast
  have "{e \<in> set encs. usable_span e} \<noteq> {}" using False by (auto simp: filter_empty_conv)
  with y show ?thesis
    unfolding compute_within_route_persistence_def points_def ref_persistence_def Let_def set_filter by auto
qed

lemma set_named_routes: "set (named_routes encs) = ref_routes (set encs)"
  by (auto simp: named_routes_def ref_routes_def)

lemma length_named_routes: "length (named_routes encs) = card (ref_routes (set encs))"
proof -
  have "distinct (named_routes encs)" by (simp add: named_routes_def)
  then show ?thesis using distinct_card set_named_routes by metis
qed

lemma count_points: "points (compute_cross_route_count encs t) = ref_count (set encs) t"
  by (auto simp: compute_cross_route_count_def points_def ref_count_def length_named_routes Let_def)

text \<open>The start kept for a route is one of its encounters, and has GPS when any of them has.\<close>

lemma keep_start_spec:
  assumes "r \<noteq> []"
  shows "case fold keep_start encs (\<lambda>_. None) r of
      None \<Rightarrow> \<forall>e \<in> set encs. si_route e \<noteq> r
    | Some s \<Rightarrow> s \<in> set encs \<and> si_route s = r \<and> (si_gps s \<longleftrightarrow> (\<exists>e \<in> set encs. si_route e = r \<and> si_gps e))"
proof (induction encs rule: rev_induct)
  case Nil
  then show ?case by simp
next
  case (snoc e encs)
  then show ?case using assms by (auto simp: keep_start_def split: option.splits)
qed

lemma located_cells:
  assumes "one_start_cell t (set encs)"
  shows "cell_of t ` set (filter si_gps (route_starts encs)) = cell_of t ` {e \<in> set encs. si_gps e \<and> si_route e \<noteq> []}"
proof (intro equalityI subsetI)
  let ?m = "fold keep_start encs (\<lambda>_. None)"
  have starts: "set (route_starts encs) = (\<lambda>r. the (?m r)) ` ref_routes (set encs)"
    by (simp add: route_starts_def set_named_routes)
  {
    fix c assume "c \<in> cell_of t ` set (filter si_gps (route_starts encs))"
    then obtain r where r: "r \<in> ref_routes (set encs)" "si_gps (the (?m r))" "c = cell_of t (the (?m r))"
      using starts by auto
    then show "c \<in> cell_of t ` {e \<in> set encs. si_gps e \<and> si_route e \<noteq> []}"
      using keep_start_spec [of r encs] by (auto simp: ref_routes_def split: option.splits)
  next
    fix c assume "c \<in> cell_of t ` {e \<in> set encs. si_gps e \<and> si_route e \<noteq> []}"
    then obtain e where e: "e \<in> set encs" "si_gps e" "si_route e \<noteq> []" "c = cell_of t e" by blast
    then obtain s where s: "?m (si_route e) = Some s" "s \<in> set encs" "si_route s = si_route e" "si_gps s"
      using keep_start_spec [of "si_route e" encs] by (auto split: option.splits)
    have "s \<in> set (route_starts encs)" using starts s(1) e(1,3) by (force simp: ref_routes_def)
    moreover have "cell_of t s = c" using assms s e unfolding one_start_cell_def by metis
    ultimately show "c \<in> cell_of t ` set (filter si_gps (route_starts encs))" using s(4) by auto
  }
qed

lemma spread_points:
  assumes "one_start_cell t (set encs)"
  shows "points (compute_cross_route_geo_spread encs t) = ref_spread (set encs) t"
proof -
  have "length (remdups (map (cell_of t) (filter si_gps (route_starts encs))))
      = card (cell_of t ` {e \<in> set encs. si_gps e \<and> si_route e \<noteq> []})"
    unfolding located_cells [OF assms, symmetric] by (metis length_remdups_card_conv set_map)
  then show ?thesis
    by (auto simp: compute_cross_route_geo_spread_def points_def ref_spread_def Let_def cell_of_def [abs_def])
qed

lemma keep_earliest_apply:
  "r \<noteq> [] \<Longrightarrow> keep_earliest e m r =
     (if si_route e = r \<and> si_first e \<noteq> zero_time
      then Some (case m r of None \<Rightarrow> si_first e | Some c \<Rightarrow> min (si_first e) c) else m r)"
  by (auto simp: keep_earliest_def split: option.splits)

lemma keep_earliest_spec:
  assumes "r \<noteq> []"
  shows "fold keep_earliest encs (\<lambda>_. None) r
     = (if route_times (set encs) r = {} then None else Some (Min (route_times (set encs) r)))"
proof (induction encs rule: rev_induct)
  case Nil
  then show ?case by (simp add: route_times_def)
next
  case (snoc e encs)
  have fin: "finite (route_times (set encs) r)" by (simp add: route_times_def)
  have step: "route_times (set (encs @ [e])) r
      = (if si_route e = r \<and> si_first e \<noteq> zero_time then insert (si_first e) (route_times (set encs) r)
         else route_times (set encs) r)"
    by (auto simp: route_times_def)
  show ?case
    using snoc fin assms unfolding step by (simp add: keep_earliest_apply)
qed

text \<open>
  The sweep counts the neighbours within the window; in a sorted list some neighbours are that
  close as soon as any two elements are.
\<close>

lemma sweep_count:
  "fst (sweep w ts (n, mg)) = n + int (length (filter (\<lambda>(a, b). time_sub b a \<le> w) (zip ts (tl ts))))"
  by (induction w ts "(n, mg)" arbitrary: n mg rule: sweep.induct) (simp_all add: Let_def)

lemma sweep_found:
  "fst (sweep w ts (0, mg)) \<noteq> 0 \<longleftrightarrow> (\<exists>i. Suc i < length ts \<and> time_sub (ts ! Suc i) (ts ! i) \<le> w)"
proof -
  have "set (zip ts (tl ts)) = {(ts ! i, ts ! Suc i) | i. Suc i < length ts}" by (cases ts) (auto simp: set_zip)
  then show ?thesis unfolding sweep_count by (auto simp: filter_empty_conv)
qed

lemma neighbours_closest:
  assumes "sorted ts" and "i < j" and "j < length ts" and "time_sub (ts ! j) (ts ! i) \<le> w"
  shows "Suc i < length ts \<and> time_sub (ts ! Suc i) (ts ! i) \<le> w"
proof -
  have "ts ! Suc i \<le> ts ! j" using assms(1-3) by (simp add: sorted_iff_nth_mono)
  then have "time_sub (ts ! Suc i) (ts ! i) \<le> time_sub (ts ! j) (ts ! i)" by (simp add: time_sub_def)
  with assms show ?thesis by simp
qed

lemma sweep_sorted:
  assumes "sorted ts"
  shows "fst (sweep w ts (0, mg)) \<noteq> 0 \<longleftrightarrow> (\<exists>i j. i < j \<and> j < length ts \<and> time_sub (ts ! j) (ts ! i) \<le> w)"
  using neighbours_closest [OF assms] unfolding sweep_found by (meson lessI)

definition timed_routes :: "sighting list \<Rightarrow> (string \<times> gotime) list" where
  "timed_routes encs =
     sort_key snd (map (\<lambda>r. (r, Min (route_times (set encs) r)))
       (filter (\<lambda>r. route_times (set encs) r \<noteq> {}) (named_routes encs)))"

lemma earliest_starts_timed: "earliest_starts encs = map snd (timed_routes encs)"
proof -
  have "List.map_filter (fold keep_earliest encs (\<lambda>_. None)) (named_routes encs)
      = List.map_filter (\<lambda>r. if route_times (set encs) r \<noteq> {} then Some (Min (route_times (set encs) r)) else None)
          (named_routes encs)"
    by (intro map_filter_same) (auto simp: keep_earliest_spec named_routes_def)
  also have "\<dots> = map snd (map (\<lambda>r. (r, Min (route_times (set encs) r)))
       (filter (\<lambda>r. route_times (set encs) r \<noteq> {}) (named_routes encs)))"
    by (simp add: map_filter_guard)
  finally have eq: "List.map_filter (fold keep_earliest encs (\<lambda>_. None)) (named_routes encs)
      = map snd (map (\<lambda>r. (r, Min (route_times (set encs) r)))
          (filter (\<lambda>r. route_times (set encs) r \<noteq> {}) (named_routes encs)))" .
  show ?thesis
    unfolding earliest_starts_def timed_routes_def Let_def eq
    by (intro properties_for_sort) (simp_all add: multiset.map_comp)
qed

lemma timed_routes_facts:
  "sorted (map snd (timed_routes encs))" "distinct (map fst (timed_routes encs))"
  "set (timed_routes encs) = {(r, Min (route_times (set encs) r)) | r. r \<in> ref_routes (set encs) \<and> route_times (set encs) r \<noteq> {}}"
  by (auto simp: timed_routes_def distinct_map inj_on_def set_named_routes comp_def)
    (simp add: named_routes_def)

lemma pair_in_order:
  fixes f :: "nat \<Rightarrow> int"
  shows "(\<exists>i < n. \<exists>j < n. i \<noteq> j \<and> \<bar>f i - f j\<bar> \<le> w) \<longleftrightarrow> (\<exists>i j. i < j \<and> j < n \<and> \<bar>f j - f i\<bar> \<le> w)"
proof
  assume "\<exists>i < n. \<exists>j < n. i \<noteq> j \<and> \<bar>f i - f j\<bar> \<le> w"
  then obtain i j where ij: "i < n" "j < n" "i \<noteq> j" "\<bar>f i - f j\<bar> \<le> w" by blast
  then have "min i j < max i j \<and> max i j < n \<and> \<bar>f (max i j) - f (min i j)\<bar> \<le> w"
    by (cases "i < j") (simp_all add: min_def max_def abs_minus_commute)
  then show "\<exists>i j. i < j \<and> j < n \<and> \<bar>f j - f i\<bar> \<le> w" by blast
next
  assume "\<exists>i j. i < j \<and> j < n \<and> \<bar>f j - f i\<bar> \<le> w"
  then obtain i j where "i < j" "j < n" "\<bar>f j - f i\<bar> \<le> w" by blast
  then show "\<exists>i < n. \<exists>j < n. i \<noteq> j \<and> \<bar>f i - f j\<bar> \<le> w"
    by (intro exI [of _ i] conjI exI [of _ j]) (simp_all add: abs_minus_commute)
qed

lemma close_routes_timed:
  assumes "0 \<le> w" and "w < max_duration"
  shows "close_routes (set encs) w \<longleftrightarrow>
    (\<exists>i j. i < j \<and> j < length (earliest_starts encs) \<and> time_sub (earliest_starts encs ! j) (earliest_starts encs ! i) \<le> w)"
    (is "_ \<longleftrightarrow> ?pair")
proof -
  let ?ps = "timed_routes encs"
  let ?ts = "earliest_starts encs"
  note ps = timed_routes_facts [of encs]
  have ts: "?ts = map snd ?ps" by (rule earliest_starts_timed)
  have within: "time_sub x y \<le> w \<longleftrightarrow> x - y \<le> w" for x y
    using time_sub_gt [of w x y] assms by (simp add: min_duration_def not_less [symmetric])
  have "close_routes (set encs) w \<longleftrightarrow> (\<exists>p \<in> set ?ps. \<exists>q \<in> set ?ps. fst p \<noteq> fst q \<and> \<bar>snd p - snd q\<bar> \<le> w)"
    unfolding close_routes_def ps(3) by fastforce
  also have "\<dots> \<longleftrightarrow> (\<exists>i < length ?ps. \<exists>j < length ?ps. i \<noteq> j \<and> \<bar>?ts ! i - ?ts ! j\<bar> \<le> w)"
  proof -
    have idx: "fst (?ps ! i) \<noteq> fst (?ps ! j) \<longleftrightarrow> i \<noteq> j" if "i < length ?ps" "j < length ?ps" for i j
      using nth_eq_iff_index_eq [OF ps(2), of i j] that by simp
    then show ?thesis unfolding bex_set_nth ts by (intro ex_cong1 conj_cong refl) (simp_all add: idx)
  qed
  also have "\<dots> \<longleftrightarrow> (\<exists>i j. i < j \<and> j < length ?ts \<and> \<bar>?ts ! j - ?ts ! i\<bar> \<le> w)"
    using pair_in_order [of "length ?ps" "(!) ?ts" w] by (simp add: ts)
  also have "\<dots> \<longleftrightarrow> ?pair"
  proof -
    have "\<bar>?ts ! j - ?ts ! i\<bar> = ?ts ! j - ?ts ! i" if "i < j" "j < length ?ts" for i j
      using sorted_nth_mono [OF ps(1), of i j] that by (simp add: ts)
    then show ?thesis unfolding within by (metis (no_types, lifting))
  qed
  finally show ?thesis .
qed

lemma timing_points:
  assumes "dur_hours (th_timing_hours t) < max_duration"
  shows "points (compute_cross_route_timing encs t) = ref_timing (set encs) t"
proof (cases "0 < th_timing_hours t")
  case True
  let ?w = "dur_hours (th_timing_hours t)"
  have "0 \<le> ?w" using True by (simp add: dur_hours_def trunc_def hour_def)
  have "sorted (earliest_starts encs)" by (simp add: earliest_starts_timed timed_routes_facts(1))
  note found = sweep_sorted [OF this, of ?w "- 1", folded close_routes_timed [OF \<open>0 \<le> ?w\<close> assms]]
  have none: "encs = [] \<or> length (earliest_starts encs) < 2 \<Longrightarrow> \<not> close_routes (set encs) ?w"
    unfolding close_routes_timed [OF \<open>0 \<le> ?w\<close> assms] by (auto simp: earliest_starts_def named_routes_def)
  show ?thesis
    using True none found
    by (auto simp: compute_cross_route_timing_def points_def ref_timing_def Let_def split: prod.splits)
next
  case False
  then show ?thesis by (simp add: compute_cross_route_timing_def points_def ref_timing_def)
qed

lemma sum_rule_points:
  "sum_list (map co_points (rule_components encs t)) =
     points (compute_within_route_turns encs t) + points (compute_within_route_persistence encs t)
     + points (compute_cross_route_count encs t) + points (compute_cross_route_geo_spread encs t)
     + points (compute_cross_route_timing encs t)"
  by (simp add: rule_components_def map_filter_simps points_def split: option.splits)

lemma raw_total:
  assumes "one_start_cell t (set encs)" and "dur_hours (th_timing_hours t) < max_duration"
  shows "sum_list (map co_points (rule_components encs t)) = ref_total (set encs) t"
  using assms
  by (simp add: sum_rule_points ref_total_def turns_points persistence_points count_points spread_points timing_points)

section \<open>Bounds of the documented thresholds\<close>

lemma default_rule_bounds:
  "compute_within_route_turns encs default_thresholds = Some c \<Longrightarrow> 0 < co_points c \<and> co_points c \<le> 4"
  "compute_within_route_persistence encs default_thresholds = Some c \<Longrightarrow> 1 \<le> co_points c \<and> co_points c \<le> 3 / 2"
  "compute_cross_route_count encs default_thresholds = Some c \<Longrightarrow> 3 / 2 \<le> co_points c \<and> co_points c \<le> 5 / 2"
  "compute_cross_route_geo_spread encs default_thresholds = Some c \<Longrightarrow> co_points c = 2"
  "compute_cross_route_timing encs default_thresholds = Some c \<Longrightarrow> co_points c = 1"
  by (auto simp: compute_within_route_turns_def compute_within_route_persistence_def compute_cross_route_count_def
      compute_cross_route_geo_spread_def compute_cross_route_timing_def default_thresholds_def Let_def
      split: option.splits if_splits prod.splits)

lemma default_points:
  fixes encs
  defines "p \<equiv> (\<lambda>rule. points (rule encs default_thresholds))"
  shows "0 \<le> p compute_within_route_turns \<and> p compute_within_route_turns \<le> 4"
    and "0 \<le> p compute_within_route_persistence \<and> p compute_within_route_persistence \<le> 3 / 2"
    and "0 \<le> p compute_cross_route_count \<and> p compute_cross_route_count \<le> 5 / 2"
    and "0 \<le> p compute_cross_route_geo_spread \<and> p compute_cross_route_geo_spread \<le> 2"
    and "0 \<le> p compute_cross_route_timing \<and> p compute_cross_route_timing \<le> 1"
  using default_rule_bounds [of encs] by (fastforce simp: p_def points_def split: option.splits)+

lemma default_effective [simp]: "effective_severity_buckets (th_buckets default_thresholds) = (2, 4, 6, 8)"
  by (simp add: effective_severity_buckets_def default_thresholds_def default_buckets_def)

lemma default_two_rules:
  assumes "length (rule_components encs default_thresholds) < 3"
  shows "sum_list (map co_points (rule_components encs default_thresholds)) \<le> 13 / 2"
  using assms default_rule_bounds [of encs]
  by (auto simp: rule_components_def map_filter_simps split: option.splits)

lemma severity_range: "severity_for_score_buckets x b \<in> {0, 2, 3, 4, 5}"
  by (auto simp: severity_for_score_buckets_def split: prod.splits)

lemma score_severity_range: "sc_severity (score inp) \<in> {0, 2, 3, 4, 5}"
  using severity_range by (simp add: score_def Let_def)

section \<open>Example inputs\<close>

text \<open>One encounter of twenty minutes and five turns, without GPS.\<close>

definition demo_sighting :: sighting where
  "demo_sighting = \<lparr>si_id = 1, si_route = ''r'', si_first = 0, si_last = 20 * minute, si_turns = 5, si_lat = 0, si_lng = 0,
     si_gps = False\<rparr>"

definition demo_input :: "thresholds \<Rightarrow> bool \<Rightarrow> scoring_input" where
  "demo_input t wl = \<lparr>in_encounters = [demo_sighting], in_whitelisted = wl, in_thresholds = t\<rparr>"

definition located :: "string \<Rightarrow> real \<Rightarrow> sighting" where
  "located r lng = \<lparr>si_id = 1, si_route = r, si_first = zero_time, si_last = zero_time, si_turns = 0, si_lat = 0, si_lng = lng,
     si_gps = True\<rparr>"

lemma equator_cells: "geo_cell_key 0 0 5 = ''0|0''" "geo_cell_key 0 1 5 = ''0|22''"
proof -
  have "show_int 0 = ''0''" "show_int 22 = ''22''" by code_simp+
  then show "geo_cell_key 0 0 5 = ''0|0''" "geo_cell_key 0 1 5 = ''0|22''"
    by (simp_all add: geo_cell_key_def km_per_deg_lat_def Let_def)
qed

text \<open>
  Without that condition the order does matter: the start kept for a route is the first one with
  GPS, and the same three encounters score 2 in one order and 0 in another.
\<close>

lemma score_order_matters:
  "sc_total (score \<lparr>in_encounters = [located ''r'' 1, located ''r'' 0, located ''q'' 0], in_whitelisted = False,
      in_thresholds = default_thresholds\<rparr>) = 2"
  "sc_total (score \<lparr>in_encounters = [located ''r'' 0, located ''r'' 1, located ''q'' 0], in_whitelisted = False,
      in_thresholds = default_thresholds\<rparr>) = 0"
  by (simp_all add: score_def Let_def rule_components_def map_filter_simps compute_within_route_turns_def
      compute_within_route_persistence_def compute_cross_route_count_def compute_cross_route_geo_spread_def
      compute_cross_route_timing_def default_thresholds_def located_def keep_first_max_def named_routes_def
      usable_span_def route_starts_def keep_start_def earliest_starts_def keep_earliest_def equator_cells to_int64_def)

text \<open>
  A first bucket that starts at 0, which the tuning endpoint accepts, makes every plate at least
  severity 2, a whitelisted one too.
\<close>

lemma whitelist_zero_bucket:
  assumes "th_buckets (in_thresholds inp) = (0, b3, b4, b5)" and "0 < b3" and "b3 \<le> b4" and "b4 \<le> b5" and "in_whitelisted inp"
  shows "sc_total (score inp) = 0 \<and> sc_severity (score inp) = 2"
  using assms by (simp add: score_def Let_def severity_for_score_buckets_def effective_severity_buckets_def)

section \<open>Properties\<close>



text \<open>With the documented thresholds the total lies between 0 and 11 and the severity is 0 or 2 to 5;
  the heuristic never emits severity 1. No rule alone goes beyond severity 3, and severity 5
  takes at least three rules.\<close>

theorem default_score_bounds:
  assumes "in_thresholds inp = default_thresholds"
  shows "0 \<le> sc_total (score inp) \<and> sc_total (score inp) \<le> 11 \<and> sc_severity (score inp) \<in> {0, 2, 3, 4, 5}
    \<and> (length (sc_components (score inp)) \<le> 1 \<longrightarrow> sc_severity (score inp) \<le> 3)
    \<and> (sc_severity (score inp) = 5 \<longrightarrow> 3 \<le> length (sc_components (score inp)))"
proof -
  let ?raw = "sum_list (map co_points (rule_components (in_encounters inp) default_thresholds))"
  have raw: "0 \<le> ?raw" "?raw \<le> 11" unfolding sum_rule_points using default_points [of "in_encounters inp"] by auto
  have one: "?raw \<le> 4" if "length (rule_components (in_encounters inp) default_thresholds) \<le> 1"
    using that default_rule_bounds [of "in_encounters inp"]
    by (auto simp: rule_components_def map_filter_simps split: option.splits)
  have three: "3 \<le> length (rule_components (in_encounters inp) default_thresholds)" if "8 \<le> ?raw"
    using that default_two_rules [of "in_encounters inp"] by (cases "length (rule_components (in_encounters inp) default_thresholds) < 3") auto
  show ?thesis
    using assms raw one three by (auto simp: score_def Let_def severity_for_score_buckets_def)
qed

theorem default_score_bounds_witness: "sc_total (score (demo_input default_thresholds False)) \<le> 11"
  using default_score_bounds [of "demo_input default_thresholds False"] by (simp add: demo_input_def)

text \<open>Whitelisting silences a plate and keeps the explanation: when every severity bucket starts above 0,
  the total and the severity are 0, and the components are those of the plate without the
  whitelist entry followed by one that records the severity it would have had.\<close>

theorem whitelist_silences:
  assumes "in_whitelisted inp" and "effective_severity_buckets (th_buckets (in_thresholds inp)) = (b2, b3, b4, b5)"
    and "0 < b2" and "0 < b3" and "0 < b4" and "0 < b5"
  shows "sc_total (score inp) = 0 \<and> sc_severity (score inp) = 0
    \<and> (\<exists>c. sc_components (score inp) = sc_components (score (inp\<lparr>in_whitelisted := False\<rparr>)) @ [c]
        \<and> co_name c = ''whitelist_suppression''
        \<and> map_of (co_evidence c) ''would_severity'' = Some (EvInt (sc_severity (score (inp\<lparr>in_whitelisted := False\<rparr>)))))"
  using assms by (simp add: score_def Let_def severity_for_score_buckets_def)

theorem whitelist_silences_witness: "sc_severity (score (demo_input default_thresholds True)) = 0"
  using whitelist_silences [of "demo_input default_thresholds True" 2 4 6 8] by (simp add: demo_input_def)

end
