(* ===== verification/WatchlistDb.thy ===== *)
theory WatchlistDb imports Prelude "HOL-Library.AList" begin

text \<open>
  The table \<open>plate_watchlist\<close> and the statements of \<open>internal/db/alpr_watchlist.sql.go\<close>: one row
  per plate hash (the unique index), the \<open>BIGSERIAL\<close> counter, which an upsert advances even
  when it updates, and the \<open>CHECK\<close> on the severity. Rows keyed by a vehicle signature, whose
  plate hash is NULL, are another component's and are left out. A statement takes the
  database's \<open>now()\<close>.
\<close>

section \<open>Rows\<close>

datatype watch_kind = Whitelist | Alerted | Note

record watch_row =
  wr_id :: int
  wr_label :: "string option"
  wr_kind :: watch_kind
  wr_severity :: "int option"
  wr_first :: "gotime option"
  wr_last :: "gotime option"
  wr_acked :: "gotime option"
  wr_notes :: "string option"
  wr_created :: gotime
  wr_updated :: gotime

record watch_db =
  wd_rows :: "(string \<times> watch_row) list"
  wd_next :: int

datatype watch_sql = WatchSqlFailed | WatchCheckViolated

definition look_watch :: "watch_db \<Rightarrow> string \<Rightarrow> watch_row option" where
  "look_watch d h = map_of (wd_rows d) h"

definition put_watch :: "string \<Rightarrow> watch_row \<Rightarrow> watch_db \<Rightarrow> watch_db" where
  "put_watch h r d = d\<lparr>wd_rows := AList.update h r (wd_rows d)\<rparr>"

definition remove_row :: "string \<Rightarrow> watch_db \<Rightarrow> watch_db" where
  "remove_row h d = d\<lparr>wd_rows := AList.delete h (wd_rows d)\<rparr>"

interpretation watch_table: keyed_store_del look_watch put_watch remove_row
  by unfold_locales (simp_all add: look_watch_def put_watch_def remove_row_def update_conv' delete_conv')

lemmas watch_look = watch_table.look_put watch_table.look_del

section \<open>Statements on one row\<close>

text \<open>The statements that answer with the number of rows affected.\<close>

definition update_watch :: "string \<Rightarrow> (watch_row \<Rightarrow> watch_row) \<Rightarrow> watch_db \<Rightarrow> nat \<times> watch_db" where
  "update_watch h f d = (case look_watch d h of None \<Rightarrow> (0, d) | Some r \<Rightarrow> (1, put_watch h (f r) d))"

definition ack_watchlist :: "gotime \<Rightarrow> string \<Rightarrow> gotime \<Rightarrow> watch_db \<Rightarrow> nat \<times> watch_db" where
  "ack_watchlist dbnow h t d = update_watch h (\<lambda>r. r\<lparr>wr_acked := Some t, wr_updated := dbnow\<rparr>) d"

definition unack_watchlist :: "gotime \<Rightarrow> string \<Rightarrow> watch_db \<Rightarrow> nat \<times> watch_db" where
  "unack_watchlist dbnow h d = update_watch h (\<lambda>r. r\<lparr>wr_acked := None, wr_updated := dbnow\<rparr>) d"

definition update_watchlist_notes :: "gotime \<Rightarrow> string \<Rightarrow> string option \<Rightarrow> watch_db \<Rightarrow> nat \<times> watch_db" where
  "update_watchlist_notes dbnow h n d = update_watch h (\<lambda>r. r\<lparr>wr_notes := n, wr_updated := dbnow\<rparr>) d"

definition remove_watchlist :: "string \<Rightarrow> watch_db \<Rightarrow> nat \<times> watch_db" where
  "remove_watchlist h d = (case look_watch d h of None \<Rightarrow> (0, d) | Some _ \<Rightarrow> (1, remove_row h d))"

section \<open>Upserts\<close>

text \<open>\<open>INSERT ... ON CONFLICT DO UPDATE\<close>: the proposed row, and what an existing row becomes.\<close>

definition severity_check :: "int option \<Rightarrow> bool" where
  "severity_check s = (case s of None \<Rightarrow> True | Some n \<Rightarrow> 1 \<le> n \<and> n \<le> 5)"

definition upsert_watch ::
  "string \<Rightarrow> watch_row \<Rightarrow> (watch_row \<Rightarrow> watch_row) \<Rightarrow> watch_db \<Rightarrow> watch_sql + watch_db" where
  "upsert_watch h fresh f d =
     (let row = (case look_watch d h of None \<Rightarrow> fresh\<lparr>wr_id := wd_next d\<rparr> | Some r \<Rightarrow> f r) in
      if severity_check (wr_severity fresh) \<and> severity_check (wr_severity row)
      then Inr (put_watch h row (d\<lparr>wd_next := wd_next d + 1\<rparr>)) else Inl WatchCheckViolated)"

definition upsert_watchlist_whitelist ::
  "gotime \<Rightarrow> string \<Rightarrow> string option \<Rightarrow> string option \<Rightarrow> watch_db \<Rightarrow> watch_sql + watch_db" where
  "upsert_watchlist_whitelist dbnow h label notes d =
     upsert_watch h
       \<lparr>wr_id = 0, wr_label = label, wr_kind = Whitelist, wr_severity = None, wr_first = None, wr_last = None,
        wr_acked = None, wr_notes = notes, wr_created = dbnow, wr_updated = dbnow\<rparr>
       (\<lambda>r. r\<lparr>wr_kind := Whitelist, wr_label := sql_coalesce label (wr_label r), wr_severity := None, wr_first := None,
          wr_last := None, wr_acked := None, wr_notes := sql_coalesce notes (wr_notes r), wr_updated := dbnow\<rparr>) d"

definition alerted_row :: "gotime \<Rightarrow> string option \<Rightarrow> int option \<Rightarrow> string option \<Rightarrow> gotime option \<Rightarrow> watch_row" where
  "alerted_row dbnow label sev notes al =
     \<lparr>wr_id = 0, wr_label = label, wr_kind = Alerted, wr_severity = sev, wr_first = al, wr_last = al,
      wr_acked = None, wr_notes = notes, wr_created = dbnow, wr_updated = dbnow\<rparr>"

definition upsert_watchlist_alerted ::
  "gotime \<Rightarrow> string \<Rightarrow> string option \<Rightarrow> int option \<Rightarrow> string option \<Rightarrow> gotime option \<Rightarrow> watch_db \<Rightarrow> watch_sql + watch_db" where
  "upsert_watchlist_alerted dbnow h label sev notes al d =
     upsert_watch h (alerted_row dbnow label sev notes al)
       (\<lambda>r. r\<lparr>wr_kind := Alerted, wr_severity := sev, wr_label := sql_coalesce label (wr_label r),
          wr_first := sql_coalesce (wr_first r) al, wr_last := al, wr_acked := None,
          wr_notes := sql_coalesce notes (wr_notes r), wr_updated := dbnow\<rparr>) d"

text \<open>\<open>GREATEST\<close> ignores a NULL argument.\<close>

definition sql_greatest :: "int option \<Rightarrow> int option \<Rightarrow> int option" where
  "sql_greatest a b = (case (a, b) of (Some x, Some y) \<Rightarrow> Some (max x y) | (None, y) \<Rightarrow> y | (x, None) \<Rightarrow> x)"

definition upsert_watchlist_alerted_preserve_ack ::
  "gotime \<Rightarrow> string \<Rightarrow> string option \<Rightarrow> int option \<Rightarrow> string option \<Rightarrow> gotime option \<Rightarrow> watch_db \<Rightarrow> watch_sql + watch_db" where
  "upsert_watchlist_alerted_preserve_ack dbnow h label sev notes al d =
     upsert_watch h (alerted_row dbnow label sev notes al)
       (\<lambda>r. r\<lparr>wr_kind := Alerted,
          wr_severity := sql_greatest (Some (case wr_severity r of None \<Rightarrow> 0 | Some s \<Rightarrow> s)) sev,
          wr_label := sql_coalesce label (wr_label r), wr_first := sql_coalesce (wr_first r) al, wr_last := al,
          wr_notes := sql_coalesce notes (wr_notes r), wr_updated := dbnow\<rparr>) d"

section \<open>Listings\<close>

definition newest_alert_key :: "string \<times> watch_row \<Rightarrow> (int \<times> int) \<times> int" where
  "newest_alert_key p =
     ((case wr_last (snd p) of None \<Rightarrow> (1, 0) | Some t \<Rightarrow> (0, - t)), - wr_id (snd p))"

definition page :: "int \<Rightarrow> int \<Rightarrow> 'a list \<Rightarrow> 'a list option" where
  "page limit offset xs = (if limit < 0 \<or> offset < 0 then None else Some (take (nat limit) (drop (nat offset) xs)))"

text \<open>\<open>acked\<close>: \<open>None\<close> is both states. A negative limit or offset is an error.\<close>

definition list_alerts :: "int \<Rightarrow> int \<Rightarrow> bool option \<Rightarrow> watch_db \<Rightarrow> (string \<times> watch_row) list option" where
  "list_alerts limit offset acked d =
     page limit offset (sort_key newest_alert_key
       (filter (\<lambda>p. wr_kind (snd p) = Alerted \<and> (case acked of None \<Rightarrow> True | Some b \<Rightarrow> b = (wr_acked (snd p) \<noteq> None)))
          (wd_rows d)))"

definition list_watchlist_by_kind :: "watch_kind \<Rightarrow> int \<Rightarrow> int \<Rightarrow> watch_db \<Rightarrow> (string \<times> watch_row) list option" where
  "list_watchlist_by_kind k limit offset d =
     page limit offset (sort_key (\<lambda>p. (- wr_updated (snd p), - wr_id (snd p))) (filter (\<lambda>p. wr_kind (snd p) = k) (wd_rows d)))"

definition open_alert :: "watch_row \<Rightarrow> bool" where
  "open_alert r \<longleftrightarrow> wr_kind r = Alerted \<and> wr_acked r = None"

definition count_unacked_alerts :: "watch_db \<Rightarrow> int" where
  "count_unacked_alerts d = int (length (filter (\<lambda>p. open_alert (snd p)) (wd_rows d)))"

definition max_open_severity :: "watch_db \<Rightarrow> int" where
  "max_open_severity d =
     (case fold (\<lambda>p m. if open_alert (snd p) then sql_greatest m (wr_severity (snd p)) else m) (wd_rows d) None of
        None \<Rightarrow> 0 | Some s \<Rightarrow> s)"

text \<open>The plates the retention pass treats as flagged. A comparison with a NULL severity does not hold.\<close>

definition flagged_row :: "watch_row \<Rightarrow> bool" where
  "flagged_row r \<longleftrightarrow> wr_kind r = Alerted \<and> (wr_acked r = None \<or> (case wr_severity r of None \<Rightarrow> False | Some s \<Rightarrow> 4 \<le> s))"

definition list_flagged_plate_hashes :: "watch_db \<Rightarrow> string list" where
  "list_flagged_plate_hashes d = map fst (filter (\<lambda>p. flagged_row (snd p)) (wd_rows d))"

section \<open>Well-formed tables\<close>

text \<open>
  One row per hash; a whitelisted plate carries no alert data, a note no severity; an alerted one
  has a severity of the heuristic and both alert times.
\<close>

definition row_wf :: "watch_row \<Rightarrow> bool" where
  "row_wf r \<longleftrightarrow>
     (case wr_kind r of
        Whitelist \<Rightarrow> wr_severity r = None \<and> wr_first r = None \<and> wr_last r = None
      | Alerted \<Rightarrow> (\<exists>s. wr_severity r = Some s \<and> 2 \<le> s \<and> s \<le> 5) \<and> wr_first r \<noteq> None \<and> wr_last r \<noteq> None
      | Note \<Rightarrow> wr_severity r = None)"

definition watch_wf :: "watch_db \<Rightarrow> bool" where
  "watch_wf d \<longleftrightarrow> distinct (map fst (wd_rows d)) \<and> (\<forall>h r. look_watch d h = Some r \<longrightarrow> row_wf r)"

lemma put_watch_wf [inv_intros]: "watch_wf d \<Longrightarrow> row_wf r \<Longrightarrow> watch_wf (put_watch h r d)"
  by (auto simp: watch_wf_def watch_look) (simp add: put_watch_def distinct_update)

lemma remove_row_wf [inv_intros]: "watch_wf d \<Longrightarrow> watch_wf (remove_row h d)"
  by (auto simp: watch_wf_def watch_look split: if_splits) (simp add: remove_row_def distinct_delete)

lemma next_wf [simp]: "watch_wf (d\<lparr>wd_next := n\<rparr>) = watch_wf d"
  by (simp add: watch_wf_def look_watch_def)

lemma look_next [simp]: "look_watch (d\<lparr>wd_next := n\<rparr>) h = look_watch d h"
  by (simp add: look_watch_def)

lemma watch_wf_look: "watch_wf d \<Longrightarrow> look_watch d h = Some r \<Longrightarrow> row_wf r"
  by (simp add: watch_wf_def)

lemma update_watch_wf [inv_intros]:
  "watch_wf d \<Longrightarrow> (\<And>r. row_wf r \<Longrightarrow> row_wf (f r)) \<Longrightarrow> update_watch h f d = (n, d') \<Longrightarrow> watch_wf d'"
  by (auto simp: update_watch_def watch_wf_look intro: put_watch_wf split: option.splits)

lemma upsert_watch_wf [inv_intros]:
  assumes "watch_wf d" and "\<And>i. row_wf (fresh\<lparr>wr_id := i\<rparr>)" and "\<And>r. row_wf r \<Longrightarrow> row_wf (f r)"
    and "upsert_watch h fresh f d = Inr d'"
  shows "watch_wf d'"
proof -
  have "row_wf (case look_watch d h of None \<Rightarrow> fresh\<lparr>wr_id := wd_next d\<rparr> | Some r \<Rightarrow> f r)"
    using assms(1-3) by (auto simp: watch_wf_def split: option.splits)
  then show ?thesis using assms(1,4) by (auto simp: upsert_watch_def Let_def intro: put_watch_wf split: if_splits)
qed

lemma update_watch_look:
  "update_watch h f d = (n, d') \<Longrightarrow> look_watch d' k = (if k = h then map_option f (look_watch d h) else look_watch d k)"
  by (auto simp: update_watch_def watch_look split: option.splits)

lemma upsert_watch_look:
  "upsert_watch h fresh f d = Inr d' \<Longrightarrow> look_watch d' k =
     (if k = h then Some (case look_watch d h of None \<Rightarrow> fresh\<lparr>wr_id := wd_next d\<rparr> | Some r \<Rightarrow> f r) else look_watch d k)"
  by (auto simp: upsert_watch_def Let_def watch_look split: if_splits)

lemma upsert_watch_ok:
  "severity_check (wr_severity fresh) \<Longrightarrow> (\<And>r. look_watch d h = Some r \<Longrightarrow> severity_check (wr_severity (f r))) \<Longrightarrow>
     \<exists>d'. upsert_watch h fresh f d = Inr d'"
  by (auto simp: upsert_watch_def Let_def split: option.splits)

end
