(* ===== verification/AlertWorker.thy ===== *)
theory AlertWorker imports Heuristic WatchlistDb Settings begin

text \<open>
  The heuristic worker of \<open>internal/alpr/heuristic/worker.go\<close>: reading the encounters, the
  watchlist row and the thresholds, scoring, and writing the audit event and the watchlist row.
  \<open>EvaluatePlate\<close> is cut where other parties can act: \<open>evaluate_load\<close> ends with the score,
  \<open>evaluate_commit\<close> is the rest. The goroutines of \<open>Run\<close> are not modelled; two evaluations in
  flight are two loads and two commits in some order. Metrics and logging are left out.
\<close>

section \<open>Inputs\<close>

text \<open>A row of the encounter query, with the GPS of the detection that opened the encounter.\<close>

record enc_view =
  ev_id :: int
  ev_hash :: string
  ev_route :: string
  ev_first :: gotime
  ev_last :: gotime
  ev_turns :: int
  ev_lat :: "real option"
  ev_lng :: "real option"

definition list_encounters_in_window :: "string \<Rightarrow> gotime \<Rightarrow> gotime \<Rightarrow> enc_view list \<Rightarrow> enc_view list" where
  "list_encounters_in_window h since until rows =
     sort_key (\<lambda>r. (- ev_last r, - ev_id r))
       (filter (\<lambda>r. ev_hash r = h \<and> since \<le> ev_last r \<and> ev_first r \<le> until) rows)"

definition encounter_from_row :: "enc_view \<Rightarrow> sighting" where
  "encounter_from_row r =
     (case (ev_lat r, ev_lng r) of
        (Some lat, Some lng) \<Rightarrow> \<lparr>si_id = ev_id r, si_route = ev_route r, si_first = ev_first r, si_last = ev_last r,
          si_turns = ev_turns r, si_lat = lat, si_lng = lng, si_gps = True\<rparr>
      | _ \<Rightarrow> \<lparr>si_id = ev_id r, si_route = ev_route r, si_first = ev_first r, si_last = ev_last r,
          si_turns = ev_turns r, si_lat = 0, si_lng = 0, si_gps = False\<rparr>)"

text \<open>The readers with a default: a missing row, a failing read and an unreadable value give it.\<close>

definition worker_int_or :: "(setting_query \<Rightarrow> bool) \<Rightarrow> settings_db \<Rightarrow> string \<Rightarrow> int \<Rightarrow> int" where
  "worker_int_or sf d k def =
     (case int_or sf k def d of (v, None) \<Rightarrow> v | (v, Some e) \<Rightarrow> if e = SettingNotFound then v else def)"

definition worker_float_or :: "(setting_query \<Rightarrow> bool) \<Rightarrow> settings_db \<Rightarrow> string \<Rightarrow> real \<Rightarrow> real" where
  "worker_float_or sf d k def =
     (case float_or sf k def d of (v, None) \<Rightarrow> v | (v, Some e) \<Rightarrow> if e = SettingNotFound then v else def)"

definition read_thresholds :: "(setting_query \<Rightarrow> bool) \<Rightarrow> settings_db option \<Rightarrow> thresholds" where
  "read_thresholds sf st =
     (case st of
        None \<Rightarrow> default_thresholds
      | Some d \<Rightarrow>
          (let t = default_thresholds; i = worker_int_or sf d; f = worker_float_or sf d in
           (case th_buckets t of (b2, b3, b4, b5) \<Rightarrow>
           \<lparr>th_turns_min = i ''alpr_heuristic_turns_min'' (th_turns_min t),
            th_turns_cap = f ''alpr_heuristic_turns_points_cap'' (th_turns_cap t),
            th_persist_mid = f ''alpr_heuristic_persistence_minutes_mid'' (th_persist_mid t),
            th_persist_high = f ''alpr_heuristic_persistence_minutes_high'' (th_persist_high t),
            th_persist_mid_points = f ''alpr_heuristic_persistence_mid_points'' (th_persist_mid_points t),
            th_persist_high_points = f ''alpr_heuristic_persistence_high_points'' (th_persist_high_points t),
            th_routes_mid = i ''alpr_heuristic_distinct_routes_min'' (th_routes_mid t),
            th_routes_mid_points = f ''alpr_heuristic_distinct_routes_mid_points'' (th_routes_mid_points t),
            th_routes_high = i ''alpr_heuristic_distinct_routes_high'' (th_routes_high t),
            th_routes_high_points = f ''alpr_heuristic_distinct_routes_high_points'' (th_routes_high_points t),
            th_areas_min = i ''alpr_heuristic_distinct_areas_min'' (th_areas_min t),
            th_areas_points = f ''alpr_heuristic_distinct_areas_points'' (th_areas_points t),
            th_cell_km = f ''alpr_heuristic_area_cell_km'' (th_cell_km t),
            th_timing_hours = f ''alpr_heuristic_timing_window_hours'' (th_timing_hours t),
            th_timing_points = f ''alpr_heuristic_timing_points'' (th_timing_points t),
            th_buckets = (f ''alpr_heuristic_severity_bucket_sev2'' b2, f ''alpr_heuristic_severity_bucket_sev3'' b3,
              f ''alpr_heuristic_severity_bucket_sev4'' b4, f ''alpr_heuristic_severity_bucket_sev5'' b5)\<rparr>)))"

definition lookback_days :: "(setting_query \<Rightarrow> bool) \<Rightarrow> settings_db option \<Rightarrow> int" where
  "lookback_days sf st =
     (case st of
        None \<Rightarrow> 30
      | Some d \<Rightarrow>
          (case int_or sf ''alpr_heuristic_lookback_days'' 30 d of
             (v, None) \<Rightarrow> if v \<le> 0 then 30 else v
           | (_, Some _) \<Rightarrow> 30))"

text \<open>\<open>now.Add(-time.Duration(days) * 24 * time.Hour)\<close>, on 64 bits.\<close>

definition lookback_start :: "gotime \<Rightarrow> int \<Rightarrow> gotime" where
  "lookback_start now days = now + to_int64 (to_int64 (- days * 24) * hour)"

section \<open>The worker's world\<close>

record alert_event =
  ae_hash :: string
  ae_route :: "string option"
  ae_dongle :: "string option"
  ae_severity :: int
  ae_components :: "component list"
  ae_version :: string

record alert_created =
  al_hash :: string
  al_severity :: int
  al_route :: string
  al_dongle :: string
  al_at :: gotime

text \<open>The alerts channel: \<open>None\<close> when it is not wired, otherwise its capacity and what is queued.\<close>

record alert_world =
  aw_watch :: watch_db
  aw_encounters :: "enc_view list"
  aw_settings :: "settings_db option"
  aw_events :: "alert_event list"
  aw_alerts :: "(nat \<times> alert_created list) option"

datatype eval_query = EqEncounters | EqWatch | EqEvent | EqUpsert

datatype eval_error = EvalError string

definition emit_alert :: "alert_created \<Rightarrow> (nat \<times> alert_created list) option \<Rightarrow> (nat \<times> alert_created list) option" where
  "emit_alert e ch = (case ch of None \<Rightarrow> None
     | Some (cap, q) \<Rightarrow> if length q < cap then Some (cap, q @ [e]) else Some (cap, q))"

section \<open>One evaluation\<close>

text \<open>What the evaluation holds when it has scored.\<close>

record decision =
  dc_hash :: string
  dc_now :: gotime
  dc_exists :: bool
  dc_existing :: int
  dc_result :: score_result

definition evaluate_load ::
  "(eval_query \<Rightarrow> bool) \<Rightarrow> (setting_query \<Rightarrow> bool) \<Rightarrow> gotime \<Rightarrow> string \<Rightarrow> alert_world \<Rightarrow> eval_error + decision" where
  "evaluate_load ef sf now h w =
     (let t = read_thresholds sf (aw_settings w);
          since = lookback_start now (lookback_days sf (aw_settings w)) in
      if ef EqEncounters then Inl (EvalError ''list encounters'')
      else
        (let encs = map encounter_from_row (list_encounters_in_window h since now (aw_encounters w)) in
         if ef EqWatch then Inl (EvalError ''get watchlist'')
         else
           (let wl = look_watch (aw_watch w) h;
                white = (case wl of None \<Rightarrow> False | Some r \<Rightarrow> wr_kind r = Whitelist);
                sev = (case wl of None \<Rightarrow> 0 | Some r \<Rightarrow> (case wr_severity r of None \<Rightarrow> 0 | Some s \<Rightarrow> s)) in
            Inr \<lparr>dc_hash = h, dc_now = now, dc_exists = (wl \<noteq> None), dc_existing = sev,
              dc_result = score \<lparr>in_encounters = encs, in_whitelisted = white, in_thresholds = t\<rparr>\<rparr>)))"

definition text_param :: "string \<Rightarrow> string option" where
  "text_param s = (if s \<noteq> [] then Some s else None)"

text \<open>\<open>dbnow\<close> is the database's clock, for \<open>updated_at\<close>.\<close>

definition evaluate_commit ::
  "(eval_query \<Rightarrow> bool) \<Rightarrow> gotime \<Rightarrow> string \<Rightarrow> string \<Rightarrow> decision \<Rightarrow> alert_world \<Rightarrow> eval_error option \<times> alert_world" where
  "evaluate_commit ef dbnow route dongle c w =
     (let sev = sc_severity (dc_result c); h = dc_hash c; now = dc_now c in
      if ef EqEvent then (Some (EvalError ''insert alert event''), w)
      else
        (let w1 = w\<lparr>aw_events := aw_events w @ [\<lparr>ae_hash = h, ae_route = text_param route, ae_dongle = text_param dongle,
               ae_severity = sev, ae_components = sc_components (dc_result c), ae_version = ''v1.0.0''\<rparr>]\<rparr> in
         if sev < 2 then (None, w1)
         else
           (let up = dc_existing c < sev;
                r = (if ef EqUpsert then Inl WatchSqlFailed
                     else if up then upsert_watchlist_alerted dbnow h None (Some sev) None (Some now) (aw_watch w1)
                     else upsert_watchlist_alerted_preserve_ack dbnow h None (Some sev) None (Some now) (aw_watch w1)) in
            (case r of
               Inl _ \<Rightarrow> (Some (EvalError (if up then ''upsert watchlist (upgrade)'' else ''upsert watchlist (preserve ack)'')), w1)
             | Inr d \<Rightarrow>
                 (None, w1\<lparr>aw_watch := d,
                   aw_alerts := (if \<not> dc_exists c \<or> up
                     then emit_alert \<lparr>al_hash = h, al_severity = sev, al_route = route, al_dongle = dongle, al_at = now\<rparr> (aw_alerts w1)
                     else aw_alerts w1)\<rparr>)))))"

definition evaluate_plate ::
  "(eval_query \<Rightarrow> bool) \<Rightarrow> (setting_query \<Rightarrow> bool) \<Rightarrow> gotime \<Rightarrow> gotime \<Rightarrow> string \<Rightarrow> string \<Rightarrow> string \<Rightarrow> alert_world
     \<Rightarrow> eval_error option \<times> alert_world" where
  "evaluate_plate ef sf now dbnow h route dongle w =
     (case evaluate_load ef sf now h w of
        Inl e \<Rightarrow> (Some e, w)
      | Inr c \<Rightarrow> evaluate_commit ef dbnow route dongle c w)"

record dry_run_result =
  dr_prior :: int
  dr_proposed :: int
  dr_whitelisted :: bool

definition evaluate_plate_dry_run ::
  "(eval_query \<Rightarrow> bool) \<Rightarrow> (setting_query \<Rightarrow> bool) \<Rightarrow> gotime \<Rightarrow> string \<Rightarrow> alert_world \<Rightarrow> eval_error + dry_run_result" where
  "evaluate_plate_dry_run ef sf now h w =
     (let t = read_thresholds sf (aw_settings w);
          since = lookback_start now (lookback_days sf (aw_settings w)) in
      if ef EqEncounters then Inl (EvalError ''list encounters'')
      else
        (let encs = map encounter_from_row (list_encounters_in_window h since now (aw_encounters w)) in
         if ef EqWatch then Inl (EvalError ''get watchlist'')
         else
           (let wl = look_watch (aw_watch w) h;
                white = (case wl of None \<Rightarrow> False | Some r \<Rightarrow> wr_kind r = Whitelist);
                sev = (case wl of None \<Rightarrow> 0 | Some r \<Rightarrow> (case wr_severity r of None \<Rightarrow> 0 | Some s \<Rightarrow> s)) in
            Inr \<lparr>dr_prior = sev,
              dr_proposed = sc_severity (score \<lparr>in_encounters = encs, in_whitelisted = white, in_thresholds = t\<rparr>),
              dr_whitelisted = white\<rparr>)))"

text \<open>\<open>alprEnabled\<close>, and what \<open>Run\<close> does with one update when nothing runs concurrently.\<close>

definition alpr_gate :: "(setting_query \<Rightarrow> bool) \<Rightarrow> settings_db option \<Rightarrow> bool" where
  "alpr_gate sf st =
     (case st of None \<Rightarrow> False
      | Some d \<Rightarrow> (case bool_or sf ''alpr_enabled'' False d of (v, None) \<Rightarrow> v | (_, Some _) \<Rightarrow> False))"

fun evaluate_all ::
  "(eval_query \<Rightarrow> bool) \<Rightarrow> (setting_query \<Rightarrow> bool) \<Rightarrow> gotime \<Rightarrow> gotime \<Rightarrow> string \<Rightarrow> string \<Rightarrow> string list \<Rightarrow> alert_world \<Rightarrow> alert_world" where
  "evaluate_all ef sf now dbnow route dongle [] w = w"
| "evaluate_all ef sf now dbnow route dongle (h # hs) w =
     evaluate_all ef sf now dbnow route dongle hs (snd (evaluate_plate ef sf now dbnow h route dongle w))"

definition handle_update ::
  "(eval_query \<Rightarrow> bool) \<Rightarrow> (setting_query \<Rightarrow> bool) \<Rightarrow> gotime \<Rightarrow> gotime \<Rightarrow> string \<Rightarrow> string \<Rightarrow> string list \<Rightarrow> alert_world \<Rightarrow> alert_world" where
  "handle_update ef sf now dbnow route dongle hs w =
     (if alpr_gate sf (aw_settings w) then evaluate_all ef sf now dbnow route dongle hs w else w)"

section \<open>The contract of an evaluation\<close>

text \<open>A plate as the operator sees it; an alert has its severity and whether it was acknowledged.\<close>

datatype plate_state = Unknown | Whitelisted | Noted | Alert int bool

definition plate_state_of :: "watch_row option \<Rightarrow> plate_state" where
  "plate_state_of r =
     (case r of None \<Rightarrow> Unknown
      | Some r \<Rightarrow> (case wr_kind r of Whitelist \<Rightarrow> Whitelisted | Note \<Rightarrow> Noted
          | Alerted \<Rightarrow> Alert (case wr_severity r of None \<Rightarrow> 0 | Some s \<Rightarrow> s) (wr_acked r \<noteq> None)))"

text \<open>An evaluation only raises: a higher severity reopens the alert, anything else leaves it.\<close>

definition is_news :: "int \<Rightarrow> plate_state \<Rightarrow> bool" where
  "is_news sev p \<longleftrightarrow> 2 \<le> sev \<and> (case p of Alert k _ \<Rightarrow> k < sev | _ \<Rightarrow> True)"

definition raise_alert :: "int \<Rightarrow> plate_state \<Rightarrow> plate_state" where
  "raise_alert sev p = (if is_news sev p then Alert sev False else p)"

text \<open>The severity an evaluation computes from what it reads.\<close>

definition plate_severity :: "(setting_query \<Rightarrow> bool) \<Rightarrow> gotime \<Rightarrow> string \<Rightarrow> alert_world \<Rightarrow> int" where
  "plate_severity sf now h w =
     sc_severity (score \<lparr>in_encounters = map encounter_from_row
         (list_encounters_in_window h (lookback_start now (lookback_days sf (aw_settings w))) now (aw_encounters w)),
       in_whitelisted = (plate_state_of (look_watch (aw_watch w) h) = Whitelisted),
       in_thresholds = read_thresholds sf (aw_settings w)\<rparr>)"

section \<open>Lemmas\<close>

lemma plate_state_whitelisted: "plate_state_of r = Whitelisted \<longleftrightarrow> (\<exists>x. r = Some x \<and> wr_kind x = Whitelist)"
  by (auto simp: plate_state_of_def split: option.splits watch_kind.splits)

lemma evaluate_load_ok:
  assumes "evaluate_load ef sf now h w = Inr c"
  shows "dc_hash c = h" and "dc_now c = now" and "sc_severity (dc_result c) = plate_severity sf now h w"
    and "dc_exists c = (look_watch (aw_watch w) h \<noteq> None)"
    and "dc_existing c = (case look_watch (aw_watch w) h of None \<Rightarrow> 0 | Some r \<Rightarrow> (case wr_severity r of None \<Rightarrow> 0 | Some s \<Rightarrow> s))"
proof -
  have "(case look_watch (aw_watch w) h of None \<Rightarrow> False | Some r \<Rightarrow> wr_kind r = Whitelist)
      = (plate_state_of (look_watch (aw_watch w) h) = Whitelisted)"
    by (simp add: plate_state_whitelisted split: option.splits)
  then show "dc_hash c = h" and "dc_now c = now" and "sc_severity (dc_result c) = plate_severity sf now h w"
    and "dc_exists c = (look_watch (aw_watch w) h \<noteq> None)"
    and "dc_existing c = (case look_watch (aw_watch w) h of None \<Rightarrow> 0 | Some r \<Rightarrow> (case wr_severity r of None \<Rightarrow> 0 | Some s \<Rightarrow> s))"
    using assms by (auto simp: evaluate_load_def Let_def plate_severity_def split: if_splits)
qed

lemma plate_severity_range: "plate_severity sf now h w \<in> {0, 2, 3, 4, 5}"
  unfolding plate_severity_def by (rule score_severity_range)

lemma alerted_upserts_wf:
  assumes "watch_wf d" and "\<not> s < 2" and "s \<le> 5"
  shows "upsert_watchlist_alerted dbnow h l (Some s) n (Some t) d = Inr d' \<Longrightarrow> watch_wf d'"
    and "upsert_watchlist_alerted_preserve_ack dbnow h l (Some s) n (Some t) d = Inr d' \<Longrightarrow> watch_wf d'"
  unfolding upsert_watchlist_alerted_def upsert_watchlist_alerted_preserve_ack_def
  using assms
  by (auto elim!: upsert_watch_wf [rotated 3] simp: row_wf_def alerted_row_def sql_coalesce_def sql_greatest_def
      split: watch_kind.splits option.splits)

lemma evaluate_commit_wf:
  assumes "watch_wf (aw_watch w)" and "sc_severity (dc_result c) \<le> 5"
    and "evaluate_commit ef dbnow route dongle c w = (e, w')"
  shows "watch_wf (aw_watch w')"
  using assms alerted_upserts_wf [OF assms(1) _ assms(2)]
  by (auto simp: evaluate_commit_def Let_def split: if_splits sum.splits)

lemma evaluate_commit_ok:
  assumes "evaluate_commit ef dbnow route dongle c w = (None, w')"
  defines "s \<equiv> sc_severity (dc_result c)"
  defines "a \<equiv> \<lparr>al_hash = dc_hash c, al_severity = s, al_route = route, al_dongle = dongle, al_at = dc_now c\<rparr>"
  shows "\<exists>e. aw_events w' = aw_events w @ [e] \<and> ae_hash e = dc_hash c \<and> ae_severity e = s"
    and "s < 2 \<Longrightarrow> aw_watch w' = aw_watch w \<and> aw_alerts w' = aw_alerts w"
    and "\<not> s < 2 \<Longrightarrow> dc_existing c < s \<Longrightarrow>
      upsert_watchlist_alerted dbnow (dc_hash c) None (Some s) None (Some (dc_now c)) (aw_watch w) = Inr (aw_watch w')
      \<and> aw_alerts w' = emit_alert a (aw_alerts w)"
    and "\<not> s < 2 \<Longrightarrow> \<not> dc_existing c < s \<Longrightarrow>
      upsert_watchlist_alerted_preserve_ack dbnow (dc_hash c) None (Some s) None (Some (dc_now c)) (aw_watch w) = Inr (aw_watch w')
      \<and> aw_alerts w' = (if dc_exists c then aw_alerts w else emit_alert a (aw_alerts w))"
  using assms(1) unfolding s_def a_def
  by (auto simp: evaluate_commit_def Let_def split: if_splits sum.splits)

lemma alerted_upserts_ok:
  assumes "watch_wf d" and "\<not> s < 2" and "s \<le> 5"
  shows "\<exists>d'. upsert_watchlist_alerted dbnow h l (Some s) n (Some t) d = Inr d'"
    and "\<exists>d'. upsert_watchlist_alerted_preserve_ack dbnow h l (Some s) n (Some t) d = Inr d'"
  unfolding upsert_watchlist_alerted_def upsert_watchlist_alerted_preserve_ack_def
  using assms watch_wf_look [OF assms(1), of h]
  by (intro upsert_watch_ok; fastforce simp: severity_check_def alerted_row_def sql_greatest_def row_wf_def
      split: watch_kind.splits option.splits)+

lemma alerted_upserts_state:
  assumes "upsert_watchlist_alerted dbnow h l (Some s) n (Some t) d = Inr d'"
  shows "plate_state_of (look_watch d' h) = Alert s False" and "k \<noteq> h \<Longrightarrow> look_watch d' k = look_watch d k"
  using assms by (auto simp: upsert_watchlist_alerted_def upsert_watch_look plate_state_of_def alerted_row_def split: option.splits)

lemma preserve_upserts_state:
  assumes "upsert_watchlist_alerted_preserve_ack dbnow h l (Some s) n (Some t) d = Inr d'"
    and "plate_state_of (look_watch d h) = Alert k a" and "s \<le> k" and "watch_wf d"
  shows "plate_state_of (look_watch d' h) = Alert k a" and "j \<noteq> h \<Longrightarrow> look_watch d' j = look_watch d j"
  using assms watch_wf_look [OF assms(4), of h]
  by (auto simp: upsert_watchlist_alerted_preserve_ack_def upsert_watch_look plate_state_of_def sql_greatest_def row_wf_def
      split: option.splits watch_kind.splits)

lemma existing_severity:
  assumes "watch_wf d"
  shows "(case look_watch d h of None \<Rightarrow> 0 | Some r \<Rightarrow> (case wr_severity r of None \<Rightarrow> 0 | Some s \<Rightarrow> s))
    = (case plate_state_of (look_watch d h) of Alert k _ \<Rightarrow> k | _ \<Rightarrow> 0)"
  using watch_wf_look [OF assms, of h]
  by (auto simp: plate_state_of_def row_wf_def split: option.splits watch_kind.splits)

lemma evaluate_plate_total:
  assumes "watch_wf (aw_watch w)" and "\<And>q. \<not> ef q"
  shows "fst (evaluate_plate ef sf now dbnow h route dongle w) = None"
proof -
  obtain c where load: "evaluate_load ef sf now h w = Inr c" using assms(2) by (auto simp: evaluate_load_def Let_def)
  have "sc_severity (dc_result c) \<le> 5"
    using evaluate_load_ok(3) [OF load] plate_severity_range [of sf now h w] by auto
  note up = alerted_upserts_ok [OF assms(1) _ this]
  have "fst (evaluate_commit ef dbnow route dongle c w) = None"
    using up [of dbnow "dc_hash c" None None "dc_now c"] assms(2)
    by (cases "sc_severity (dc_result c) < 2") (auto simp: evaluate_commit_def Let_def)
  with load show ?thesis by (simp add: evaluate_plate_def)
qed

lemma commit_upgrades:
  assumes "watch_wf (aw_watch w)" and "\<And>q. \<not> ef q" and "2 \<le> sc_severity (dc_result c)" and "sc_severity (dc_result c) \<le> 5"
    and "dc_existing c < sc_severity (dc_result c)"
  shows "plate_state_of (look_watch (aw_watch (snd (evaluate_commit ef dbnow route dongle c w))) (dc_hash c))
    = Alert (sc_severity (dc_result c)) False"
proof -
  have "\<not> sc_severity (dc_result c) < 2" using assms(3) by simp
  then obtain d where "upsert_watchlist_alerted dbnow (dc_hash c) None (Some (sc_severity (dc_result c))) None (Some (dc_now c)) (aw_watch w) = Inr d"
    using alerted_upserts_ok(1) [OF assms(1) _ assms(4)] by blast
  with alerted_upserts_state(1) [OF this] assms show ?thesis by (simp add: evaluate_commit_def Let_def)
qed

section \<open>Example world\<close>

text \<open>A plate alerted at severity 3 and acknowledged, and no encounters.\<close>

definition demo_row :: watch_row where
  "demo_row = \<lparr>wr_id = 1, wr_label = None, wr_kind = Alerted, wr_severity = Some 3, wr_first = Some 0, wr_last = Some 0,
     wr_acked = Some 0, wr_notes = None, wr_created = 0, wr_updated = 0\<rparr>"

definition demo_alerts :: alert_world where
  "demo_alerts = \<lparr>aw_watch = \<lparr>wd_rows = [(''h'', demo_row)], wd_next = 2\<rparr>, aw_encounters = [], aw_settings = None,
     aw_events = [], aw_alerts = Some (8, [])\<rparr>"

section \<open>Properties\<close>

text \<open>C2: an evaluation refines the contract of raising an alert. When it succeeds, the plate's row is what
  \<open>raise_alert\<close> makes of it at the computed severity: a strictly higher severity opens the alert
  anew and drops the acknowledgement, the same or a lower one keeps severity and
  acknowledgement. No other plate changes, exactly one audit event is written, and an alert is
  published exactly when there is news.\<close>

theorem evaluation_refines:
  assumes "evaluate_plate ef sf now dbnow h route dongle w = (None, w')" and "watch_wf (aw_watch w)"
  shows "plate_state_of (look_watch (aw_watch w') h)
        = raise_alert (plate_severity sf now h w) (plate_state_of (look_watch (aw_watch w) h))
    \<and> (\<forall>k. k \<noteq> h \<longrightarrow> look_watch (aw_watch w') k = look_watch (aw_watch w) k)
    \<and> (\<exists>e. aw_events w' = aw_events w @ [e] \<and> ae_hash e = h \<and> ae_severity e = plate_severity sf now h w)
    \<and> aw_alerts w' =
        (if is_news (plate_severity sf now h w) (plate_state_of (look_watch (aw_watch w) h))
         then emit_alert \<lparr>al_hash = h, al_severity = plate_severity sf now h w, al_route = route, al_dongle = dongle, al_at = now\<rparr>
           (aw_alerts w)
         else aw_alerts w)"
proof -
  let ?sev = "plate_severity sf now h w" and ?p = "plate_state_of (look_watch (aw_watch w) h)"
  obtain c where load: "evaluate_load ef sf now h w = Inr c" and commit: "evaluate_commit ef dbnow route dongle c w = (None, w')"
    using assms(1) by (auto simp: evaluate_plate_def split: sum.splits)
  note c = evaluate_load_ok [OF load]
  have known: "?p = Unknown \<longleftrightarrow> look_watch (aw_watch w) h = None"
    by (auto simp: plate_state_of_def split: option.splits watch_kind.splits)
  have existing: "dc_existing c = (case ?p of Alert k _ \<Rightarrow> k | _ \<Rightarrow> 0)"
    using c(5) existing_severity [OF assms(2)] by simp
  note commit = evaluate_commit_ok [OF commit, unfolded c(1-3)]
  consider "?sev < 2" | "\<not> ?sev < 2" "dc_existing c < ?sev" | "\<not> ?sev < 2" "\<not> dc_existing c < ?sev" by blast
  then show ?thesis
  proof cases
    case 1
    then show ?thesis using commit(1,2) by (simp add: raise_alert_def is_news_def)
  next
    case 2
    then have "is_news ?sev ?p" using existing by (auto simp: is_news_def split: plate_state.splits)
    with 2 alerted_upserts_state commit(1,3) show ?thesis by (auto simp: raise_alert_def)
  next
    case 3
    then obtain k a where p: "?p = Alert k a" "?sev \<le> k" using existing by (auto split: plate_state.splits)
    then have old: "\<not> is_news ?sev ?p" and "dc_exists c" using c(4) known by (simp_all add: is_news_def)
    with 3 preserve_upserts_state [OF _ p assms(2)] commit(1,4) show ?thesis
      unfolding raise_alert_def using p by auto
  qed
qed

theorem evaluation_refines_witness:
  "plate_state_of (look_watch (aw_watch (snd (evaluate_plate (\<lambda>_. False) (\<lambda>_. False) 0 0 ''h'' ''r'' ''d'' demo_alerts))) ''h'')
     = raise_alert (plate_severity (\<lambda>_. False) 0 ''h'' demo_alerts) (Alert 3 True)"
proof -
  have wf: "watch_wf (aw_watch demo_alerts)"
    by (auto simp: watch_wf_def look_watch_def demo_alerts_def row_wf_def demo_row_def split: if_splits)
  obtain w' where run: "evaluate_plate (\<lambda>_. False) (\<lambda>_. False) 0 0 ''h'' ''r'' ''d'' demo_alerts = (None, w')"
    using evaluate_plate_total [OF wf, of "\<lambda>_. False"] by (metis prod.collapse)
  from evaluation_refines [OF run wf] run show ?thesis
    by (simp add: demo_alerts_def look_watch_def plate_state_of_def demo_row_def)
qed

text \<open>What a failing evaluation leaves behind. When any of its four statements fails, no watchlist row
  changes and no alert is published; at most the audit event has been written, and only when the
  failing statement is the upsert.\<close>

theorem evaluation_failure:
  assumes "evaluate_plate ef sf now dbnow h route dongle w = (Some e, w')"
  shows "aw_watch w' = aw_watch w \<and> aw_alerts w' = aw_alerts w
    \<and> (aw_events w' = aw_events w \<or> (ef EqUpsert \<or> \<not> watch_wf (aw_watch w)) \<and> (\<exists>ev. aw_events w' = aw_events w @ [ev]))"
proof (cases "evaluate_load ef sf now h w")
  case (Inl e)
  then show ?thesis using assms by (simp add: evaluate_plate_def)
next
  case (Inr c)
  have "sc_severity (dc_result c) \<le> 5"
    using evaluate_load_ok(3) [OF Inr] plate_severity_range [of sf now h w] by auto
  note up = alerted_upserts_ok [OF _ _ this, of "aw_watch w" dbnow "dc_hash c" None None "dc_now c"]
  have "evaluate_commit ef dbnow route dongle c w = (Some e, w')" using assms Inr by (simp add: evaluate_plate_def)
  with up show ?thesis
    by (cases "sc_severity (dc_result c) < 2"; cases "watch_wf (aw_watch w)")
      (auto simp: evaluate_commit_def Let_def split: if_splits sum.splits)
qed

theorem evaluation_failure_witness:
  "aw_alerts (snd (evaluate_plate (\<lambda>q. q = EqEvent) (\<lambda>_. False) 0 0 ''h'' ''r'' ''d'' demo_alerts)) = Some (8, [])"
proof -
  obtain w' where r: "evaluate_plate (\<lambda>q. q = EqEvent) (\<lambda>_. False) 0 0 ''h'' ''r'' ''d'' demo_alerts
      = (Some (EvalError ''insert alert event''), w')"
    by (simp add: evaluate_plate_def evaluate_load_def evaluate_commit_def Let_def)
  from evaluation_failure [OF r] r show ?thesis by (simp add: demo_alerts_def)
qed

text \<open>A whitelisted plate is never alerted by an evaluation that starts and ends while it is
  whitelisted, provided every severity bucket in force starts above 0: its row and the alerts
  channel stay as they are, whatever the encounters and whichever statement fails.\<close>

theorem whitelist_kept:
  assumes "look_watch (aw_watch w) h = Some r" and "wr_kind r = Whitelist"
    and "effective_severity_buckets (th_buckets (read_thresholds sf (aw_settings w))) = (b2, b3, b4, b5)"
    and "0 < b2" and "0 < b3" and "0 < b4" and "0 < b5"
  shows "aw_watch (snd (evaluate_plate ef sf now dbnow h route dongle w)) = aw_watch w
    \<and> aw_alerts (snd (evaluate_plate ef sf now dbnow h route dongle w)) = aw_alerts w"
proof (cases "evaluate_load ef sf now h w")
  case (Inl e)
  then show ?thesis by (simp add: evaluate_plate_def)
next
  case (Inr c)
  have "plate_severity sf now h w = 0"
    using assms by (simp add: plate_severity_def plate_state_of_def score_def Let_def severity_for_score_buckets_def)
  with evaluate_load_ok(3) [OF Inr] Inr show ?thesis
    by (simp add: evaluate_plate_def evaluate_commit_def Let_def)
qed

definition demo_white :: alert_world where
  "demo_white = demo_alerts\<lparr>aw_watch := \<lparr>wd_rows = [(''h'', demo_row\<lparr>wr_kind := Whitelist, wr_severity := None, wr_first := None,
     wr_last := None, wr_acked := None\<rparr>)], wd_next = 2\<rparr>\<rparr>"

theorem whitelist_kept_witness:
  "aw_alerts (snd (evaluate_plate (\<lambda>_. False) (\<lambda>_. False) 0 0 ''h'' ''r'' ''d'' demo_white)) = Some (8, [])"
proof -
  have "look_watch (aw_watch demo_white) ''h'' = Some (demo_row\<lparr>wr_kind := Whitelist, wr_severity := None, wr_first := None,
     wr_last := None, wr_acked := None\<rparr>)" by (simp add: demo_white_def look_watch_def)
  moreover have "read_thresholds (\<lambda>_. False) (aw_settings demo_white) = default_thresholds"
    by (simp add: read_thresholds_def demo_white_def demo_alerts_def)
  ultimately show ?thesis
    using whitelist_kept [of demo_white "''h''" _ "\<lambda>_. False" 2 4 6 8 "\<lambda>_. False" 0 0 "''r''" "''d''"]
    by (simp add: demo_white_def demo_alerts_def)
qed

text \<open>
  The two ways out of that guarantee. A first bucket of 0, which the tuning endpoint accepts, makes
  the evaluation turn the whitelist row into an alert; and an operator who whitelists the plate
  between the worker's read and its write is overruled.
\<close>

lemma zero_bucket_overrules_whitelist:
  assumes "look_watch (aw_watch w) h = Some r" and "wr_kind r = Whitelist" and "watch_wf (aw_watch w)" and "\<And>q. \<not> ef q"
    and "th_buckets (read_thresholds sf (aw_settings w)) = (0, b3, b4, b5)" and "0 < b3" and "b3 \<le> b4" and "b4 \<le> b5"
  shows "plate_state_of (look_watch (aw_watch (snd (evaluate_plate ef sf now dbnow h route dongle w))) h) = Alert 2 False"
proof -
  obtain c where load: "evaluate_load ef sf now h w = Inr c" using assms(4) by (auto simp: evaluate_load_def Let_def)
  note c = evaluate_load_ok [OF load]
  have two: "sc_severity (dc_result c) = 2"
    unfolding c(3) plate_severity_def
    by (rule whitelist_zero_bucket [where ?b3.0 = b3 and ?b4.0 = b4 and ?b5.0 = b5, THEN conjunct2])
      (use assms in \<open>simp_all add: plate_state_of_def\<close>)
  have "dc_existing c = 0" using c(5) existing_severity [OF assms(3), of h] assms(1,2) by (simp add: plate_state_of_def)
  with commit_upgrades [OF assms(3,4), where c = c and dbnow = dbnow and route = route and dongle = dongle] two load c(1) show ?thesis
    by (simp add: evaluate_plate_def)
qed

lemma race_overrules_whitelist:
  assumes "evaluate_load ef sf now h w = Inr c" and "look_watch (aw_watch w) h = None" and "2 \<le> plate_severity sf now h w"
    and "look_watch (aw_watch w2) h = Some r" and "wr_kind r = Whitelist" and "watch_wf (aw_watch w2)" and "\<And>q. \<not> ef q"
  shows "plate_state_of (look_watch (aw_watch (snd (evaluate_commit ef dbnow route dongle c w2))) h)
    = Alert (plate_severity sf now h w) False"
proof -
  note c = evaluate_load_ok [OF assms(1)]
  have "sc_severity (dc_result c) \<le> 5" using plate_severity_range [of sf now h w] c(3) by auto
  with commit_upgrades [OF assms(6,7), where c = c and dbnow = dbnow and route = route and dongle = dongle] c assms(2,3) show ?thesis by simp
qed

end
