(* ===== verification/WatchlistApi.thy ===== *)
theory WatchlistApi imports AlertWorker GoStrings begin

text \<open>
  The alert center and the whitelist of \<open>internal/api/alpr_watchlist.go\<close>, over the watchlist
  table the heuristic worker writes. \<open>hash\<close> and \<open>enc_label\<close> stand for the keyring. The
  items of the listings carry the row; the route, trip and plate text looked up for display are
  left out, except for the device of the latest encounter, which a filter reads.
\<close>

section \<open>State, requests, answers\<close>

datatype watch_query = WqAck | WqUnack | WqNote | WqLookup | WqWhitelist | WqRemove | WqCount | WqMax | WqAlerts | WqKind | WqAudit

datatype audit_value = AvText string | AvInt int | AvBool bool | AvTime gotime

record audit_row =
  au_action :: string
  au_actor :: "string option"
  au_payload :: "(string \<times> audit_value) list"

record suppressed_event =
  su_hash :: string
  su_severity :: int
  su_at :: gotime

record watch_srv =
  ws_world :: alert_world
  ws_audit :: "audit_row list"
  ws_suppressed :: "(nat \<times> suppressed_event list) option"
  ws_keys :: bool

datatype watch_resp =
    WErr nat string
  | WDisabled string
  | WAcked "gotime option"
  | WNotes string
  | WAdded string
  | WRemoved
  | WSummary int "int option" "gotime option"
  | WList "(string \<times> watch_row) list"

definition set_watch :: "watch_db \<Rightarrow> watch_srv \<Rightarrow> watch_srv" where
  "set_watch d s = s\<lparr>ws_world := (ws_world s)\<lparr>aw_watch := d\<rparr>\<rparr>"

text \<open>What a request brings along besides its parameters: clocks, the acting user, the connection's faults.\<close>

record call_env =
  ce_faults :: "watch_query \<Rightarrow> bool"
  ce_settings_faults :: "setting_query \<Rightarrow> bool"
  ce_now :: gotime
  ce_dbnow :: gotime
  ce_actor :: "string option"
  ce_gone :: bool

text \<open>
  \<open>writeAudit\<close>: a failing insert is logged only. \<open>emitSuppressed\<close> does not block; when the client
  is gone the \<open>select\<close> may take that branch, which \<open>ce_gone\<close> says.
\<close>

definition write_audit :: "call_env \<Rightarrow> string \<Rightarrow> (string \<times> audit_value) list \<Rightarrow> watch_srv \<Rightarrow> watch_srv" where
  "write_audit v action payload s =
     (if ce_faults v WqAudit then s
      else s\<lparr>ws_audit := ws_audit s @ [\<lparr>au_action = action, au_actor = ce_actor v, au_payload = payload\<rparr>]\<rparr>)"

definition emit_suppressed :: "call_env \<Rightarrow> suppressed_event \<Rightarrow> watch_srv \<Rightarrow> watch_srv" where
  "emit_suppressed v e s =
     (case ws_suppressed s of
        None \<Rightarrow> s
      | Some (cap, q) \<Rightarrow>
          if \<not> ce_gone v \<and> length q < cap then s\<lparr>ws_suppressed := Some (cap, q @ [e])\<rparr> else s)"

section \<open>The plate hash of the URL\<close>

text \<open>
  Padded base64 on the URL alphabet: the padding completes the last quantum of four. The standard
  alphabet has plus and slash for the last two letters.
\<close>

definition b64_pad_dec :: "string \<Rightarrow> string option" where
  "b64_pad_dec s =
     (let t = filter (\<lambda>c. c \<noteq> CHR 0x0A \<and> c \<noteq> CHR 0x0D) s; u = takeWhile (\<lambda>c. c \<noteq> CHR ''='') t in
      if length t mod 4 = 0 \<and> t = u @ replicate ((4 - length u mod 4) mod 4) (CHR ''='') then b64_dec u else None)"

definition std_letter :: "char \<Rightarrow> char" where
  "std_letter c = (if c = CHR ''+'' then CHR ''-'' else if c = CHR ''/'' then CHR ''_''
     else if c = CHR ''-'' \<or> c = CHR ''_'' then CHR ''.'' else c)"

definition decode_plate_hash :: "string \<Rightarrow> string option" where
  "decode_plate_hash s =
     (if s = [] then None
      else (case b64_dec s of
         Some r \<Rightarrow> Some r
       | None \<Rightarrow>
           (case b64_pad_dec s of
              Some r \<Rightarrow> Some r
            | None \<Rightarrow>
                (case b64_dec (map std_letter s) of
                   Some r \<Rightarrow> Some r
                 | None \<Rightarrow> b64_pad_dec (map std_letter s)))))"

definition hash_b64 :: "string \<Rightarrow> string" where
  "hash_b64 h = b64_enc h"

definition bad_hash :: watch_resp where
  "bad_hash = WErr 400 ''malformed plate hash (expected base64-url, no padding)''"

definition no_row :: watch_resp where
  "no_row = WErr 404 ''no watchlist row for plate hash''"

section \<open>Acknowledging and notes\<close>

definition ack_alert :: "call_env \<Rightarrow> string \<Rightarrow> watch_srv \<Rightarrow> watch_resp \<times> watch_srv" where
  "ack_alert v hash64 s =
     (case decode_plate_hash hash64 of
        None \<Rightarrow> (bad_hash, s)
      | Some h \<Rightarrow>
          if ce_faults v WqAck then (WErr 500 ''failed to ack alert'', s)
          else (case ack_watchlist (ce_dbnow v) h (ce_now v) (aw_watch (ws_world s)) of
                  (n, d) \<Rightarrow>
                    if n = 0 then (no_row, s)
                    else (WAcked (Some (ce_now v)),
                      write_audit v ''alert_ack'' [(''plate_hash_b64'', AvText (hash_b64 h)), (''acked_at'', AvTime (ce_now v))]
                        (set_watch d s))))"

definition unack_alert :: "call_env \<Rightarrow> string \<Rightarrow> watch_srv \<Rightarrow> watch_resp \<times> watch_srv" where
  "unack_alert v hash64 s =
     (case decode_plate_hash hash64 of
        None \<Rightarrow> (bad_hash, s)
      | Some h \<Rightarrow>
          if ce_faults v WqUnack then (WErr 500 ''failed to unack alert'', s)
          else (case unack_watchlist (ce_dbnow v) h (aw_watch (ws_world s)) of
                  (n, d) \<Rightarrow>
                    if n = 0 then (no_row, s)
                    else (WAcked None,
                      write_audit v ''alert_unack'' [(''plate_hash_b64'', AvText (hash_b64 h))] (set_watch d s))))"

text \<open>The body is \<open>None\<close> when it does not bind.\<close>

definition alert_note :: "call_env \<Rightarrow> string \<Rightarrow> string option \<Rightarrow> watch_srv \<Rightarrow> watch_resp \<times> watch_srv" where
  "alert_note v hash64 body s =
     (case decode_plate_hash hash64 of
        None \<Rightarrow> (bad_hash, s)
      | Some h \<Rightarrow>
          (case body of
             None \<Rightarrow> (WErr 400 ''failed to parse request body'', s)
           | Some notes \<Rightarrow>
               if ce_faults v WqNote then (WErr 500 ''failed to update note'', s)
               else (case update_watchlist_notes (ce_dbnow v) h (if notes \<noteq> [] then Some notes else None) (aw_watch (ws_world s)) of
                       (n, d) \<Rightarrow>
                         if n = 0 then (no_row, s)
                         else (WNotes notes,
                           write_audit v ''alert_note''
                             [(''plate_hash_b64'', AvText (hash_b64 h)), (''note_length'', AvInt (int (length notes)))]
                             (set_watch d s)))))"

section \<open>The whitelist\<close>

text \<open>
  \<open>strings.ToUpper\<close> on ASCII; a letter outside ASCII has an upper case that is neither empty nor
  stripped, so the test for an empty plate is the same.
\<close>

definition normalize_plate :: "string \<Rightarrow> string" where
  "normalize_plate s = filter (\<lambda>c. c \<notin> {CHR '' '', CHR ''-'', CHR ''.'', CHR 0x09}) (map upper s)"

definition kind_name :: "watch_kind \<Rightarrow> string" where
  "kind_name k = (case k of Whitelist \<Rightarrow> ''whitelist'' | Alerted \<Rightarrow> ''alerted'' | Note \<Rightarrow> ''note'')"

definition label_cipher :: "(string \<Rightarrow> string option) \<Rightarrow> string \<Rightarrow> string option option" where
  "label_cipher enc_label label =
     (if trim_space label \<noteq> [] then (case enc_label label of None \<Rightarrow> None | Some c \<Rightarrow> Some (Some c)) else Some None)"

definition add_whitelist ::
  "(string \<Rightarrow> string) \<Rightarrow> (string \<Rightarrow> string option) \<Rightarrow> call_env \<Rightarrow> (string \<times> string) option \<Rightarrow> watch_srv
     \<Rightarrow> watch_resp \<times> watch_srv" where
  "add_whitelist hash enc_label v body s =
     (if \<not> ws_keys s then (WDisabled ''Encryption keyring is not configured.'', s)
      else
        (case body of
           None \<Rightarrow> (WErr 400 ''failed to parse request body'', s)
         | Some (plate, label) \<Rightarrow>
             if normalize_plate plate = [] then (WErr 400 ''plate text is empty after normalization'', s)
             else
               (let h = hash plate in
                case label_cipher enc_label label of
                  None \<Rightarrow> (WErr 500 ''failed to encrypt label'', s)
                | Some cipher \<Rightarrow>
                    if ce_faults v WqLookup then (WErr 500 ''failed to look up prior watchlist row'', s)
                    else
                      (let prior = look_watch (aw_watch (ws_world s)) h;
                           kind = (case prior of None \<Rightarrow> [] | Some r \<Rightarrow> kind_name (wr_kind r));
                           sev = (case prior of None \<Rightarrow> 0 | Some r \<Rightarrow> (case wr_severity r of None \<Rightarrow> 0 | Some n \<Rightarrow> n)) in
                       case (if ce_faults v WqWhitelist then Inl WatchSqlFailed
                             else upsert_watchlist_whitelist (ce_dbnow v) h cipher None (aw_watch (ws_world s))) of
                         Inl _ \<Rightarrow> (WErr 500 ''failed to upsert whitelist row'', s)
                       | Inr d \<Rightarrow>
                           (let s1 = set_watch d s;
                                s2 = (if kind = ''alerted''
                                      then emit_suppressed v \<lparr>su_hash = h, su_severity = sev, su_at = ce_now v\<rparr> s1 else s1) in
                            (WAdded (hash_b64 h),
                             write_audit v ''whitelist_add''
                               [(''plate_hash_b64'', AvText (hash_b64 h)), (''prior_kind'', AvText kind),
                                (''prior_severity'', AvInt sev), (''label_provided'', AvBool (cipher \<noteq> None))] s2))))))"

definition remove_whitelist_entry :: "call_env \<Rightarrow> string \<Rightarrow> watch_srv \<Rightarrow> watch_resp \<times> watch_srv" where
  "remove_whitelist_entry v hash64 s =
     (case decode_plate_hash hash64 of
        None \<Rightarrow> (bad_hash, s)
      | Some h \<Rightarrow>
          if ce_faults v WqLookup then (WErr 500 ''failed to look up watchlist row'', s)
          else
            (case look_watch (aw_watch (ws_world s)) h of
               None \<Rightarrow> (no_row, s)
             | Some prior \<Rightarrow>
                 if wr_kind prior \<noteq> Whitelist
                 then (WErr 409 (''watchlist row exists with kind='' @ CHR 0x22 # kind_name (wr_kind prior)
                        @ CHR 0x22 # ''; use the appropriate endpoint''), s)
                 else if ce_faults v WqRemove then (WErr 500 ''failed to remove watchlist row'', s)
                 else (case remove_watchlist h (aw_watch (ws_world s)) of
                         (n, d) \<Rightarrow>
                           if n = 0 then (no_row, s)
                           else (WRemoved,
                             write_audit v ''whitelist_remove'' [(''plate_hash_b64'', AvText (hash_b64 h))] (set_watch d s)))))"

section \<open>The gate and the mutating endpoints\<close>

text \<open>\<open>requireAlprEnabled\<close> on the settings and the keyring.\<close>

definition require_alpr_enabled :: "(setting_query \<Rightarrow> bool) \<Rightarrow> watch_srv \<Rightarrow> watch_resp option" where
  "require_alpr_enabled sf s =
     (let disabled = Some (WDisabled ''Enable ALPR in Settings to use this endpoint.'') in
      case aw_settings (ws_world s) of
        None \<Rightarrow> disabled
      | Some d \<Rightarrow>
          (case bool_or sf ''alpr_enabled'' False d of
             (_, Some _) \<Rightarrow> Some (WErr 500 ''failed to read alpr_enabled flag'')
           | (on, None) \<Rightarrow> if \<not> on \<or> \<not> ws_keys s then disabled else None))"

datatype operator_op =
    OpAck string
  | OpUnack string
  | OpNote string "string option"
  | OpWhitelist "(string \<times> string) option"
  | OpRemove string

definition operator_call ::
  "(string \<Rightarrow> string) \<Rightarrow> (string \<Rightarrow> string option) \<Rightarrow> call_env \<Rightarrow> operator_op \<Rightarrow> watch_srv \<Rightarrow> watch_resp \<times> watch_srv" where
  "operator_call hash enc_label v op s =
     (case require_alpr_enabled (ce_settings_faults v) s of
        Some r \<Rightarrow> (r, s)
      | None \<Rightarrow>
          (case op of
             OpAck h \<Rightarrow> ack_alert v h s
           | OpUnack h \<Rightarrow> unack_alert v h s
           | OpNote h body \<Rightarrow> alert_note v h body s
           | OpWhitelist body \<Rightarrow> add_whitelist hash enc_label v body s
           | OpRemove h \<Rightarrow> remove_whitelist_entry v h s))"

section \<open>Listings\<close>

definition parse_limit_offset :: "int \<Rightarrow> int \<Rightarrow> string \<Rightarrow> string \<Rightarrow> string + int \<times> int" where
  "parse_limit_offset default_limit max_limit limit offset =
     (let l = (if limit = [] then Inr default_limit
               else (case parse_int 64 limit of
                       None \<Rightarrow> Inl ''limit must be an integer''
                     | Some n \<Rightarrow> if n < 1 then Inl ''limit must be >= 1''
                         else if max_limit < n then Inl (''limit must be <= '' @ show_int max_limit) else Inr n)) in
      case l of
        Inl e \<Rightarrow> Inl e
      | Inr n \<Rightarrow>
          if offset = [] then Inr (n, 0)
          else (case parse_int 64 offset of
                  None \<Rightarrow> Inl ''offset must be an integer''
                | Some k \<Rightarrow> if k < 0 then Inl ''offset must be >= 0'' else Inr (n, k)))"

definition parse_alert_status_filter :: "string \<Rightarrow> bool option option" where
  "parse_alert_status_filter raw =
     (let t = map lower (trim_space raw) in
      if t = [] \<or> t = ''open'' then Some (Some False)
      else if t = ''acked'' then Some (Some True)
      else if t = ''all'' then Some None else None)"

text \<open>\<open>Sscanf\<close> with \<open>%d\<close> into an \<open>int16\<close>: a sign, digits, and whatever follows is not looked at.\<close>

definition scan_int16 :: "string \<Rightarrow> int option" where
  "scan_int16 s =
     (case parse_sign s of (neg, r) \<Rightarrow>
        (let ds = takeWhile (\<lambda>c. digit_val c \<noteq> None) r in
         if ds = [] then None
         else (case read_digits 0 ds of
                 None \<Rightarrow> None
               | Some n \<Rightarrow>
                   (let i = (if neg then - int n else int n) in if - 32768 \<le> i \<and> i \<le> 32767 then Some i else None))))"

fun severity_tokens :: "string list \<Rightarrow> int list \<Rightarrow> string + int list" where
  "severity_tokens [] acc = Inr acc"
| "severity_tokens (raw # toks) acc =
     (let tok = trim_space raw in
      if tok = [] then severity_tokens toks acc
      else (case scan_int16 tok of
              None \<Rightarrow> Inl ''severity must be a comma-separated list of integers''
            | Some n \<Rightarrow>
                if n < 0 \<or> 5 < n then Inl (''severity '' @ show_int n @ '' out of range (0..5)'')
                else severity_tokens toks (n # acc)))"

definition parse_severity_filter :: "string \<Rightarrow> string + int list option" where
  "parse_severity_filter raw =
     (let t = trim_space raw in
      if t = [] then Inr None
      else (case severity_tokens (split_on (CHR '','') t) [] of
              Inl e \<Rightarrow> Inl e
            | Inr ns \<Rightarrow> Inr (if ns = [] then None else Some ns)))"

definition severity_matches :: "int option \<Rightarrow> int list option \<Rightarrow> bool" where
  "severity_matches sev flt =
     (case flt of
        None \<Rightarrow> True
      | Some ns \<Rightarrow> (case sev of None \<Rightarrow> 0 \<in> set ns | Some n \<Rightarrow> n \<in> set ns))"

text \<open>The device of the latest encounter of a plate, as the item builder finds it.\<close>

datatype latest_lookup = LatestFailed | NoEncounter | LatestOn string

definition item_kept :: "latest_lookup \<Rightarrow> string \<Rightarrow> bool" where
  "item_kept l dongle_filter =
     (case l of LatestFailed \<Rightarrow> False | NoEncounter \<Rightarrow> True | LatestOn d \<Rightarrow> dongle_filter = [] \<or> d = dongle_filter)"

definition alerts_page ::
  "(watch_query \<Rightarrow> bool) \<Rightarrow> (string \<Rightarrow> latest_lookup) \<Rightarrow> string \<Rightarrow> string \<Rightarrow> string \<Rightarrow> string \<Rightarrow> string \<Rightarrow> watch_db \<Rightarrow> watch_resp" where
  "alerts_page flt latest limit offset status severity dongle d =
     (case parse_limit_offset 25 100 limit offset of
        Inl e \<Rightarrow> WErr 400 e
      | Inr (n, k) \<Rightarrow>
          (case parse_alert_status_filter status of
             None \<Rightarrow> WErr 400 ''status must be one of open|acked|all''
           | Some acked \<Rightarrow>
               (case parse_severity_filter severity of
                  Inl e \<Rightarrow> WErr 400 e
                | Inr sevs \<Rightarrow>
                    (case (if flt WqAlerts then None else list_alerts (to_int32 n) (to_int32 k) acked d) of
                       None \<Rightarrow> WErr 500 ''failed to list alerts''
                     | Some rows \<Rightarrow>
                         WList (filter (\<lambda>p. severity_matches (wr_severity (snd p)) sevs \<and> item_kept (latest (fst p)) (trim_space dongle))
                           rows)))))"

definition whitelist_page :: "(watch_query \<Rightarrow> bool) \<Rightarrow> string \<Rightarrow> string \<Rightarrow> watch_db \<Rightarrow> watch_resp" where
  "whitelist_page flt limit offset d =
     (case parse_limit_offset 25 100 limit offset of
        Inl e \<Rightarrow> WErr 400 e
      | Inr (n, k) \<Rightarrow>
          (case (if flt WqKind then None else list_watchlist_by_kind Whitelist (to_int32 n) (to_int32 k) d) of
             None \<Rightarrow> WErr 500 ''failed to list whitelist''
           | Some rows \<Rightarrow> WList rows))"

definition alerts_summary :: "(watch_query \<Rightarrow> bool) \<Rightarrow> watch_db \<Rightarrow> watch_resp" where
  "alerts_summary flt d =
     (if flt WqCount then WErr 500 ''failed to count alerts''
      else if flt WqMax then WErr 500 ''failed to compute max severity''
      else
        (let m = max_open_severity d in
         case (if flt WqAlerts then None else list_alerts 1 0 (Some False) d) of
           None \<Rightarrow> WErr 500 ''failed to look up latest alert''
         | Some rows \<Rightarrow>
             WSummary (count_unacked_alerts d) (if 0 < m then Some m else None)
               (case rows of [] \<Rightarrow> None | p # _ \<Rightarrow> wr_last (snd p))))"

text \<open>A token with trailing garbage passes for its number.\<close>

lemma severity_garbage_accepted: "parse_severity_filter ''3abc'' = Inr (Some [3])"
  by code_simp

section \<open>The evidence line\<close>

text \<open>
  \<open>formatEvidenceSummary\<close> reads back the components of an audit event. JSON has made a number a
  \<open>float64\<close>; a missing key and a value of another type count as 0.
\<close>

definition evidence_float :: "(string \<times> evidence) list \<Rightarrow> string \<Rightarrow> real" where
  "evidence_float ev k =
     (case map_of ev k of Some (EvInt n) \<Rightarrow> of_int n | Some (EvReal x) \<Rightarrow> x | _ \<Rightarrow> 0)"

definition evidence_int :: "(string \<times> evidence) list \<Rightarrow> string \<Rightarrow> int" where
  "evidence_int ev k = trunc (evidence_float ev k)"

definition evidence_part :: "component \<Rightarrow> string option" where
  "evidence_part c =
     (let ev = co_evidence c in
      if co_name c = ''cross_route_count'' then
        (let n = evidence_int ev ''distinct_routes'' in
         if 0 < n then Some (''Seen on '' @ show_int n @ '' trips'') else None)
      else if co_name c = ''cross_route_geo_spread'' then
        (let n = evidence_int ev ''distinct_areas'' in
         if 0 < n then Some (''in '' @ show_int n @ '' areas'') else None)
      else if co_name c = ''cross_route_timing'' then
        (let h = evidence_float ev ''max_window_hours'' in
         if 0 < h then (if 1 \<le> h / 24 then Some (''over '' @ show_fixed 0 (h / 24) @ '' days'')
                        else Some (''within '' @ show_fixed 1 h @ '' hours'')) else None)
      else if co_name c = ''within_route_turns'' then
        (let n = evidence_int ev ''max_turns'' in
         if 0 < n then Some (''followed through '' @ show_int n @ '' turns once'') else None)
      else if co_name c = ''within_route_persistence'' then
        (let m = evidence_float ev ''max_minutes'' in
         if 0 < m then Some (''persisted '' @ show_fixed 0 m @ '' min on one trip'') else None)
      else if co_name c = ''whitelist_suppression'' then Some ''(suppressed by whitelist)''
      else None)"

fun join :: "string \<Rightarrow> string list \<Rightarrow> string" where
  "join sep [] = []"
| "join sep [s] = s"
| "join sep (s # t # ts) = s @ sep @ join sep (t # ts)"

definition in_cluster :: "string \<Rightarrow> bool" where
  "in_cluster p \<longleftrightarrow> take 5 p = ''Seen '' \<or> take 3 p = ''in '' \<or> take 5 p = ''over '' \<or> take 7 p = ''within ''"

definition format_evidence_summary :: "component list \<Rightarrow> string" where
  "format_evidence_summary cs =
     (let parts = List.map_filter evidence_part cs in
      case parts of
        [] \<Rightarrow> []
      | [p] \<Rightarrow> p @ ''.''
      | _ \<Rightarrow>
          (let out = join '' '' (filter in_cluster parts); rest = filter (\<lambda>p. \<not> in_cluster p) parts in
           (if rest \<noteq> [] then (if out \<noteq> [] then out @ ''; '' else out) @ join ''; '' rest else out) @ ''.''))"

definition evidence_summary :: "bool \<Rightarrow> string \<Rightarrow> alert_world \<Rightarrow> string" where
  "evidence_summary failed h w =
     (if failed then []
      else (case find (\<lambda>e. ae_hash e = h) (rev (aw_events w)) of
              None \<Rightarrow> [] | Some e \<Rightarrow> format_evidence_summary (ae_components e)))"

text \<open>
  The rules write their evidence under other keys than the line reads: of the five rules only the
  number of trips is ever reported.
\<close>

lemma evidence_part_named:
  "co_name c = ''within_route_turns'' \<Longrightarrow> map_of (co_evidence c) ''max_turns'' = None \<Longrightarrow> evidence_part c = None"
  "co_name c = ''within_route_persistence'' \<Longrightarrow> map_of (co_evidence c) ''max_minutes'' = None \<Longrightarrow> evidence_part c = None"
  "co_name c = ''cross_route_geo_spread'' \<Longrightarrow> map_of (co_evidence c) ''distinct_areas'' = None \<Longrightarrow> evidence_part c = None"
  "co_name c = ''cross_route_timing'' \<Longrightarrow> map_of (co_evidence c) ''max_window_hours'' = None \<Longrightarrow> evidence_part c = None"
  "co_name c = ''whitelist_suppression'' \<Longrightarrow> evidence_part c = Some ''(suppressed by whitelist)''"
  "co_name c = ''cross_route_count'' \<Longrightarrow> map_of (co_evidence c) ''distinct_routes'' = Some (EvInt n)
     \<Longrightarrow> evidence_part c = (if 0 < n then Some (''Seen on '' @ show_int n @ '' trips'') else None)"
  by (simp_all add: evidence_part_def evidence_int_def evidence_float_def trunc_def Let_def)

lemma evidence_parts_of_rules:
  "compute_within_route_turns encs t = Some c \<Longrightarrow> evidence_part c = None"
  "compute_within_route_persistence encs t = Some c \<Longrightarrow> evidence_part c = None"
  "compute_cross_route_geo_spread encs t = Some c \<Longrightarrow> evidence_part c = None"
  "compute_cross_route_timing encs t = Some c \<Longrightarrow> evidence_part c = None"
  subgoal by (rule evidence_part_named(1)) (auto simp: compute_within_route_turns_def Let_def split: option.splits if_splits)
  subgoal by (rule evidence_part_named(2)) (auto simp: compute_within_route_persistence_def Let_def split: option.splits if_splits)
  subgoal by (rule evidence_part_named(3)) (auto simp: compute_cross_route_geo_spread_def Let_def split: if_splits)
  subgoal by (rule evidence_part_named(4)) (auto simp: compute_cross_route_timing_def Let_def split: if_splits prod.splits)
  done

lemma evidence_parts_of_count:
  "compute_cross_route_count encs t = Some c \<Longrightarrow>
     evidence_part c = (let n = int (card (ref_routes (set encs))) in
       if 0 < n then Some (''Seen on '' @ show_int n @ '' trips'') else None)"
  unfolding Let_def
  by (rule evidence_part_named(6)) (auto simp: compute_cross_route_count_def Let_def length_named_routes split: if_splits)

lemma map_filter_app: "List.map_filter f (xs @ ys) = List.map_filter f xs @ List.map_filter f ys"
  by (induction xs) (simp_all add: map_filter_simps split: option.split)

lemma evidence_of_rules:
  "List.map_filter evidence_part (rule_components encs t) =
     (case compute_cross_route_count encs t of None \<Rightarrow> [] | Some c \<Rightarrow> List.map_filter evidence_part [c])"
  by (cases "compute_within_route_turns encs t"; cases "compute_within_route_persistence encs t";
      cases "compute_cross_route_count encs t"; cases "compute_cross_route_geo_spread encs t";
      cases "compute_cross_route_timing encs t")
    (simp_all add: rule_components_def map_filter_simps evidence_parts_of_rules split: option.split)

lemma evidence_of_score:
  "List.map_filter evidence_part (sc_components (score inp)) =
     (case compute_cross_route_count (in_encounters inp) (in_thresholds inp) of
        None \<Rightarrow> [] | Some c \<Rightarrow> List.map_filter evidence_part [c])
     @ (if in_whitelisted inp then [''(suppressed by whitelist)''] else [])"
  by (simp add: score_def Let_def map_filter_app evidence_of_rules map_filter_simps evidence_part_named(5))

lemma cluster_of_parts: "in_cluster (CHR ''S'' # CHR ''e'' # CHR ''e'' # CHR ''n'' # CHR '' '' # s)" "\<not> in_cluster ''(suppressed by whitelist)''"
  by (simp_all add: in_cluster_def)

lemma evidence_line_of_score:
  "format_evidence_summary (sc_components (score inp)) \<in>
     {[], ''(suppressed by whitelist).'',
      ''Seen on '' @ show_int (int (card (ref_routes (set (in_encounters inp))))) @ '' trips.'',
      ''Seen on '' @ show_int (int (card (ref_routes (set (in_encounters inp))))) @ '' trips; (suppressed by whitelist).''}"
proof -
  define seen where "seen = ''Seen on '' @ show_int (int (card (ref_routes (set (in_encounters inp))))) @ '' trips''"
  have "in_cluster seen" unfolding seen_def by (simp add: cluster_of_parts)
  moreover have "List.map_filter evidence_part (sc_components (score inp)) \<in>
      {[], [''(suppressed by whitelist)''], [seen], [seen, ''(suppressed by whitelist)'']}"
    unfolding evidence_of_score seen_def
    by (auto simp: map_filter_simps evidence_parts_of_count Let_def split: option.split)
  ultimately have "format_evidence_summary (sc_components (score inp)) \<in>
      {[], ''(suppressed by whitelist).'', seen @ ''.'', seen @ ''; (suppressed by whitelist).''}"
    unfolding format_evidence_summary_def Let_def by (auto simp: cluster_of_parts seen_def)
  then show ?thesis by (simp add: seen_def)
qed

section \<open>The contract of the operator's calls\<close>

text \<open>What a call means for the plate it names, and which plate that is.\<close>

fun operator_effect :: "operator_op \<Rightarrow> plate_state \<Rightarrow> plate_state" where
  "operator_effect (OpAck _) (Alert k _) = Alert k True"
| "operator_effect (OpUnack _) (Alert k _) = Alert k False"
| "operator_effect (OpWhitelist _) _ = Whitelisted"
| "operator_effect (OpRemove _) _ = Unknown"
| "operator_effect _ p = p"

definition op_target :: "(string \<Rightarrow> string) \<Rightarrow> operator_op \<Rightarrow> string option" where
  "op_target hash op =
     (case op of
        OpAck h \<Rightarrow> decode_plate_hash h
      | OpUnack h \<Rightarrow> decode_plate_hash h
      | OpNote h _ \<Rightarrow> decode_plate_hash h
      | OpWhitelist body \<Rightarrow> map_option (\<lambda>b. hash (fst b)) body
      | OpRemove h \<Rightarrow> decode_plate_hash h)"

definition done_ok :: "watch_resp \<Rightarrow> bool" where
  "done_ok r = (case r of WErr _ _ \<Rightarrow> False | WDisabled _ \<Rightarrow> False | _ \<Rightarrow> True)"

definition alert_severity :: "plate_state \<Rightarrow> int option" where
  "alert_severity p = (case p of Alert k _ \<Rightarrow> Some k | _ \<Rightarrow> None)"

lemma watch_of_set [simp]: "aw_watch (ws_world (set_watch d s)) = d" "ws_suppressed (set_watch d s) = ws_suppressed s"
  by (simp_all add: set_watch_def)

lemma write_audit_frame [simp]:
  "ws_world (write_audit v a p s) = ws_world s" "ws_suppressed (write_audit v a p s) = ws_suppressed s"
  by (simp_all add: write_audit_def)

lemma emit_suppressed_world [simp]: "ws_world (emit_suppressed v e s) = ws_world s"
  by (auto simp: emit_suppressed_def split: option.splits)

lemma done_ok_simps [simp]:
  "\<not> done_ok (WErr n m)" "\<not> done_ok (WDisabled m)" "done_ok (WAcked t)" "done_ok (WNotes m)" "done_ok (WAdded m)" "done_ok WRemoved"
  "\<not> done_ok bad_hash" "\<not> done_ok no_row"
  by (simp_all add: done_ok_def bad_hash_def no_row_def)

text \<open>What one handler has to show: the effect on success, nothing on failure.\<close>

definition obeys :: "operator_op \<Rightarrow> string option \<Rightarrow> watch_resp \<Rightarrow> watch_srv \<Rightarrow> watch_srv \<Rightarrow> bool" where
  "obeys op target r s s' \<longleftrightarrow>
     (let d = aw_watch (ws_world s); d' = aw_watch (ws_world s') in
      if done_ok r
      then (\<exists>h. target = Some h
        \<and> plate_state_of (look_watch d' h) = operator_effect op (plate_state_of (look_watch d h))
        \<and> (\<forall>k. k \<noteq> h \<longrightarrow> look_watch d' k = look_watch d k))
      else s' = s)"

lemma plate_state_simps [simp]:
  "plate_state_of None = Unknown"
  "wr_kind r = Whitelist \<Longrightarrow> plate_state_of (Some r) = Whitelisted"
  "wr_kind r = Note \<Longrightarrow> plate_state_of (Some r) = Noted"
  by (simp_all add: plate_state_of_def)

lemma obeys_fail: "\<not> done_ok r \<Longrightarrow> obeys op t r s s"
  by (simp add: obeys_def)

lemma obeys_update:
  assumes "update_watch h f (aw_watch (ws_world s)) = (n, d)" and "n \<noteq> 0" and "aw_watch (ws_world s') = d" and "done_ok r"
    and "\<And>x. plate_state_of (Some (f x)) = operator_effect op (plate_state_of (Some x))"
  shows "obeys op (Some h) r s s'"
proof -
  obtain x where "look_watch (aw_watch (ws_world s)) h = Some x"
    using assms(1,2) by (auto simp: update_watch_def split: option.splits)
  with assms update_watch_look [OF assms(1)] show ?thesis by (auto simp: obeys_def Let_def)
qed

lemma row_effects:
  "plate_state_of (Some (r\<lparr>wr_acked := Some t, wr_updated := u\<rparr>)) = operator_effect (OpAck h) (plate_state_of (Some r))"
  "plate_state_of (Some (r\<lparr>wr_acked := None, wr_updated := u\<rparr>)) = operator_effect (OpUnack h) (plate_state_of (Some r))"
  "plate_state_of (Some (r\<lparr>wr_notes := n, wr_updated := u\<rparr>)) = operator_effect (OpNote h b) (plate_state_of (Some r))"
  by (simp_all add: plate_state_of_def split: watch_kind.split)

lemma ack_obeys: "ack_alert v h s = (r, s') \<Longrightarrow> obeys (OpAck h) (decode_plate_hash h) r s s'"
  by (auto simp: ack_alert_def ack_watchlist_def intro!: obeys_fail obeys_update row_effects split: option.splits if_splits prod.splits)

lemma unack_obeys: "unack_alert v h s = (r, s') \<Longrightarrow> obeys (OpUnack h) (decode_plate_hash h) r s s'"
  by (auto simp: unack_alert_def unack_watchlist_def intro!: obeys_fail obeys_update row_effects split: option.splits if_splits prod.splits)

lemma note_obeys: "alert_note v h b s = (r, s') \<Longrightarrow> obeys (OpNote h b) (decode_plate_hash h) r s s'"
  by (auto simp: alert_note_def update_watchlist_notes_def intro!: obeys_fail obeys_update row_effects
      split: option.splits if_splits prod.splits)

lemma remove_obeys: "remove_whitelist_entry v h s = (r, s') \<Longrightarrow> obeys (OpRemove h) (decode_plate_hash h) r s s'"
  by (auto simp: remove_whitelist_entry_def obeys_def remove_watchlist_def watch_look plate_state_of_def
      split: option.splits if_splits)

lemma whitelist_upsert_state:
  assumes "upsert_watchlist_whitelist dbnow h l n d = Inr d'"
  shows "plate_state_of (look_watch d' h) = Whitelisted" and "k \<noteq> h \<Longrightarrow> look_watch d' k = look_watch d k"
  using assms by (auto simp: upsert_watchlist_whitelist_def upsert_watch_look split: option.split)

lemma obeys_ok:
  "done_ok r \<Longrightarrow> plate_state_of (look_watch (aw_watch (ws_world s')) h) = operator_effect op (plate_state_of (look_watch (aw_watch (ws_world s)) h))
     \<Longrightarrow> (\<And>k. k \<noteq> h \<Longrightarrow> look_watch (aw_watch (ws_world s')) k = look_watch (aw_watch (ws_world s)) k) \<Longrightarrow> obeys op (Some h) r s s'"
  by (auto simp: obeys_def Let_def)

lemma add_obeys:
  "add_whitelist hash enc v b s = (r, s') \<Longrightarrow> obeys (OpWhitelist b) (map_option (\<lambda>b. hash (fst b)) b) r s s'"
proof (cases "done_ok r")
  case True
  assume "add_whitelist hash enc v b s = (r, s')"
  with True show ?thesis
    by (auto simp: add_whitelist_def Let_def whitelist_upsert_state intro!: obeys_ok split: option.splits if_splits sum.splits)
next
  case False
  assume "add_whitelist hash enc v b s = (r, s')"
  with False show ?thesis
    by (auto simp: add_whitelist_def Let_def intro!: obeys_fail split: option.splits if_splits sum.splits)
qed

lemma operator_obeys: "operator_call hash enc v op s = (r, s') \<Longrightarrow> obeys op (op_target hash op) r s s'"
proof (cases "require_alpr_enabled (ce_settings_faults v) s")
  case (Some x)
  then have "\<not> done_ok x" by (auto simp: require_alpr_enabled_def Let_def split: option.splits prod.splits if_splits)
  moreover assume "operator_call hash enc v op s = (r, s')"
  ultimately show ?thesis using Some by (simp add: operator_call_def obeys_def)
next
  case None
  moreover assume "operator_call hash enc v op s = (r, s')"
  ultimately show ?thesis
    by (cases op) (auto simp: operator_call_def op_target_def intro: ack_obeys unack_obeys note_obeys remove_obeys add_obeys)
qed

text \<open>The side effects of a successful call: the notification queue and the audit trail.\<close>

definition suppressed_after ::
  "call_env \<Rightarrow> string \<Rightarrow> plate_state \<Rightarrow> (nat \<times> suppressed_event list) option \<Rightarrow> (nat \<times> suppressed_event list) option" where
  "suppressed_after v h p ch =
     (case (p, ch) of
        (Alert k _, Some (cap, q)) \<Rightarrow>
          if \<not> ce_gone v \<and> length q < cap then Some (cap, q @ [\<lparr>su_hash = h, su_severity = k, su_at = ce_now v\<rparr>]) else ch
      | _ \<Rightarrow> ch)"

fun op_action :: "operator_op \<Rightarrow> string" where
  "op_action (OpAck _) = ''alert_ack''"
| "op_action (OpUnack _) = ''alert_unack''"
| "op_action (OpNote _ _) = ''alert_note''"
| "op_action (OpWhitelist _) = ''whitelist_add''"
| "op_action (OpRemove _) = ''whitelist_remove''"

definition audited :: "call_env \<Rightarrow> string \<Rightarrow> watch_srv \<Rightarrow> watch_srv \<Rightarrow> bool" where
  "audited v action s s' \<longleftrightarrow>
     (if ce_faults v WqAudit then ws_audit s' = ws_audit s
      else (\<exists>a. ws_audit s' = ws_audit s @ [a] \<and> au_action a = action \<and> au_actor a = ce_actor v))"

lemma audited_write: "ws_audit s1 = ws_audit s \<Longrightarrow> audited v action s (write_audit v action p s1)"
  by (simp add: audited_def write_audit_def)

lemma audit_frame [simp]: "ws_audit (set_watch d s) = ws_audit s" "ws_audit (emit_suppressed v e s) = ws_audit s"
  by (auto simp: set_watch_def emit_suppressed_def split: option.splits)

lemma suppressed_emit:
  "ws_suppressed (emit_suppressed v \<lparr>su_hash = h, su_severity = k, su_at = ce_now v\<rparr> s) = suppressed_after v h (Alert k a) (ws_suppressed s)"
  by (auto simp: emit_suppressed_def suppressed_after_def split: option.splits)

lemma suppressed_other: "alert_severity p = None \<Longrightarrow> suppressed_after v h p ch = ch"
  by (auto simp: suppressed_after_def alert_severity_def split: plate_state.splits)

lemma kind_name_alerted: "kind_name k = ''alerted'' \<longleftrightarrow> k = Alerted"
  by (cases k) (simp_all add: kind_name_def)

lemma add_suppresses:
  assumes "add_whitelist hash enc v (Some (plate, label)) s = (r, s')" and "done_ok r"
  shows "ws_suppressed s' = suppressed_after v (hash plate) (plate_state_of (look_watch (aw_watch (ws_world s)) (hash plate))) (ws_suppressed s)"
proof (cases "look_watch (aw_watch (ws_world s)) (hash plate)")
  case None
  with assms show ?thesis
    by (auto simp: add_whitelist_def Let_def suppressed_other alert_severity_def split: option.splits if_splits sum.splits)
next
  case (Some x)
  show ?thesis
  proof (cases "wr_kind x = Alerted")
    case True
    then have "plate_state_of (Some x) = Alert (case wr_severity x of None \<Rightarrow> 0 | Some n \<Rightarrow> n) (wr_acked x \<noteq> None)"
      by (simp add: plate_state_of_def)
    moreover have "ws_suppressed s' = suppressed_after v (hash plate) (Alert (case wr_severity x of None \<Rightarrow> 0 | Some n \<Rightarrow> n) b) (ws_suppressed s)" for b
      using assms Some True
      by (auto simp: add_whitelist_def Let_def kind_name_alerted suppressed_emit [where a = b] split: option.splits if_splits sum.splits)
    ultimately show ?thesis using Some by simp
  next
    case False
    then have "alert_severity (plate_state_of (Some x)) = None"
      by (simp add: plate_state_of_def alert_severity_def split: watch_kind.split)
    with assms Some False show ?thesis
      by (auto simp: add_whitelist_def Let_def kind_name_alerted suppressed_other split: option.splits if_splits sum.splits)
  qed
qed

lemma handlers_audited:
  "ack_alert v h s = (r, s') \<Longrightarrow> done_ok r \<Longrightarrow> audited v ''alert_ack'' s s' \<and> ws_suppressed s' = ws_suppressed s"
  "unack_alert v h s = (r, s') \<Longrightarrow> done_ok r \<Longrightarrow> audited v ''alert_unack'' s s' \<and> ws_suppressed s' = ws_suppressed s"
  "alert_note v h b s = (r, s') \<Longrightarrow> done_ok r \<Longrightarrow> audited v ''alert_note'' s s' \<and> ws_suppressed s' = ws_suppressed s"
  "remove_whitelist_entry v h s = (r, s') \<Longrightarrow> done_ok r \<Longrightarrow> audited v ''whitelist_remove'' s s' \<and> ws_suppressed s' = ws_suppressed s"
  subgoal by (auto simp: ack_alert_def intro!: audited_write split: option.splits if_splits prod.splits)
  subgoal by (auto simp: unack_alert_def intro!: audited_write split: option.splits if_splits prod.splits)
  subgoal by (auto simp: alert_note_def intro!: audited_write split: option.splits if_splits prod.splits)
  subgoal by (auto simp: remove_whitelist_entry_def intro!: audited_write split: option.splits if_splits prod.splits)
  done

lemma add_audited: "add_whitelist hash enc v b s = (r, s') \<Longrightarrow> done_ok r \<Longrightarrow> audited v ''whitelist_add'' s s'"
  by (auto simp: add_whitelist_def Let_def intro!: audited_write split: option.splits if_splits sum.splits)

lemma operator_effects:
  assumes "operator_call hash enc v op s = (r, s')" and "done_ok r"
  shows "audited v (op_action op) s s'"
    and "ws_suppressed s' =
      (case op of
         OpWhitelist b \<Rightarrow> suppressed_after v (the (op_target hash op))
           (plate_state_of (look_watch (aw_watch (ws_world s)) (the (op_target hash op)))) (ws_suppressed s)
       | _ \<Rightarrow> ws_suppressed s)"
proof -
  have "require_alpr_enabled (ce_settings_faults v) s = None"
    using assms by (auto simp: operator_call_def require_alpr_enabled_def Let_def split: option.splits if_splits prod.splits)
  then have call: "(case op of OpAck h \<Rightarrow> ack_alert v h s | OpUnack h \<Rightarrow> unack_alert v h s | OpNote h b \<Rightarrow> alert_note v h b s
      | OpWhitelist b \<Rightarrow> add_whitelist hash enc v b s | OpRemove h \<Rightarrow> remove_whitelist_entry v h s) = (r, s')"
    using assms(1) by (simp add: operator_call_def)
  show "audited v (op_action op) s s'"
    using call assms(2) handlers_audited add_audited by (cases op) auto
  show "ws_suppressed s' =
      (case op of
         OpWhitelist b \<Rightarrow> suppressed_after v (the (op_target hash op))
           (plate_state_of (look_watch (aw_watch (ws_world s)) (the (op_target hash op)))) (ws_suppressed s)
       | _ \<Rightarrow> ws_suppressed s)"
  proof (cases op)
    case (OpWhitelist b)
    then obtain plate label where b: "b = Some (plate, label)"
      using call assms(2) by (cases b) (auto simp: add_whitelist_def split: if_splits)
    show ?thesis using call assms(2) add_suppresses unfolding OpWhitelist b by (simp add: op_target_def)
  qed (use call assms(2) handlers_audited in auto)
qed

section \<open>The worker and the operator together\<close>

text \<open>
  The evaluations in flight, each holding the score it computed, and the server. Evaluations
  load and commit in any order, operators call in between, and the encounters, the settings and
  the queues change at any time.
\<close>

record watch_sys =
  sy_srv :: watch_srv
  sy_flight :: "decision list"

definition watch_init :: "watch_sys \<Rightarrow> bool" where
  "watch_init y \<longleftrightarrow> wd_rows (aw_watch (ws_world (sy_srv y))) = [] \<and> sy_flight y = []"

inductive watch_step ::
  "(string \<Rightarrow> string) \<Rightarrow> (string \<Rightarrow> string option) \<Rightarrow> watch_sys \<Rightarrow> watch_sys \<Rightarrow> bool"
  for hash :: "string \<Rightarrow> string" and enc :: "string \<Rightarrow> string option" where
  load: "evaluate_load ef sf now h (ws_world (sy_srv y)) = Inr c \<Longrightarrow>
    watch_step hash enc y (y\<lparr>sy_flight := c # sy_flight y\<rparr>)"
| commit: "c \<in> set (sy_flight y) \<Longrightarrow> evaluate_commit ef dbnow route dongle c (ws_world (sy_srv y)) = (e, w) \<Longrightarrow>
    watch_step hash enc y (y\<lparr>sy_srv := (sy_srv y)\<lparr>ws_world := w\<rparr>, sy_flight := remove1 c (sy_flight y)\<rparr>)"
| operator: "operator_call hash enc v op (sy_srv y) = (r, s) \<Longrightarrow> watch_step hash enc y (y\<lparr>sy_srv := s\<rparr>)"
| inputs: "aw_watch w = aw_watch (ws_world (sy_srv y)) \<Longrightarrow>
    watch_step hash enc y (y\<lparr>sy_srv := (sy_srv y)\<lparr>ws_world := w, ws_suppressed := q\<rparr>\<rparr>)"

definition watch_inv :: "watch_sys \<Rightarrow> bool" where
  "watch_inv y \<longleftrightarrow> watch_wf (aw_watch (ws_world (sy_srv y))) \<and> (\<forall>c \<in> set (sy_flight y). sc_severity (dc_result c) \<le> 5)"

lemma whitelist_upsert_wf:
  "watch_wf d \<Longrightarrow> upsert_watchlist_whitelist dbnow h l n d = Inr d' \<Longrightarrow> watch_wf d'"
  unfolding upsert_watchlist_whitelist_def
  by (auto elim!: upsert_watch_wf [rotated 3] simp: row_wf_def)

lemma operator_keeps_wf:
  assumes "watch_wf (aw_watch (ws_world s))" and "operator_call hash enc v op s = (r, s')"
  shows "watch_wf (aw_watch (ws_world s'))"
proof -
  have upd: "watch_wf d'" if "update_watch h f (aw_watch (ws_world s)) = (n, d')" and "\<And>r. row_wf (f r) = row_wf r" for h f n d'
    using update_watch_wf [OF assms(1)] that by blast
  have same: "row_wf (r\<lparr>wr_acked := t, wr_updated := u\<rparr>) = row_wf r" "row_wf (r\<lparr>wr_notes := m, wr_updated := u\<rparr>) = row_wf r" for r t u m
    by (simp_all add: row_wf_def split: watch_kind.split)
  show ?thesis
  proof (cases op)
    case (OpWhitelist b)
    with assms show ?thesis
      by (auto simp: operator_call_def add_whitelist_def Let_def whitelist_upsert_wf split: option.splits if_splits sum.splits)
  qed (use assms upd same in \<open>auto simp: operator_call_def ack_alert_def unack_alert_def alert_note_def remove_whitelist_entry_def
         ack_watchlist_def unack_watchlist_def update_watchlist_notes_def remove_watchlist_def remove_row_wf
       split: option.splits if_splits prod.splits\<close>)
qed

lemma watch_step_inv: "watch_step hash enc y z \<Longrightarrow> watch_inv y \<Longrightarrow> watch_inv z"
proof (induction rule: watch_step.induct)
  case (load ef sf now h y c)
  have "sc_severity (dc_result c) \<le> 5" using evaluate_load_ok(3) [OF load(1)] plate_severity_range [of sf now h "ws_world (sy_srv y)"] by auto
  with load show ?case by (simp add: watch_inv_def)
qed (auto simp: watch_inv_def intro: evaluate_commit_wf operator_keeps_wf dest: notin_set_remove1)

lemma watch_init_inv: "watch_init y \<Longrightarrow> watch_inv y"
  by (simp add: watch_init_def watch_inv_def watch_wf_def look_watch_def)

interpretation watch_table_sys: step_invariant watch_init "watch_step hash enc" watch_inv
  by unfold_locales (auto intro: watch_init_inv watch_step_inv)

section \<open>The badge\<close>

text \<open>The open alerts of a well-formed table, one entry per plate.\<close>

definition open_rows :: "watch_db \<Rightarrow> (string \<times> watch_row) set" where
  "open_rows d = {(h, r). look_watch d h = Some r \<and> open_alert r}"

lemma open_rows_set: "watch_wf d \<Longrightarrow> open_rows d = set (filter (\<lambda>p. open_alert (snd p)) (wd_rows d))"
  by (auto simp: open_rows_def look_watch_def watch_wf_def dest: map_of_SomeD intro: map_of_is_SomeI)

lemma open_rows_data:
  assumes "watch_wf d" and "p \<in> open_rows d"
  shows "\<exists>k t. wr_severity (snd p) = Some k \<and> 2 \<le> k \<and> wr_last (snd p) = Some t"
  using assms watch_wf_look [OF assms(1), of "fst p" "snd p"] by (cases p) (auto simp: open_rows_def open_alert_def row_wf_def)

lemma count_open: "watch_wf d \<Longrightarrow> count_unacked_alerts d = int (card (open_rows d))"
proof -
  assume wf: "watch_wf d"
  then have "distinct (filter (\<lambda>p. open_alert (snd p)) (wd_rows d))"
    by (simp add: watch_wf_def distinct_map)
  then show ?thesis unfolding count_unacked_alerts_def open_rows_set [OF wf] by (simp only: distinct_card)
qed

lemma max_severity_fold:
  assumes "\<forall>p \<in> set xs. open_alert (snd p) \<longrightarrow> wr_severity (snd p) \<noteq> None"
  shows "fold (\<lambda>p m. if open_alert (snd p) then sql_greatest m (wr_severity (snd p)) else m) xs None =
    (let S = (\<lambda>p. the (wr_severity (snd p))) ` {p \<in> set xs. open_alert (snd p)} in if S = {} then None else Some (Max S))"
  using assms
proof (induction xs rule: rev_induct)
  case Nil
  then show ?case by simp
next
  case (snoc x xs)
  have set_app: "{p \<in> set (xs @ [x]). open_alert (snd p)} =
      (if open_alert (snd x) then insert x {p \<in> set xs. open_alert (snd p)} else {p \<in> set xs. open_alert (snd p)})" by auto
  show ?case
  proof (cases "open_alert (snd x)")
    case True
    then obtain k where k: "wr_severity (snd x) = Some k" using snoc.prems by auto
    define os where "os = {p \<in> set xs. open_alert (snd p)}"
    have fin: "finite os" by (simp add: os_def)
    have "fold (\<lambda>p m. if open_alert (snd p) then sql_greatest m (wr_severity (snd p)) else m) xs None =
        (if os = {} then None else Some (Max ((\<lambda>p. the (wr_severity (snd p))) ` os)))"
      using snoc unfolding os_def by (simp add: Let_def)
    with True k fin show ?thesis
      unfolding set_app os_def [symmetric] by (cases "os = {}") (simp_all add: sql_greatest_def Let_def max.commute)
  next
    case False
    then show ?thesis using snoc unfolding set_app by simp
  qed
qed

lemma max_open:
  assumes "watch_wf d"
  shows "max_open_severity d = (if open_rows d = {} then 0 else Max ((\<lambda>p. the (wr_severity (snd p))) ` open_rows d))"
proof -
  have sev: "\<forall>p \<in> set (wd_rows d). open_alert (snd p) \<longrightarrow> wr_severity (snd p) \<noteq> None"
    using open_rows_data [OF assms] unfolding open_rows_set [OF assms] by fastforce
  show ?thesis
    unfolding max_open_severity_def max_severity_fold [OF sev] open_rows_set [OF assms] set_filter Let_def by auto
qed

lemma hd_sort_key:
  assumes "xs \<noteq> []"
  shows "hd (sort_key f xs) \<in> set xs \<and> (\<forall>x \<in> set xs. f (hd (sort_key f xs)) \<le> f x)"
proof -
  obtain y ys where y: "sort_key f xs = y # ys" using assms by (metis length_greater_0_conv length_sort neq_Nil_conv)
  moreover have "sorted (map f (y # ys))" using sorted_sort_key y by metis
  moreover have "set xs = set (y # ys)" using y by (metis set_sort)
  ultimately show ?thesis by auto
qed

lemma sort_key_nil: "sort_key f xs = [] \<longleftrightarrow> xs = []"
  by (metis length_0_conv length_sort)

lemma newest_open:
  assumes wf: "watch_wf d"
  shows "list_alerts 1 0 (Some False) d =
      Some (if open_rows d = {} then [] else [hd (sort_key newest_alert_key (filter (\<lambda>p. open_alert (snd p)) (wd_rows d)))])"
    and "open_rows d \<noteq> {} \<Longrightarrow> wr_last (snd (hd (sort_key newest_alert_key (filter (\<lambda>p. open_alert (snd p)) (wd_rows d)))))
      = Some (Max ((\<lambda>p. the (wr_last (snd p))) ` open_rows d))"
proof -
  let ?xs = "filter (\<lambda>p. open_alert (snd p)) (wd_rows d)"
  have same: "(\<lambda>p :: string \<times> watch_row. wr_kind (snd p) = Alerted \<and> (case Some False of None \<Rightarrow> True | Some b \<Rightarrow> b = (wr_acked (snd p) \<noteq> None)))
      = (\<lambda>p. open_alert (snd p))" by (auto simp: open_alert_def)
  have one: "take (Suc 0) ys = (if ys = [] then [] else [hd ys])" for ys :: "(string \<times> watch_row) list" by (cases ys) auto
  show "list_alerts 1 0 (Some False) d = Some (if open_rows d = {} then [] else [hd (sort_key newest_alert_key ?xs)])"
    unfolding list_alerts_def same page_def open_rows_set [OF wf]
    by (simp add: one sort_key_nil set_empty del: set_filter)
  show "wr_last (snd (hd (sort_key newest_alert_key ?xs))) = Some (Max ((\<lambda>p. the (wr_last (snd p))) ` open_rows d))"
    if "open_rows d \<noteq> {}"
  proof -
    let ?y = "hd (sort_key newest_alert_key ?xs)"
    have xs: "set ?xs = open_rows d" by (rule open_rows_set [OF wf, symmetric])
    then have fin: "finite (open_rows d)" by (metis List.finite_set)
    have "?xs \<noteq> []" using xs that by force
    from hd_sort_key [OF this, of newest_alert_key] have y: "?y \<in> open_rows d"
      "\<And>x. x \<in> open_rows d \<Longrightarrow> newest_alert_key ?y \<le> newest_alert_key x" unfolding xs by auto
    obtain t where t: "wr_last (snd ?y) = Some t" using open_rows_data [OF wf y(1)] by blast
    have "the (wr_last (snd x)) \<le> t" if "x \<in> open_rows d" for x
      using open_rows_data [OF wf that] y(2) [OF that] t by (auto simp: newest_alert_key_def)
    then have "Max ((\<lambda>p. the (wr_last (snd p))) ` open_rows d) = t"
      using image_eqI [OF _ y(1), of t "\<lambda>p. the (wr_last (snd p))"] t fin by (intro Max_eqI) auto
    with t show ?thesis by simp
  qed
qed

section \<open>Example server\<close>

text \<open>ALPR on, the keyring loaded, the plate of \<open>demo_alerts\<close> under the hash \<open>h\<close>, which is \<open>aA\<close> in base64.\<close>

definition demo_center :: watch_srv where
  "demo_center = \<lparr>ws_world = demo_alerts\<lparr>aw_settings := Some (map_of [(''alpr_enabled'', ''true'')])\<rparr>, ws_audit = [],
     ws_suppressed = Some (4, []), ws_keys = True\<rparr>"

definition demo_call :: call_env where
  "demo_call = \<lparr>ce_faults = (\<lambda>_. False), ce_settings_faults = (\<lambda>_. False), ce_now = 5, ce_dbnow = 6, ce_actor = Some ''user:1'',
     ce_gone = False\<rparr>"

lemma demo_plate: "normalize_plate ''h'' = ''H''"
  by code_simp

section \<open>Properties\<close>

text \<open>C4: a call of the operator does what its verb says. When it answers with success, the plate it names
  goes through \<open>operator_effect\<close> (acknowledged, reopened, whitelisted, forgotten, or unchanged by
  a note), no other plate changes, the audit trail gains exactly one row of that action unless the
  insert fails, and whitelisting an alerted plate queues one suppression with its severity. Any
  other answer, the disabled gate and every failing statement included, leaves the server as it
  was.\<close>

theorem operator_refines:
  assumes "operator_call hash enc v op s = (r, s')"
  shows "if done_ok r
    then \<exists>h. op_target hash op = Some h
      \<and> plate_state_of (look_watch (aw_watch (ws_world s')) h)
          = operator_effect op (plate_state_of (look_watch (aw_watch (ws_world s)) h))
      \<and> (\<forall>k. k \<noteq> h \<longrightarrow> look_watch (aw_watch (ws_world s')) k = look_watch (aw_watch (ws_world s)) k)
      \<and> audited v (op_action op) s s'
      \<and> ws_suppressed s' =
          (case op of
             OpWhitelist _ \<Rightarrow> suppressed_after v h (plate_state_of (look_watch (aw_watch (ws_world s)) h)) (ws_suppressed s)
           | _ \<Rightarrow> ws_suppressed s)
    else s' = s"
proof (cases "done_ok r")
  case True
  then obtain h where t: "op_target hash op = Some h"
    and "plate_state_of (look_watch (aw_watch (ws_world s')) h) = operator_effect op (plate_state_of (look_watch (aw_watch (ws_world s)) h))"
    and "\<forall>k. k \<noteq> h \<longrightarrow> look_watch (aw_watch (ws_world s')) k = look_watch (aw_watch (ws_world s)) k"
    using operator_obeys [OF assms] by (auto simp: obeys_def Let_def)
  with True operator_effects [OF assms True, unfolded t option.sel] show ?thesis by simp
qed (use operator_obeys [OF assms] in \<open>simp add: obeys_def\<close>)

theorem operator_refines_witness:
  "plate_state_of (look_watch (aw_watch (ws_world (snd (operator_call (\<lambda>p. p) Some demo_call (OpWhitelist (Some (''h'', ''''))) demo_center)))) ''h'')
      = Whitelisted
   \<and> ws_suppressed (snd (operator_call (\<lambda>p. p) Some demo_call (OpWhitelist (Some (''h'', ''''))) demo_center))
      = Some (4, [\<lparr>su_hash = ''h'', su_severity = 3, su_at = 5\<rparr>])"
proof -
  obtain s' where run: "operator_call (\<lambda>p. p) Some demo_call (OpWhitelist (Some (''h'', ''''))) demo_center = (WAdded (b64_enc ''h''), s')"
    by (simp add: operator_call_def require_alpr_enabled_def bool_or_def or_default_def get_bool_setting_def get_setting_def
        db_get_setting_def parse_bool_def demo_center_def demo_call_def add_whitelist_def demo_plate
        label_cipher_def Let_def upsert_watchlist_whitelist_def upsert_watch_def severity_check_def look_watch_def
        demo_alerts_def demo_row_def hash_b64_def)
  have "plate_state_of (look_watch (aw_watch (ws_world demo_center)) ''h'') = Alert 3 True"
    by (simp add: demo_center_def demo_alerts_def look_watch_def plate_state_of_def demo_row_def)
  with operator_refines [OF run] show ?thesis unfolding run
    by (simp add: op_target_def suppressed_after_def demo_call_def demo_center_def)
qed



text \<open>The badge is exact. On a well-formed table it counts the plates with an unacknowledged alert,
  shows the highest severity among them and the latest alert time among them, and shows neither
  when there is none.\<close>

theorem summary_exact:
  assumes "watch_wf d"
  shows "alerts_summary (\<lambda>_. False) d =
    WSummary (int (card (open_rows d)))
      (if open_rows d = {} then None else Some (Max ((\<lambda>p. the (wr_severity (snd p))) ` open_rows d)))
      (if open_rows d = {} then None else Some (Max ((\<lambda>p. the (wr_last (snd p))) ` open_rows d)))"
proof -
  have "0 < Max ((\<lambda>p. the (wr_severity (snd p))) ` open_rows d)" if "open_rows d \<noteq> {}"
  proof -
    have "finite (open_rows d)" unfolding open_rows_set [OF assms] by (rule List.finite_set)
    then have "Max ((\<lambda>p. the (wr_severity (snd p))) ` open_rows d) \<in> (\<lambda>p. the (wr_severity (snd p))) ` open_rows d"
      using that by (intro Max_in) auto
    then show ?thesis using open_rows_data [OF assms] by force
  qed
  then show ?thesis
    using newest_open [OF assms] unfolding alerts_summary_def Let_def count_open [OF assms] max_open [OF assms] by auto
qed

theorem summary_exact_witness:
  "alerts_summary (\<lambda>_. False) (aw_watch demo_alerts) = WSummary 0 None None"
proof -
  have wf: "watch_wf (aw_watch demo_alerts)"
    by (auto simp: watch_wf_def look_watch_def demo_alerts_def row_wf_def demo_row_def split: if_splits)
  have "open_rows (aw_watch demo_alerts) = {}"
    by (auto simp: open_rows_def look_watch_def demo_alerts_def demo_row_def open_alert_def split: if_splits)
  with summary_exact [OF wf] show ?thesis by simp
qed

end
