(* ===== verification/AlprCleanup.thy ===== *)
theory AlprCleanup imports WatchlistApi Aggregator Cleanup begin

text \<open>
  The ALPR retention worker of \<open>internal/worker/alpr_cleanup.go\<close> over the detections and encounters
  of the aggregator, the watchlist and the audit events, with its statements of
  \<open>internal/db/alpr_detections.sql.go\<close>, \<open>alpr_encounters.sql.go\<close>, \<open>alpr_alert_events.sql.go\<close> and
  \<open>alpr_watchlist.sql.go\<close>. A detection's \<open>frame_ts\<close> is NOT NULL in the table. Counters, logs
  and the sample of hashes are left out.
\<close>

section \<open>The tables\<close>

text \<open>
  Migration 018 allows watchlist rows that are keyed by a vehicle signature and have no plate hash;
  they stand apart from the rows of \<open>watch_db\<close>.
\<close>

record alpr_tables =
  at_detections :: "detection list"
  at_encounters :: "enc_row list"
  at_events :: "(gotime \<times> alert_event) list"
  at_watch :: watch_db
  at_signatures :: "watch_row list"

record alpr_cleanup_cfg =
  ac_settings :: "settings_db option"
  ac_env_unflagged :: int
  ac_env_flagged :: int
  ac_dry_run :: bool

datatype alpr_cleanup_query = AcFlagged | AcUnflagged | AcCeiling | AcEncounters | AcEvents

text \<open>\<open>ListFlaggedPlateHashes\<close>; \<open>None\<close> is a NULL hash.\<close>

definition list_flagged :: "alpr_tables \<Rightarrow> string option list" where
  "list_flagged d = map Some (list_flagged_plate_hashes (at_watch d)) @ map (\<lambda>_. None) (filter flagged_row (at_signatures d))"

definition det_before :: "gotime \<Rightarrow> detection \<Rightarrow> bool" where
  "det_before cutoff x \<longleftrightarrow> (case det_ts x of None \<Rightarrow> False | Some t \<Rightarrow> t < cutoff)"

text \<open>\<open>NOT IN\<close> holds when no element is equal and none is NULL.\<close>

definition sql_not_in :: "'a \<Rightarrow> 'a option list \<Rightarrow> bool" where
  "sql_not_in x xs \<longleftrightarrow> (\<forall>y \<in> set xs. case y of None \<Rightarrow> False | Some z \<Rightarrow> z \<noteq> x)"

definition delete_excluding_flagged :: "gotime \<Rightarrow> string option list \<Rightarrow> alpr_tables \<Rightarrow> alpr_tables" where
  "delete_excluding_flagged cutoff flagged d =
     d\<lparr>at_detections := filter (\<lambda>x. \<not> (det_before cutoff x \<and> sql_not_in (det_hash x) flagged)) (at_detections d)\<rparr>"

definition delete_older_than :: "gotime \<Rightarrow> alpr_tables \<Rightarrow> alpr_tables" where
  "delete_older_than cutoff d = d\<lparr>at_detections := filter (\<lambda>x. \<not> det_before cutoff x) (at_detections d)\<rparr>"

definition evidenced :: "detection list \<Rightarrow> enc_row \<Rightarrow> bool" where
  "evidenced xs e \<longleftrightarrow> (\<exists>x \<in> set xs. det_dongle x = er_dongle e \<and> det_route x = er_route e \<and> det_hash x = en_hash (er_enc e)
     \<and> (case det_ts x of None \<Rightarrow> False | Some t \<Rightarrow> en_first (er_enc e) \<le> t \<and> t \<le> en_last (er_enc e)))"

definition delete_orphaned_encounters :: "alpr_tables \<Rightarrow> alpr_tables" where
  "delete_orphaned_encounters d = d\<lparr>at_encounters := filter (evidenced (at_detections d)) (at_encounters d)\<rparr>"

definition delete_orphaned_alert_events :: "gotime \<Rightarrow> alpr_tables \<Rightarrow> alpr_tables" where
  "delete_orphaned_alert_events cutoff d =
     d\<lparr>at_events := filter (\<lambda>(t, e). \<not> (t < cutoff \<and> look_watch (at_watch d) (ae_hash e) = None)) (at_events d)\<rparr>"

section \<open>The pass\<close>

definition tier_days :: "(setting_query \<Rightarrow> bool) \<Rightarrow> settings_db option \<Rightarrow> string \<Rightarrow> int \<Rightarrow> int" where
  "tier_days sf st key env =
     (case st of
        None \<Rightarrow> env
      | Some d \<Rightarrow> (case int_or sf key env d of (v, None) \<Rightarrow> v | (_, Some _) \<Rightarrow> env))"

definition unflagged_retention_days :: "(setting_query \<Rightarrow> bool) \<Rightarrow> alpr_cleanup_cfg \<Rightarrow> int" where
  "unflagged_retention_days sf c = tier_days sf (ac_settings c) ''alpr_retention_days_unflagged'' (ac_env_unflagged c)"

definition flagged_retention_days :: "(setting_query \<Rightarrow> bool) \<Rightarrow> alpr_cleanup_cfg \<Rightarrow> int" where
  "flagged_retention_days sf c = tier_days sf (ac_settings c) ''alpr_retention_days_flagged'' (ac_env_flagged c)"

text \<open>\<open>alertEventsRetentionDays\<close>.\<close>

definition alert_events_window :: int where
  "alert_events_window = 90 * 24 * hour"

text \<open>One tier: whether it failed, and the tables. A dry run touches nothing and cannot fail.\<close>

definition run_tier :: "bool \<Rightarrow> bool \<Rightarrow> (alpr_tables \<Rightarrow> alpr_tables) \<Rightarrow> alpr_tables \<Rightarrow> bool \<times> alpr_tables" where
  "run_tier dry fails f d = (if dry then (False, d) else if fails then (True, d) else (False, f d))"

text \<open>
  The four tiers in order, each after what other parties did in between (\<open>others\<close>), with the flagged
  set read at the start. The errors are the names of the tiers that failed.
\<close>

definition alpr_tiers ::
  "(alpr_cleanup_query \<Rightarrow> bool) \<Rightarrow> bool \<Rightarrow> gotime \<Rightarrow> int \<Rightarrow> int \<Rightarrow> string option list \<Rightarrow> (nat \<Rightarrow> alpr_tables \<Rightarrow> alpr_tables)
     \<Rightarrow> alpr_tables \<Rightarrow> string list \<times> alpr_tables" where
  "alpr_tiers flt dry now u f flagged others d0 =
     (let (e1, d1) = (if 0 < u then run_tier dry (flt AcUnflagged) (delete_excluding_flagged (retention_cutoff now u) flagged) (others 0 d0)
                      else (False, others 0 d0));
          (e2, d2) = (if 0 < f then run_tier dry (flt AcCeiling) (delete_older_than (retention_cutoff now f)) (others 1 d1)
                      else (False, others 1 d1));
          (e3, d3) = run_tier dry (flt AcEncounters) delete_orphaned_encounters (others 2 d2);
          (e4, d4) = run_tier dry (flt AcEvents) (delete_orphaned_alert_events (now - alert_events_window)) (others 3 d3) in
      ((if e1 then [''delete unflagged detections''] else []) @ (if e2 then [''delete flagged detections''] else [])
       @ (if e3 then [''delete orphan encounters''] else []) @ (if e4 then [''delete orphan alert events''] else []), d4))"

definition alpr_run_once ::
  "(alpr_cleanup_query \<Rightarrow> bool) \<Rightarrow> (setting_query \<Rightarrow> bool) \<Rightarrow> alpr_cleanup_cfg \<Rightarrow> gotime \<Rightarrow> (nat \<Rightarrow> alpr_tables \<Rightarrow> alpr_tables)
     \<Rightarrow> alpr_tables \<Rightarrow> string list \<times> alpr_tables" where
  "alpr_run_once flt sf c now others d =
     (if flt AcFlagged then ([''list flagged plate hashes''], d)
      else alpr_tiers flt (ac_dry_run c) now (unflagged_retention_days sf c) (flagged_retention_days sf c) (list_flagged d) others d)"

text \<open>One tick of \<open>Run\<close>.\<close>

definition alpr_cleanup_tick ::
  "(alpr_cleanup_query \<Rightarrow> bool) \<Rightarrow> (setting_query \<Rightarrow> bool) \<Rightarrow> alpr_cleanup_cfg \<Rightarrow> gotime \<Rightarrow> (nat \<Rightarrow> alpr_tables \<Rightarrow> alpr_tables)
     \<Rightarrow> alpr_tables \<Rightarrow> alpr_tables" where
  "alpr_cleanup_tick flt sf c now others d =
     (if alpr_gate sf (ac_settings c) then snd (alpr_run_once flt sf c now others d) else d)"

section \<open>Lemmas\<close>

text \<open>A plate whose evidence the pass must keep up to the ceiling.\<close>

definition protected :: "alpr_tables \<Rightarrow> string \<Rightarrow> bool" where
  "protected d h \<longleftrightarrow> (\<exists>r. look_watch (at_watch d) h = Some r \<and> flagged_row r)"

lemma protected_iff:
  assumes "watch_wf (at_watch d)"
  shows "protected d h \<longleftrightarrow> (case plate_state_of (look_watch (at_watch d) h) of Alert k acked \<Rightarrow> \<not> acked \<or> 4 \<le> k | _ \<Rightarrow> False)"
  using watch_wf_look [OF assms, of h]
  by (auto simp: protected_def flagged_row_def plate_state_of_def row_wf_def split: option.splits watch_kind.splits)

lemma flagged_hashes:
  assumes "watch_wf (at_watch d)"
  shows "Some h \<in> set (list_flagged d) \<longleftrightarrow> protected d h"
proof -
  have "h \<in> set (list_flagged_plate_hashes (at_watch d)) \<longleftrightarrow> (\<exists>r. (h, r) \<in> set (wd_rows (at_watch d)) \<and> flagged_row r)"
    by (force simp: list_flagged_plate_hashes_def)
  also have "\<dots> \<longleftrightarrow> protected d h"
    using assms by (auto simp: protected_def look_watch_def watch_wf_def dest: map_of_SomeD intro: map_of_is_SomeI)
  finally show ?thesis by (auto simp: list_flagged_def)
qed

lemma not_in_flagged:
  assumes "watch_wf (at_watch d)" and "\<not> (\<exists>r \<in> set (at_signatures d). flagged_row r)"
  shows "sql_not_in h (list_flagged d) \<longleftrightarrow> \<not> protected d h"
proof -
  have "None \<notin> set (list_flagged d)" using assms(2) by (auto simp: list_flagged_def)
  then have "sql_not_in h (list_flagged d) \<longleftrightarrow> Some h \<notin> set (list_flagged d)"
    by (auto simp: sql_not_in_def split: option.splits) (metis option.exhaust)
  then show ?thesis using flagged_hashes [OF assms(1)] by simp
qed

text \<open>
  One flagged row without a plate hash makes \<open>NOT IN\<close> unknown for every plate, and the unflagged
  tier deletes nothing any more.
\<close>

lemma signature_alert_stops_retention:
  assumes "r \<in> set (at_signatures d)" and "flagged_row r"
  shows "delete_excluding_flagged cutoff (list_flagged d) d2 = d2"
proof -
  have "None \<in> set (list_flagged d)" using assms by (auto simp: list_flagged_def)
  then have "\<not> sql_not_in h (list_flagged d)" for h unfolding sql_not_in_def by (force split: option.splits)
  then show ?thesis by (simp add: delete_excluding_flagged_def)
qed

text \<open>What a complete pass makes of the tables.\<close>

definition expired :: "gotime \<Rightarrow> int \<Rightarrow> int \<Rightarrow> alpr_tables \<Rightarrow> detection \<Rightarrow> bool" where
  "expired now u f d x \<longleftrightarrow>
     0 < u \<and> det_before (now - u * 24 * hour) x \<and> \<not> protected d (det_hash x) \<or> 0 < f \<and> det_before (now - f * 24 * hour) x"

definition spent_event :: "gotime \<Rightarrow> watch_db \<Rightarrow> gotime \<times> alert_event \<Rightarrow> bool" where
  "spent_event now w = (\<lambda>(t, e). t < now - alert_events_window \<and> look_watch w (ae_hash e) = None)"

definition retained :: "gotime \<Rightarrow> int \<Rightarrow> int \<Rightarrow> alpr_tables \<Rightarrow> alpr_tables" where
  "retained now u f d =
     (let kept = filter (\<lambda>x. \<not> expired now u f d x) (at_detections d) in
      d\<lparr>at_detections := kept, at_encounters := filter (evidenced kept) (at_encounters d),
        at_events := filter (\<lambda>p. \<not> spent_event now (at_watch d) p) (at_events d)\<rparr>)"

lemma delete_excluding_flagged_protected:
  assumes "watch_wf (at_watch d)" and "\<not> (\<exists>r \<in> set (at_signatures d). flagged_row r)"
  shows "delete_excluding_flagged cutoff (list_flagged d) d
    = d\<lparr>at_detections := filter (\<lambda>x. \<not> (det_before cutoff x \<and> \<not> protected d (det_hash x))) (at_detections d)\<rparr>"
  by (simp add: delete_excluding_flagged_def not_in_flagged [OF assms])

lemma orphaned_events_spent:
  "delete_orphaned_alert_events (now - alert_events_window) d = d\<lparr>at_events := filter (\<lambda>p. \<not> spent_event now (at_watch d) p) (at_events d)\<rparr>"
proof -
  have "(\<lambda>p. \<not> spent_event now (at_watch d) p) = (\<lambda>(t, e). \<not> (t < now - alert_events_window \<and> look_watch (at_watch d) (ae_hash e) = None))"
    by (rule ext) (simp add: spent_event_def split: prod.split)
  then show ?thesis by (simp only: delete_orphaned_alert_events_def)
qed

lemma protected_cong: "at_watch d' = at_watch d \<Longrightarrow> protected d' = protected d"
  by (simp add: protected_def fun_eq_iff)

lemmas tier_defs = alpr_tiers_def run_tier_def delete_older_than_def delete_orphaned_encounters_def orphaned_events_spent Let_def

lemma complete_pass:
  assumes "watch_wf (at_watch d)" and "\<not> (\<exists>r \<in> set (at_signatures d). flagged_row r)" and "days_fit u" and "days_fit f"
    and "alpr_tiers flt False now u f (list_flagged d) (\<lambda>_ d. d) d = ([], d')"
  shows "d' = retained now u f d"
  using assms(5)
  by (auto simp: tier_defs retained_def expired_def cutoff_exact [OF assms(3)] cutoff_exact [OF assms(4)]
      delete_excluding_flagged_protected [OF assms(1,2)] conj_commute split: if_splits prod.splits intro!: filter_cong arg_cong2 [where f = filter])

lemma partial_pass:
  assumes "watch_wf (at_watch d)" and "\<not> (\<exists>r \<in> set (at_signatures d). flagged_row r)" and "days_fit u" and "days_fit f"
    and "alpr_tiers flt dry now u f (list_flagged d) (\<lambda>_ d. d) d = (errs, d')"
  shows "at_watch d' = at_watch d \<and> at_signatures d' = at_signatures d"
    and "x \<in> set (at_detections d) - set (at_detections d') \<Longrightarrow> expired now u f d x"
    and "e \<in> set (at_encounters d) - set (at_encounters d') \<Longrightarrow> \<not> evidenced (at_detections d') e"
    and "p \<in> set (at_events d) - set (at_events d') \<Longrightarrow> spent_event now (at_watch d) p"
    and "dry \<Longrightarrow> errs = [] \<and> d' = d"
  using assms(5)
  by (auto simp: tier_defs expired_def cutoff_exact [OF assms(3)] cutoff_exact [OF assms(4)]
      delete_excluding_flagged_protected [OF assms(1,2)] split: if_splits prod.splits)

section \<open>The property\<close>


definition demo_tables :: alpr_tables where
  "demo_tables = \<lparr>at_detections =
       [\<lparr>det_id = 1, det_dongle = ''d'', det_route = ''r'', det_hash = ''a'', det_ts = Some (- 40 * 24 * hour), det_bbox = ''''\<rparr>,
        \<lparr>det_id = 2, det_dongle = ''d'', det_route = ''r'', det_hash = ''b'', det_ts = Some (- 40 * 24 * hour), det_bbox = ''''\<rparr>],
     at_encounters = [], at_events = [],
     at_watch = \<lparr>wd_rows = [(''a'', \<lparr>wr_id = 1, wr_label = None, wr_kind = Alerted, wr_severity = Some 3, wr_first = Some 0,
       wr_last = Some 0, wr_acked = None, wr_notes = None, wr_created = 0, wr_updated = 0\<rparr>)], wd_next = 2\<rparr>, at_signatures = []\<rparr>"

definition demo_retention :: alpr_cleanup_cfg where
  "demo_retention = \<lparr>ac_settings = None, ac_env_unflagged = 30, ac_env_flagged = 365, ac_dry_run = False\<rparr>"


end
