(* ===== verification/RouteRequests.thy ===== *)
theory RouteRequests imports Upload Hub begin

text \<open>
  On-demand pulls of full-resolution files: the handlers of \<open>internal/api/route_data_request.go\<close>,
  the table statements of \<open>internal/db/route_data_requests.sql.go\<close>, the retry worker of
  \<open>internal/worker/route_data_request_dispatcher.go\<close> and its item builder in
  \<open>cmd/server/workers.go\<close>. A URL is kept as its parts (origin, path, query pair), which
  \<open>net/url\<close> renders and the server parses back. The RPC is its outcome.
\<close>

section \<open>The table\<close>

datatype req_status = RqPending | RqDispatched | RqPartial | RqComplete | RqFailed

record req_row =
  rdr_id :: int
  rdr_route :: int
  rdr_by :: "string option"
  rdr_at :: gotime
  rdr_kind :: string
  rdr_status :: req_status
  rdr_dispatched :: "gotime option"
  rdr_completed :: "gotime option"
  rdr_error :: "string option"
  rdr_files :: int

record req_db =
  qd_rows :: "req_row list"
  qd_next :: int

definition create_request ::
  "gotime \<Rightarrow> int \<Rightarrow> string option \<Rightarrow> string \<Rightarrow> req_status \<Rightarrow> int \<Rightarrow> gotime option \<Rightarrow> string option \<Rightarrow> req_db \<Rightarrow> req_row \<times> req_db" where
  "create_request dbnow route by kind st files dispatched err d =
     (let r = \<lparr>rdr_id = qd_next d, rdr_route = route, rdr_by = by, rdr_at = dbnow, rdr_kind = kind, rdr_status = st,
                rdr_dispatched = dispatched, rdr_completed = None, rdr_error = err, rdr_files = files\<rparr>
      in (r, d\<lparr>qd_rows := qd_rows d @ [r], qd_next := qd_next d + 1\<rparr>))"

text \<open>The newest request of a route and kind; of two requested at the same instant, the first in the table.\<close>

definition get_latest_request :: "int \<Rightarrow> string \<Rightarrow> req_db \<Rightarrow> req_row option" where
  "get_latest_request route kind d =
     (case sort_key (\<lambda>r. - rdr_at r) (filter (\<lambda>r. rdr_route r = route \<and> rdr_kind r = kind) (qd_rows d)) of
        [] \<Rightarrow> None | r # _ \<Rightarrow> Some r)"

definition get_request :: "int \<Rightarrow> req_db \<Rightarrow> req_row option" where
  "get_request i d = find (\<lambda>r. rdr_id r = i) (qd_rows d)"

definition stamp_request :: "req_status \<Rightarrow> gotime option \<Rightarrow> gotime option \<Rightarrow> string option \<Rightarrow> req_row \<Rightarrow> req_row" where
  "stamp_request st dispatched completed err r =
     r\<lparr>rdr_status := st, rdr_dispatched := sql_coalesce dispatched (rdr_dispatched r),
       rdr_completed := sql_coalesce completed (rdr_completed r), rdr_error := sql_coalesce err (rdr_error r)\<rparr>"

definition update_request_status ::
  "int \<Rightarrow> req_status \<Rightarrow> gotime option \<Rightarrow> gotime option \<Rightarrow> string option \<Rightarrow> req_db \<Rightarrow> req_db" where
  "update_request_status i st dispatched completed err d =
     d\<lparr>qd_rows := map (\<lambda>r. if rdr_id r = i then stamp_request st dispatched completed err r else r) (qd_rows d)\<rparr>"

text \<open>Pending rows joined with their route, oldest first.\<close>

definition list_pending :: "int \<Rightarrow> route list \<Rightarrow> req_db \<Rightarrow> (req_row \<times> route) list" where
  "list_pending limit routes d =
     take (nat limit) (sort_key (\<lambda>p. rdr_at (fst p))
       (List.map_filter (\<lambda>r. case find (\<lambda>rt. r_id rt = rdr_route r) routes of None \<Rightarrow> None | Some rt \<Rightarrow> Some (r, rt))
         (filter (\<lambda>r. rdr_status r = RqPending) (qd_rows d))))"

section \<open>Which files\<close>

datatype kind_error = KindMissing | KindUnsupported string

definition full_video_files :: "string list" where
  "full_video_files = [''fcamera.hevc'', ''ecamera.hevc'', ''dcamera.hevc'']"

definition full_logs_files :: "string list" where
  "full_logs_files = [''rlog.zst'']"

definition files_for_kind :: "string \<Rightarrow> kind_error + string list" where
  "files_for_kind kind =
     (if kind = ''full_video'' then Inr full_video_files
      else if kind = ''full_logs'' then Inr full_logs_files
      else if kind = ''all'' then Inr (full_video_files @ full_logs_files)
      else if kind = [] then Inl KindMissing
      else Inl (KindUnsupported kind))"

definition segment_has_file :: "segment \<Rightarrow> string \<Rightarrow> bool" where
  "segment_has_file s f =
     (if f = ''fcamera.hevc'' then Fcamera \<in> sg_flags s
      else if f = ''ecamera.hevc'' then Ecamera \<in> sg_flags s
      else if f = ''dcamera.hevc'' then Dcamera \<in> sg_flags s
      else if f = ''rlog.zst'' then Rlog \<in> sg_flags s
      else False)"

definition count_uploaded_for_kind :: "segment list \<Rightarrow> string \<Rightarrow> int" where
  "count_uploaded_for_kind segs kind =
     (case files_for_kind kind of
        Inl _ \<Rightarrow> 0
      | Inr wanted \<Rightarrow> to_int32 (int (length (filter (\<lambda>p. segment_has_file (fst p) (snd p)) (List.product segs wanted)))))"

section \<open>The batch for the device\<close>

text \<open>The query pair is \<open>exp\<close> and \<open>sig\<close>; \<open>url_ok\<close> says that \<open>url.Parse\<close> accepts the unsigned URL.\<close>

record upload_item =
  ui_origin :: string
  ui_path :: string
  ui_query :: "(string \<times> string) option"
  ui_file :: string

definition upload_signature_ttl :: duration where
  "upload_signature_ttl = 24 * hour"

definition upload_path :: "string \<Rightarrow> string \<Rightarrow> string \<Rightarrow> string \<Rightarrow> string" where
  "upload_path dongle route segment file =
     ''/upload/'' @ dongle @ slash # route @ slash # segment @ slash # file"

definition signed_query :: "mac \<Rightarrow> string \<Rightarrow> string \<Rightarrow> gotime \<Rightarrow> string \<times> string" where
  "signed_query mac secret path t = (show_int (time_to_unix t), sign_upload_path mac secret path t)"

definition build_item ::
  "mac \<Rightarrow> (string \<Rightarrow> bool) \<Rightarrow> gotime \<Rightarrow> string \<Rightarrow> string \<Rightarrow> string \<Rightarrow> string \<Rightarrow> segment \<Rightarrow> string \<Rightarrow> upload_item" where
  "build_item mac url_ok now base secret dongle route s f =
     (let path = upload_path dongle route (show_int (sg_num s)) f in
      \<lparr>ui_origin = base, ui_path = path,
       ui_query = (if secret \<noteq> [] \<and> url_ok (base @ path) then Some (signed_query mac secret path (now + upload_signature_ttl)) else None),
       ui_file = route @ ''--'' @ show_int (sg_num s) @ slash # f\<rparr>)"

definition build_upload_items_at ::
  "mac \<Rightarrow> (string \<Rightarrow> bool) \<Rightarrow> gotime \<Rightarrow> string \<Rightarrow> string \<Rightarrow> string \<Rightarrow> string \<Rightarrow> segment list \<Rightarrow> string list \<Rightarrow> upload_item list" where
  "build_upload_items_at mac url_ok now base secret dongle route segs wanted =
     concat (map (\<lambda>s. map (build_item mac url_ok now base secret dongle route s)
       (filter (\<lambda>f. \<not> segment_has_file s f) wanted)) segs)"

section \<open>Dispatching\<close>

text \<open>What \<open>RPCCaller.Call\<close> gives back, and \<open>CallUploadFilesToUrls\<close> on it: the error, if any.\<close>

datatype rpc_outcome = CallFailed string | DeviceError string | ObjectResult | OtherResult string

definition call_upload_files :: "rpc_outcome \<Rightarrow> string option" where
  "call_upload_files r =
     (case r of
        CallFailed e \<Rightarrow> Some (''uploadFilesToUrls failed: '' @ e)
      | DeviceError e \<Rightarrow> Some (''uploadFilesToUrls returned error: '' @ e)
      | OtherResult t \<Rightarrow> Some (''uploadFilesToUrls: unexpected result type '' @ t)
      | ObjectResult \<Rightarrow> None)"

text \<open>
  The link to the devices: \<open>None\<close> when the hub or the caller is not wired. Whether the device is
  online, and the error.
\<close>

type_synonym device_link = "(clients \<times> (client \<Rightarrow> upload_item list \<Rightarrow> rpc_outcome)) option"

definition hub_dispatch :: "device_link \<Rightarrow> string \<Rightarrow> upload_item list \<Rightarrow> bool \<times> string option" where
  "hub_dispatch l dongle items =
     (case l of
        None \<Rightarrow> (False, None)
      | Some (cs, rpc) \<Rightarrow>
          (case get_client cs dongle of
             None \<Rightarrow> (False, None)
           | Some c \<Rightarrow> (True, call_upload_files (rpc c items))))"

section \<open>The handlers\<close>

datatype req_query = RdGetRoute | RdLatest | RdSegments | RdCreate | RdGet | RdUpdate

record req_world =
  rw_tracked :: upload_db
  rw_requests :: req_db

datatype req_resp =
    ReqErr nat string
  | ReqBadKind kind_error
  | ReqRow nat req_row
  | ReqProgress req_row int int "segment list"

text \<open>What the handler is wired with, and the call: its clock, the acting user and the caller's context.\<close>

record req_cfg =
  rc_mac :: mac
  rc_url_ok :: "string \<Rightarrow> bool"
  rc_base :: string
  rc_secret :: string
  rc_link :: device_link

definition requester_from_context :: "auth_ctx \<Rightarrow> string option" where
  "requester_from_context c =
     (if cx_mode c \<noteq> Some ModeSession then None
      else (case cx_user c of None \<Rightarrow> None | Some u \<Rightarrow> if u = 0 then None else Some (''user:'' @ show_int u)))"

definition segments_of :: "upload_db \<Rightarrow> int \<Rightarrow> segment list" where
  "segments_of d route = sort_key sg_num (filter (\<lambda>s. sg_route s = route) (ud_segments d))"

definition idempotency_window :: duration where
  "idempotency_window = hour"

definition request_full_data ::
  "req_cfg \<Rightarrow> (req_query \<Rightarrow> bool) \<Rightarrow> gotime \<Rightarrow> gotime \<Rightarrow> auth_ctx \<Rightarrow> string \<Rightarrow> string \<Rightarrow> string option \<Rightarrow> req_world
     \<Rightarrow> req_resp \<times> req_world" where
  "request_full_data cfg flt now dbnow c dongle route_name body w =
     (if \<not> check_dongle_access c dongle then (ReqErr 403 ''dongle_id does not match authenticated device'', w)
      else
        (case body of
           None \<Rightarrow> (ReqErr 400 ''failed to parse request body'', w)
         | Some kind \<Rightarrow>
             (case files_for_kind kind of
                Inl e \<Rightarrow> (ReqBadKind e, w)
              | Inr wanted \<Rightarrow>
                  if flt RdGetRoute then (ReqErr 500 ''failed to retrieve route'', w)
                  else
                    (case get_route_row (rw_tracked w) dongle route_name of
                       None \<Rightarrow> (ReqErr 404 (''route '' @ route_name @ '' not found''), w)
                     | Some rt \<Rightarrow>
                         if flt RdLatest then (ReqErr 500 ''failed to look up existing request'', w)
                         else
                           (let fresh =
                              (if flt RdSegments then (ReqErr 500 ''failed to list segments'', w)
                               else
                                 (let items = build_upload_items_at (rc_mac cfg) (rc_url_ok cfg) now (rc_base cfg) (rc_secret cfg)
                                        dongle route_name (segments_of (rw_tracked w) (r_id rt)) wanted;
                                      out = hub_dispatch (rc_link cfg) dongle items;
                                      st = (if \<not> fst out then (RqPending, None, None)
                                            else (case snd out of
                                                    Some e \<Rightarrow> (RqFailed, None, Some e)
                                                  | None \<Rightarrow> (RqDispatched, Some now, None))) in
                                  if flt RdCreate then (ReqErr 500 ''failed to persist route data request'', w)
                                  else
                                    (case st of (status, dispatched, err) \<Rightarrow>
                                       (case create_request dbnow (r_id rt) (requester_from_context c) kind status
                                               (to_int32 (int (length items))) dispatched err (rw_requests w) of
                                          (row, d) \<Rightarrow> (ReqRow (if fst out then 201 else 202) row, w\<lparr>rw_requests := d\<rparr>))))) in
                            (case get_latest_request (r_id rt) kind (rw_requests w) of
                               None \<Rightarrow> fresh
                             | Some r \<Rightarrow>
                                 if rdr_status r \<noteq> RqFailed \<and> time_sub now (rdr_at r) < idempotency_window
                                 then (ReqRow 200 r, w) else fresh))))))"

definition percent :: "int \<Rightarrow> int \<Rightarrow> int" where
  "percent uploaded requested = (if 0 < requested then to_int32 (go_div (to_int64 (uploaded * 100)) requested) else 100)"

definition get_full_data_request ::
  "(req_query \<Rightarrow> bool) \<Rightarrow> gotime \<Rightarrow> auth_ctx \<Rightarrow> string \<Rightarrow> string \<Rightarrow> string \<Rightarrow> req_world \<Rightarrow> req_resp \<times> req_world" where
  "get_full_data_request flt now c dongle route_name request_id w =
     (if \<not> check_dongle_access c dongle then (ReqErr 403 ''dongle_id does not match authenticated device'', w)
      else
        (case parse_int 64 request_id of
           None \<Rightarrow> (ReqErr 400 ''invalid request_id'', w)
         | Some i \<Rightarrow>
             if i \<le> 0 then (ReqErr 400 ''invalid request_id'', w)
             else if flt RdGet then (ReqErr 500 ''failed to retrieve request'', w)
             else
               (case get_request (to_int32 i) (rw_requests w) of
                  None \<Rightarrow> (ReqErr 404 ''request not found'', w)
                | Some row \<Rightarrow>
                    if flt RdGetRoute then (ReqErr 500 ''failed to retrieve route'', w)
                    else
                      (case get_route_row (rw_tracked w) dongle route_name of
                         None \<Rightarrow> (ReqErr 404 (''route '' @ route_name @ '' not found''), w)
                       | Some rt \<Rightarrow>
                           if rdr_route row \<noteq> r_id rt then (ReqErr 404 ''request not found'', w)
                           else if flt RdSegments then (ReqErr 500 ''failed to list segments'', w)
                           else
                             (let segs = segments_of (rw_tracked w) (r_id rt);
                                  uploaded = count_uploaded_for_kind segs (rdr_kind row);
                                  answer = (\<lambda>r. ReqProgress r uploaded (percent uploaded (rdr_files row)) segs) in
                              if rdr_status row \<noteq> RqComplete \<and> rdr_status row \<noteq> RqFailed \<and> 0 < rdr_files row
                                 \<and> rdr_files row \<le> uploaded \<and> \<not> flt RdUpdate
                              then (answer (row\<lparr>rdr_status := RqComplete, rdr_completed := Some now\<rparr>),
                                w\<lparr>rw_requests := update_request_status (rdr_id row) RqComplete None (Some now) None (rw_requests w)\<rparr>)
                              else (answer row, w))))))"

section \<open>The retry worker\<close>

text \<open>
  \<open>DispatchPending\<close> with the builder of \<open>cmd/server\<close>: the batch is rebuilt from the segments of
  the moment; a batch with nothing left counts as sent.
\<close>

definition dispatch_pending ::
  "req_cfg \<Rightarrow> (req_query \<Rightarrow> bool) \<Rightarrow> gotime \<Rightarrow> upload_db \<Rightarrow> req_row \<times> route \<Rightarrow> bool \<times> string option" where
  "dispatch_pending cfg flt now d p =
     (case rc_link cfg of
        None \<Rightarrow> (False, None)
      | Some (cs, rpc) \<Rightarrow>
          (case get_client cs (r_dongle (snd p)) of
             None \<Rightarrow> (False, None)
           | Some c \<Rightarrow>
               (case files_for_kind (rdr_kind (fst p)) of
                  Inl _ \<Rightarrow> (True, Some ''rebuild batch: unsupported kind'')
                | Inr wanted \<Rightarrow>
                    if flt RdSegments then (True, Some ''rebuild batch: failed to list segments'')
                    else
                      (let items = build_upload_items_at (rc_mac cfg) (rc_url_ok cfg) now (rc_base cfg) (rc_secret cfg)
                             (r_dongle (snd p)) (r_name (snd p)) (segments_of d (rdr_route (fst p))) wanted in
                       if items = [] then (True, None) else (True, call_upload_files (rpc c items))))))"

record retry_state =
  rt_requests :: req_db
  rt_attempts :: "int \<Rightarrow> int option"

definition max_attempts :: "int \<Rightarrow> int" where
  "max_attempts n = (if n \<le> 0 then 10 else n)"

definition retry_limit :: "int \<Rightarrow> int" where
  "retry_limit n = (if n \<le> 0 then 100 else n)"

definition bump_attempts :: "int \<Rightarrow> (int \<Rightarrow> int option) \<Rightarrow> int \<times> (int \<Rightarrow> int option)" where
  "bump_attempts i m = (let n = (case m i of None \<Rightarrow> 0 | Some k \<Rightarrow> k) + 1 in (n, m(i \<mapsto> n)))"

definition clear_attempts :: "int \<Rightarrow> (int \<Rightarrow> int option) \<Rightarrow> int \<Rightarrow> int option" where
  "clear_attempts i m = m(i := None)"

text \<open>\<open>upd_fails\<close> says that the update statement of this row fails; it is logged only.\<close>

definition process_row ::
  "int \<Rightarrow> gotime \<Rightarrow> bool \<Rightarrow> bool \<times> string option \<Rightarrow> req_row \<times> route \<Rightarrow> retry_state \<Rightarrow> retry_state" where
  "process_row maxa now upd_fails out p s =
     (let i = rdr_id (fst p);
          give_up = (\<lambda>msg s'. s'\<lparr>rt_requests := (if upd_fails then rt_requests s'
                        else update_request_status i RqFailed None None (Some msg) (rt_requests s')),
                      rt_attempts := clear_attempts i (rt_attempts s')\<rparr>) in
      case out of
        (True, None) \<Rightarrow>
          if upd_fails then s
          else s\<lparr>rt_requests := update_request_status i RqDispatched (Some now) None None (rt_requests s),
                 rt_attempts := clear_attempts i (rt_attempts s)\<rparr>
      | (True, Some err) \<Rightarrow>
          (case bump_attempts i (rt_attempts s) of
             (n, m) \<Rightarrow>
               if max_attempts maxa \<le> n
               then give_up (''dispatch failed after '' @ show_int n @ '' attempts: '' @ err) (s\<lparr>rt_attempts := m\<rparr>)
               else s\<lparr>rt_attempts := m\<rparr>)
      | (False, _) \<Rightarrow>
          (case bump_attempts i (rt_attempts s) of
             (n, m) \<Rightarrow>
               if max_attempts maxa \<le> n
               then give_up (''device '' @ r_dongle (snd p) @ '' did not reconnect after '' @ show_int n @ '' attempts'') (s\<lparr>rt_attempts := m\<rparr>)
               else s\<lparr>rt_attempts := m\<rparr>))"

text \<open>One sweep; \<open>out\<close> gives what dispatching each row comes to, \<open>list_fails\<close> that the listing fails.\<close>

definition retry_run_once ::
  "int \<Rightarrow> int \<Rightarrow> bool \<Rightarrow> (int \<Rightarrow> bool) \<Rightarrow> gotime \<Rightarrow> (req_row \<times> route \<Rightarrow> bool \<times> string option) \<Rightarrow> route list \<Rightarrow> retry_state \<Rightarrow> retry_state" where
  "retry_run_once maxa limit list_fails upd_fails now out routes s =
     (if list_fails then s
      else fold (\<lambda>p. process_row maxa now (upd_fails (rdr_id (fst p))) (out p) p)
             (list_pending (retry_limit limit) routes (rt_requests s)) s)"

section \<open>Lemmas on the batch\<close>

lemma flag_of_file:
  "filename_to_flag ''fcamera.hevc'' = Some Fcamera" "filename_to_flag ''ecamera.hevc'' = Some Ecamera"
  "filename_to_flag ''dcamera.hevc'' = Some Dcamera" "filename_to_flag ''rlog.zst'' = Some Rlog"
  by (simp_all add: filename_to_flag_def filename_flags_def)

lemma has_file:
  "segment_has_file s ''fcamera.hevc'' = (Fcamera \<in> sg_flags s)" "segment_has_file s ''ecamera.hevc'' = (Ecamera \<in> sg_flags s)"
  "segment_has_file s ''dcamera.hevc'' = (Dcamera \<in> sg_flags s)" "segment_has_file s ''rlog.zst'' = (Rlog \<in> sg_flags s)"
  by (simp_all add: segment_has_file_def)

lemma wanted_names:
  assumes "files_for_kind kind = Inr wanted" and "f \<in> set wanted"
  shows "f = ''fcamera.hevc'' \<or> f = ''ecamera.hevc'' \<or> f = ''dcamera.hevc'' \<or> f = ''rlog.zst''"
proof -
  have "set wanted \<subseteq> {''fcamera.hevc'', ''ecamera.hevc'', ''dcamera.hevc'', ''rlog.zst''}"
    using assms(1) by (auto simp: files_for_kind_def full_video_files_def full_logs_files_def split: if_split_asm)
  with assms(2) show ?thesis by blast
qed

lemma wanted_files:
  assumes "files_for_kind kind = Inr wanted" and "f \<in> set wanted"
  shows "f \<in> set valid_filenames" and "f \<noteq> []" and "\<exists>fl. filename_to_flag f = Some fl \<and> segment_has_file s f = (fl \<in> sg_flags s)"
  subgoal using wanted_names [OF assms] by (elim disjE) (simp_all add: valid_filenames_def)
  subgoal using wanted_names [OF assms] by (elim disjE) simp_all
  subgoal using wanted_names [OF assms] by (elim disjE) (simp_all add: flag_of_file has_file)
  done

lemma wanted_distinct: "files_for_kind kind = Inr wanted \<Longrightarrow> distinct wanted"
  by (auto simp: files_for_kind_def full_video_files_def full_logs_files_def split: if_splits)

lemma set_items:
  "set (build_upload_items_at mac url_ok now base secret dongle route segs wanted)
    = {build_item mac url_ok now base secret dongle route s f | s f. s \<in> set segs \<and> f \<in> set wanted \<and> \<not> segment_has_file s f}"
  by (auto simp: build_upload_items_at_def)

lemma count_items:
  "length (build_upload_items_at mac url_ok now base secret dongle route segs wanted)
    = length (filter (\<lambda>p. \<not> segment_has_file (fst p) (snd p)) (List.product segs wanted))"
  by (induction segs) (simp_all add: build_upload_items_at_def filter_map comp_def)

lemma split_two_rest: "slash \<notin> set xs \<Longrightarrow> split_two slash (xs @ slash # ys) = [xs, ys]"
  by (rule split_two_append)

lemma item_path_parses:
  assumes "slash \<notin> set route" and "route \<noteq> []" and "0 \<le> n" and "n < 2 ^ 31" and "f \<noteq> []"
  shows "parse_upload_path (route @ slash # show_int n @ slash # f) = Some (route, show_int n, f)"
proof -
  have parsed: "parse_int 64 (show_int n) = Some n" using assms(3,4) by (intro parse_show_int) simp_all
  then have "plain (show_int n)" by (rule parse_int_plain)
  then show ?thesis using assms parsed by (simp add: parse_upload_path_def split_two_rest plain_def)
qed

section \<open>Lemmas on the worker\<close>

text \<open>The attempts recorded for a request, and the statuses of the table.\<close>

definition tries :: "retry_state \<Rightarrow> int \<Rightarrow> int" where
  "tries s i = (case rt_attempts s i of None \<Rightarrow> 0 | Some k \<Rightarrow> k)"

definition statuses :: "req_db \<Rightarrow> (int \<times> req_status) list" where
  "statuses d = map (\<lambda>r. (rdr_id r, rdr_status r)) (qd_rows d)"

definition failing :: "bool \<times> string option \<Rightarrow> bool" where
  "failing out \<longleftrightarrow> \<not> (fst out \<and> snd out = None)"

lemma max_attempts_pos: "0 < max_attempts n"
  by (simp add: max_attempts_def)

lemma statuses_update:
  "statuses (update_request_status i st a b e d) = map (\<lambda>(j, x). (j, if j = i then st else x)) (statuses d)"
  by (simp add: statuses_def update_request_status_def stamp_request_def)

lemma process_failing:
  assumes "failing out" and "max_attempts maxa \<le> tries s (rdr_id (fst p)) + 1"
  shows "statuses (rt_requests (process_row maxa now False out p s))
      = map (\<lambda>(j, x). (j, if j = rdr_id (fst p) then RqFailed else x)) (statuses (rt_requests s))"
    and "i \<noteq> rdr_id (fst p) \<Longrightarrow> tries (process_row maxa now False out p s) i = tries s i"
  using assms
  by (cases out; auto simp: process_row_def failing_def tries_def bump_attempts_def clear_attempts_def Let_def statuses_update
      split: bool.splits option.splits)+

lemma process_patient:
  assumes "failing out" and "\<not> max_attempts maxa \<le> tries s (rdr_id (fst p)) + 1"
  shows "rt_requests (process_row maxa now b out p s) = rt_requests s"
    and "tries (process_row maxa now b out p s) i = (if i = rdr_id (fst p) then tries s i + 1 else tries s i)"
  using assms
  by (cases out; auto simp: process_row_def failing_def tries_def bump_attempts_def Let_def split: bool.splits option.splits)+

lemma fold_patient:
  fixes now :: gotime
  assumes "distinct (map (\<lambda>p. rdr_id (fst p)) ps)" and "\<forall>p \<in> set ps. failing (out p)"
    and "\<forall>p \<in> set ps. tries s (rdr_id (fst p)) = k" and "\<not> max_attempts maxa \<le> k + 1"
  defines "s' \<equiv> fold (\<lambda>p. process_row maxa now False (out p) p) ps s"
  shows "rt_requests s' = rt_requests s
    \<and> (\<forall>i. tries s' i = (if i \<in> (\<lambda>p. rdr_id (fst p)) ` set ps then k + 1 else tries s i))"
  using assms(1-4) unfolding s'_def
proof (induction ps arbitrary: s)
  case Nil
  then show ?case by simp
next
  case (Cons p ps)
  let ?s = "process_row maxa now False (out p) p s"
  have one: "rt_requests ?s = rt_requests s" "\<And>i. tries ?s i = (if i = rdr_id (fst p) then tries s i + 1 else tries s i)"
    using process_patient [of "out p" maxa s p now False] Cons.prems by simp_all
  have "\<forall>q \<in> set ps. tries ?s (rdr_id (fst q)) = k" using Cons.prems(1,3) one(2) by (auto simp: image_iff)
  with Cons.IH [of ?s] Cons.prems one show ?case by auto
qed

lemma fold_giving_up:
  fixes now :: gotime
  assumes "distinct (map (\<lambda>p. rdr_id (fst p)) ps)" and "\<forall>p \<in> set ps. failing (out p)"
    and "\<forall>p \<in> set ps. tries s (rdr_id (fst p)) = k" and "max_attempts maxa \<le> k + 1"
  defines "s' \<equiv> fold (\<lambda>p. process_row maxa now False (out p) p) ps s"
  shows "statuses (rt_requests s')
    = map (\<lambda>(j, x). (j, if j \<in> (\<lambda>p. rdr_id (fst p)) ` set ps then RqFailed else x)) (statuses (rt_requests s))"
  using assms(1-4) unfolding s'_def
proof (induction ps arbitrary: s)
  case Nil
  then show ?case by simp
next
  case (Cons p ps)
  let ?s = "process_row maxa now False (out p) p s"
  have "tries ?s (rdr_id (fst q)) = k" if "q \<in> set ps" for q
  proof -
    have "rdr_id (fst q) \<noteq> rdr_id (fst p)" using Cons.prems(1) imageI [OF that, of "\<lambda>p. rdr_id (fst p)"]
      unfolding list.map distinct.simps set_map by metis
    then show ?thesis using process_failing(2) [of "out p" maxa s p "rdr_id (fst q)" now] Cons.prems that by simp
  qed
  with Cons.IH [of ?s] Cons.prems process_failing(1) [of "out p" maxa s p now] show ?case by auto
qed

text \<open>With room in the batch and a route for every request, a sweep visits every pending row once.\<close>

definition requests_wf :: "route list \<Rightarrow> int \<Rightarrow> req_db \<Rightarrow> bool" where
  "requests_wf routes limit d \<longleftrightarrow>
     distinct (map rdr_id (qd_rows d)) \<and> (\<forall>r \<in> set (qd_rows d). \<exists>rt \<in> set routes. r_id rt = rdr_route r)
     \<and> int (length (filter (\<lambda>r. rdr_status r = RqPending) (qd_rows d))) \<le> retry_limit limit"

lemma listed_all:
  assumes "requests_wf routes limit d"
  shows "distinct (map (\<lambda>p. rdr_id (fst p)) (list_pending (retry_limit limit) routes d))"
    and "(\<lambda>p. rdr_id (fst p)) ` set (list_pending (retry_limit limit) routes d)
      = rdr_id ` {r \<in> set (qd_rows d). rdr_status r = RqPending}"
proof -
  let ?rs = "filter (\<lambda>r. rdr_status r = RqPending) (qd_rows d)"
  define route_of where "route_of r = the (find (\<lambda>rt. r_id rt = rdr_route r) routes)" for r :: req_row
  have "(case find (\<lambda>rt. r_id rt = rdr_route r) routes of None \<Rightarrow> None | Some rt \<Rightarrow> Some (r, rt)) = Some (r, route_of r)"
    if "r \<in> set ?rs" for r
    using assms that by (auto simp: requests_wf_def route_of_def find_None_set split: option.splits)
  then have joined: "List.map_filter (\<lambda>r. case find (\<lambda>rt. r_id rt = rdr_route r) routes of None \<Rightarrow> None | Some rt \<Rightarrow> Some (r, rt)) ?rs
      = map (\<lambda>r. (r, route_of r)) ?rs"
    by (subst map_filter_same [where g = "\<lambda>r. Some (r, route_of r)"]) (simp_all add: List.map_filter_def)
  let ?ps = "sort_key (\<lambda>p. rdr_at (fst p)) (map (\<lambda>r. (r, route_of r)) ?rs)"
  have "length ?ps \<le> nat (retry_limit limit)" using assms unfolding requests_wf_def length_sort length_map by linarith
  then have list: "list_pending (retry_limit limit) routes d = ?ps" by (simp add: list_pending_def joined)
  have "distinct (map rdr_id ?rs)" using assms by (simp add: requests_wf_def distinct_map_filter)
  then have "distinct (map (\<lambda>p. rdr_id (fst p)) (map (\<lambda>r. (r, route_of r)) ?rs))" by (simp add: comp_def)
  then show "distinct (map (\<lambda>p. rdr_id (fst p)) (list_pending (retry_limit limit) routes d))"
    unfolding list by (simp only: distinct_map distinct_sort set_sort)
  show "(\<lambda>p. rdr_id (fst p)) ` set (list_pending (retry_limit limit) routes d) = rdr_id ` {r \<in> set (qd_rows d). rdr_status r = RqPending}"
    unfolding list by (auto simp: image_image)
qed

text \<open>Sweep after sweep, \<open>out n\<close> being what dispatching comes to in sweep \<open>n\<close>.\<close>

primrec sweeps ::
  "int \<Rightarrow> int \<Rightarrow> (nat \<Rightarrow> gotime) \<Rightarrow> (nat \<Rightarrow> req_row \<times> route \<Rightarrow> bool \<times> string option) \<Rightarrow> route list \<Rightarrow> nat \<Rightarrow> retry_state \<Rightarrow> retry_state" where
  "sweeps maxa limit now out routes 0 s = s"
| "sweeps maxa limit now out routes (Suc n) s =
     retry_run_once maxa limit False (\<lambda>_. False) (now n) (out n) routes (sweeps maxa limit now out routes n s)"

lemma sweeps_patient:
  assumes "requests_wf routes limit (rt_requests s)" and "\<forall>n p. failing (out n p)"
    and "\<forall>r \<in> set (qd_rows (rt_requests s)). rdr_status r = RqPending \<longrightarrow> rt_attempts s (rdr_id r) = None"
    and "int n < max_attempts maxa"
  shows "rt_requests (sweeps maxa limit now out routes n s) = rt_requests s
    \<and> (\<forall>r \<in> set (qd_rows (rt_requests s)). rdr_status r = RqPending \<longrightarrow> tries (sweeps maxa limit now out routes n s) (rdr_id r) = int n)"
  using assms(4)
proof (induction n)
  case 0
  then show ?case using assms(3) by (simp add: tries_def)
next
  case (Suc n)
  let ?s = "sweeps maxa limit now out routes n s" and ?d = "rt_requests s"
  have ih: "rt_requests ?s = ?d"
    "\<forall>r \<in> set (qd_rows ?d). rdr_status r = RqPending \<longrightarrow> tries ?s (rdr_id r) = int n"
    using Suc by simp_all
  let ?ps = "list_pending (retry_limit limit) routes ?d"
  note all = listed_all [OF assms(1)]
  have "\<forall>p \<in> set ?ps. tries ?s (rdr_id (fst p)) = int n" using all(2) ih(2) by (force simp: image_iff set_eq_iff)
  moreover have "\<not> max_attempts maxa \<le> int n + 1" using Suc.prems by simp
  ultimately have "rt_requests (fold (\<lambda>p. process_row maxa (now n) False (out n p) p) ?ps ?s) = rt_requests ?s
      \<and> (\<forall>i. tries (fold (\<lambda>p. process_row maxa (now n) False (out n p) p) ?ps ?s) i
            = (if i \<in> (\<lambda>p. rdr_id (fst p)) ` set ?ps then int n + 1 else tries ?s i))"
    using fold_patient [OF all(1)] assms(2) by blast
  then show ?case using ih(1) all(2) by (auto simp: retry_run_once_def)
qed

section \<open>Lemmas on the handlers\<close>

lemma post_created:
  assumes "request_full_data cfg flt now dbnow c dongle name body w = (ReqRow code row, w')" and "code \<noteq> 200"
  shows "\<exists>kind wanted rt. body = Some kind \<and> check_dongle_access c dongle \<and> files_for_kind kind = Inr wanted
    \<and> get_route_row (rw_tracked w) dongle name = Some rt \<and> rdr_route row = r_id rt \<and> rdr_kind row = kind \<and> rdr_at row = dbnow
    \<and> rdr_files row = to_int32 (int (length (build_upload_items_at (rc_mac cfg) (rc_url_ok cfg) now (rc_base cfg) (rc_secret cfg)
        dongle name (segments_of (rw_tracked w) (r_id rt)) wanted)))
    \<and> w' = w\<lparr>rw_requests := (rw_requests w)\<lparr>qd_rows := qd_rows (rw_requests w) @ [row], qd_next := qd_next (rw_requests w) + 1\<rparr>\<rparr>
    \<and> rdr_status row \<in> {RqPending, RqDispatched, RqFailed} \<and> (code = 201 \<or> code = 202 \<and> rdr_status row = RqPending)"
  using assms
  by (auto simp: request_full_data_def Let_def create_request_def split: if_splits option.splits sum.splits prod.splits)

lemma hd_sort_newest:
  assumes "\<forall>x \<in> set xs. f x < (f y :: int)"
  shows "\<exists>ys. sort_key (\<lambda>x. - f x) (xs @ [y]) = y # ys"
proof -
  let ?zs = "sort_key (\<lambda>x. - f x) (xs @ [y])"
  obtain z zs where z: "?zs = z # zs" by (metis append_is_Nil_conv length_0_conv length_sort list.distinct(1) neq_Nil_conv)
  then have "z \<in> set (xs @ [y])" and "y \<in> set (z # zs)" by (metis list.set_intros(1) set_sort, metis in_set_conv_decomp set_sort)
  moreover have "sorted (map (\<lambda>x. - f x) (z # zs))" using sorted_sort_key z by metis
  ultimately have "z = y" using assms by fastforce
  with z show ?thesis by blast
qed

lemma latest_is_newest:
  assumes "\<forall>r \<in> set (qd_rows d). rdr_route r = rdr_route row \<and> rdr_kind r = rdr_kind row \<longrightarrow> rdr_at r < rdr_at row"
  shows "get_latest_request (rdr_route row) (rdr_kind row) (d\<lparr>qd_rows := qd_rows d @ [row], qd_next := n\<rparr>) = Some row"
proof -
  let ?xs = "filter (\<lambda>r. rdr_route r = rdr_route row \<and> rdr_kind r = rdr_kind row) (qd_rows d)"
  have "\<forall>x \<in> set ?xs. rdr_at x < rdr_at row" using assms by simp
  from hd_sort_newest [OF this] obtain ys where "sort_key (\<lambda>x. - rdr_at x) (?xs @ [row]) = row # ys" by blast
  then show ?thesis by (simp add: get_latest_request_def)
qed

text \<open>Present and missing files of a kind make up all of them.\<close>

lemma present_and_missing:
  assumes "files_for_kind kind = Inr wanted" and "int (length segs * length wanted) < 2147483648"
  shows "count_uploaded_for_kind segs kind = int (length (filter (\<lambda>p. segment_has_file (fst p) (snd p)) (List.product segs wanted)))"
    and "count_uploaded_for_kind segs kind
       + int (length (filter (\<lambda>p. \<not> segment_has_file (fst p) (snd p)) (List.product segs wanted))) = int (length segs * length wanted)"
proof -
  let ?P = "\<lambda>p :: segment \<times> string. segment_has_file (fst p) (snd p)"
  have "length (filter ?P (List.product segs wanted)) \<le> length segs * length wanted"
    using length_filter_le [of ?P "List.product segs wanted"] by (simp add: length_product)
  then have "int (length (filter ?P (List.product segs wanted))) < 2147483648" using assms(2) by linarith
  then show one: "count_uploaded_for_kind segs kind = int (length (filter ?P (List.product segs wanted)))"
    using assms(1) by (simp add: count_uploaded_for_kind_def to_int32_id)
  show "count_uploaded_for_kind segs kind + int (length (filter (\<lambda>p. \<not> ?P p) (List.product segs wanted))) = int (length segs * length wanted)"
    unfolding one using sum_length_filter_compl [of ?P "List.product segs wanted"]
    by (simp add: length_product flip: of_nat_add)
qed

lemma items_fit:
  assumes "int (length segs * length wanted) < 2147483648"
  shows "to_int32 (int (length (build_upload_items_at mac url_ok now base secret dongle route segs wanted)))
    = int (length (filter (\<lambda>p. \<not> segment_has_file (fst p) (snd p)) (List.product segs wanted)))"
proof -
  have "length (filter (\<lambda>p. \<not> segment_has_file (fst p) (snd p)) (List.product segs wanted)) \<le> length segs * length wanted"
    using length_filter_le [of "\<lambda>p. \<not> segment_has_file (fst p) (snd p)" "List.product segs wanted"] by (simp add: length_product)
  then have "int (length (filter (\<lambda>p. \<not> segment_has_file (fst p) (snd p)) (List.product segs wanted))) < 2147483648"
    using assms by linarith
  then show ?thesis unfolding count_items by (simp add: to_int32_id)
qed

lemma get_answer:
  assumes "get_full_data_request flt now c dongle name i w = (ReqProgress row up pct segs, w')" and "\<not> flt RdUpdate"
  shows "\<exists>rt old n. get_route_row (rw_tracked w) dongle name = Some rt \<and> parse_int 64 i = Some n
    \<and> get_request (to_int32 n) (rw_requests w) = Some old \<and> rdr_route old = r_id rt
    \<and> segs = segments_of (rw_tracked w) (r_id rt) \<and> up = count_uploaded_for_kind segs (rdr_kind old)
    \<and> (rdr_status row = RqComplete \<longleftrightarrow> rdr_status old = RqComplete
        \<or> rdr_status old \<noteq> RqFailed \<and> 0 < rdr_files old \<and> rdr_files old \<le> up)"
  using assms by (auto simp: get_full_data_request_def Let_def split: if_splits option.splits)

section \<open>Example\<close>

text \<open>One route with one segment, a device that is offline, a toy MAC.\<close>

definition demo_seg :: "upload_flag set \<Rightarrow> segment" where
  "demo_seg fs = \<lparr>sg_route = 1, sg_num = 0, sg_flags = fs\<rparr>"

definition demo_pull_route :: route where
  "demo_pull_route = \<lparr>r_id = 1, r_dongle = ''dev'', r_name = ''r'', r_start = None, r_end = None, r_created = 0, r_preserved = False\<rparr>"

definition demo_tracked :: "upload_flag set \<Rightarrow> upload_db" where
  "demo_tracked fs = \<lparr>ud_routes = [demo_pull_route], ud_segments = [demo_seg fs], ud_next = 2\<rparr>"

definition demo_cfg :: req_cfg where
  "demo_cfg = \<lparr>rc_mac = (\<lambda>k m. k @ m), rc_url_ok = (\<lambda>_. True), rc_base = [], rc_secret = ''key'', rc_link = None\<rparr>"

definition demo_pending :: req_row where
  "demo_pending = \<lparr>rdr_id = 1, rdr_route = 1, rdr_by = None, rdr_at = 5, rdr_kind = ''full_logs'', rdr_status = RqPending,
     rdr_dispatched = None, rdr_completed = None, rdr_error = None, rdr_files = 1\<rparr>"

definition demo_requests :: "req_row list \<Rightarrow> req_db" where
  "demo_requests rs = \<lparr>qd_rows = rs, qd_next = 1 + int (length rs)\<rparr>"

definition demo_ctx :: auth_ctx where
  "demo_ctx = empty_ctx\<lparr>cx_dongle := Some ''dev''\<rparr>"

lemma demo_kind: "files_for_kind ''full_logs'' = Inr [''rlog.zst'']"
  by (simp add: files_for_kind_def full_logs_files_def)

lemma demo_zero: "show_int 0 = ''0''" "parse_int 64 ''1'' = Some 1"
proof -
  show "show_int 0 = ''0''" by code_simp
  have "show_int 1 = ''1''" by code_simp
  moreover have "parse_int 64 (show_int 1) = Some 1" by (intro parse_show_int) simp_all
  ultimately show "parse_int 64 ''1'' = Some 1" by simp
qed

lemma demo_pull_found: "get_route_row (demo_tracked fs) ''dev'' ''r'' = Some demo_pull_route" "r_id demo_pull_route = 1"
  by (simp_all add: get_route_row_def demo_tracked_def demo_pull_route_def)

lemma demo_segments: "segments_of (demo_tracked fs) 1 = [demo_seg fs]"
  by (simp add: segments_of_def demo_tracked_def demo_seg_def)

lemma demo_post:
  "request_full_data demo_cfg (\<lambda>_. False) 5 5 demo_ctx ''dev'' ''r'' (Some ''full_logs'')
     \<lparr>rw_tracked = demo_tracked {}, rw_requests = demo_requests []\<rparr>
   = (ReqRow 202 demo_pending, \<lparr>rw_tracked = demo_tracked {}, rw_requests = demo_requests [demo_pending]\<rparr>)"
  by (simp add: request_full_data_def demo_ctx_def empty_ctx_def check_dongle_access_def demo_kind demo_pull_found demo_segments
      hub_dispatch_def demo_cfg_def get_latest_request_def demo_requests_def create_request_def requester_from_context_def
      build_upload_items_at_def segment_has_file_def demo_seg_def to_int32_def demo_pending_def Let_def)

lemma demo_count: "count_uploaded_for_kind [demo_seg {Rlog}] ''full_logs'' = 1"
  by (simp add: count_uploaded_for_kind_def demo_kind segment_has_file_def demo_seg_def to_int32_def)

section \<open>Properties\<close>



text \<open>A second click does nothing. A request that was just created and did not fail is the answer to every
  further request of its kind within the hour: nothing is dispatched again, no row is written.\<close>

theorem second_click:
  assumes "request_full_data cfg flt now dbnow c dongle name body w = (ReqRow code row, w1)" and "code \<noteq> 200"
    and "rdr_status row \<noteq> RqFailed"
    and "\<forall>r \<in> set (qd_rows (rw_requests w)). rdr_at r < dbnow"
    and "time_sub now2 dbnow < hour" and "check_dongle_access c2 dongle" and "\<not> flt2 RdGetRoute" and "\<not> flt2 RdLatest"
  shows "request_full_data cfg2 flt2 now2 dbnow2 c2 dongle name body w1 = (ReqRow 200 row, w1)"
proof -
  from post_created [OF assms(1,2)] obtain kind wanted rt where body: "body = Some kind" "files_for_kind kind = Inr wanted"
    and rt: "get_route_row (rw_tracked w) dongle name = Some rt" and row: "rdr_route row = r_id rt" "rdr_kind row = kind" "rdr_at row = dbnow"
    and w1: "w1 = w\<lparr>rw_requests := (rw_requests w)\<lparr>qd_rows := qd_rows (rw_requests w) @ [row], qd_next := qd_next (rw_requests w) + 1\<rparr>\<rparr>"
    by blast
  have "get_latest_request (r_id rt) kind (rw_requests w1) = Some row"
    using latest_is_newest [of "rw_requests w" row] assms(4) row by (simp add: w1)
  with body rt row assms(3,5-8) show ?thesis
    by (simp add: request_full_data_def w1 idempotency_window_def)
qed

theorem second_click_witness:
  "request_full_data demo_cfg (\<lambda>_. False) 6 6 demo_ctx ''dev'' ''r'' (Some ''full_logs'')
     \<lparr>rw_tracked = demo_tracked {}, rw_requests = demo_requests [demo_pending]\<rparr>
   = (ReqRow 200 demo_pending, \<lparr>rw_tracked = demo_tracked {}, rw_requests = demo_requests [demo_pending]\<rparr>)"
  by (rule second_click [OF demo_post])
    (simp_all add: demo_pending_def demo_requests_def time_sub_def max_duration_def min_duration_def hour_def demo_ctx_def
      check_dongle_access_def empty_ctx_def)

text \<open>C14: retrying ends. While dispatching keeps failing, for whatever reason and however it varies, the
  dispatcher leaves the pending requests alone for all but the last of its attempts and then
  fails exactly them: after \<open>max_attempts\<close> sweeps no request is pending any more, and no other
  request has changed its status.\<close>

theorem retries_end:
  assumes "requests_wf routes limit (rt_requests s)" and "\<forall>n p. failing (out n p)"
    and "\<forall>r \<in> set (qd_rows (rt_requests s)). rdr_status r = RqPending \<longrightarrow> rt_attempts s (rdr_id r) = None"
  shows "(\<forall>n. int n < max_attempts maxa \<longrightarrow> rt_requests (sweeps maxa limit now out routes n s) = rt_requests s)
    \<and> statuses (rt_requests (sweeps maxa limit now out routes (nat (max_attempts maxa)) s))
        = map (\<lambda>(i, st). (i, if st = RqPending then RqFailed else st)) (statuses (rt_requests s))"
proof (intro conjI allI impI)
  obtain k where k: "nat (max_attempts maxa) = Suc k" using max_attempts_pos [of maxa] by (metis Suc_pred zero_less_nat_eq)
  then have last: "int k + 1 = max_attempts maxa" by (simp add: nat_eq_iff2)
  let ?s = "sweeps maxa limit now out routes k s" and ?d = "rt_requests s"
  let ?ps = "list_pending (retry_limit limit) routes ?d"
  have before: "rt_requests ?s = ?d" "\<forall>r \<in> set (qd_rows ?d). rdr_status r = RqPending \<longrightarrow> tries ?s (rdr_id r) = int k"
    using sweeps_patient [OF assms, of k maxa now] last by simp_all
  note all = listed_all [OF assms(1)]
  have "\<forall>p \<in> set ?ps. tries ?s (rdr_id (fst p)) = int k" using all(2) before(2) by (force simp: image_iff set_eq_iff)
  then have "statuses (rt_requests (sweeps maxa limit now out routes (Suc k) s))
      = map (\<lambda>(i, st). (i, if i \<in> rdr_id ` {r \<in> set (qd_rows ?d). rdr_status r = RqPending} then RqFailed else st)) (statuses ?d)"
    using fold_giving_up [OF all(1), where out = "out k" and s = ?s and k = "int k" and maxa = maxa and now = "now k"]
      assms(2) last before(1) all(2) by (simp add: retry_run_once_def)
  also have "\<dots> = map (\<lambda>(i, st). (i, if st = RqPending then RqFailed else st)) (statuses ?d)"
  proof -
    have "rdr_id r \<in> rdr_id ` {r \<in> set (qd_rows ?d). rdr_status r = RqPending} \<longleftrightarrow> rdr_status r = RqPending"
      if "r \<in> set (qd_rows ?d)" for r
      using assms(1) that by (auto simp: requests_wf_def distinct_map dest: inj_onD)
    then show ?thesis by (simp add: statuses_def)
  qed
  finally show "statuses (rt_requests (sweeps maxa limit now out routes (nat (max_attempts maxa)) s))
      = map (\<lambda>(i, st). (i, if st = RqPending then RqFailed else st)) (statuses ?d)" by (simp add: k)
qed (use sweeps_patient [OF assms] in blast)

theorem retries_end_witness:
  "statuses (rt_requests (sweeps 2 0 int (\<lambda>_ _. (False, None)) [demo_pull_route] 2 \<lparr>rt_requests = demo_requests [demo_pending], rt_attempts = (\<lambda>_. None)\<rparr>))
     = [(1, RqFailed)]"
proof -
  have "requests_wf [demo_pull_route] 0 (rt_requests \<lparr>rt_requests = demo_requests [demo_pending], rt_attempts = (\<lambda>_. None)\<rparr>)"
    by (simp add: requests_wf_def demo_requests_def demo_pending_def demo_pull_route_def retry_limit_def)
  from retries_end [OF this, where out = "\<lambda>_ _. (False, None)" and maxa = 2 and now = int] show ?thesis
    by (simp add: failing_def max_attempts_def statuses_def demo_requests_def demo_pending_def)
qed

text \<open>Completion means completion, when nothing was there at the start. For a request made while no file of
  its kind was uploaded, and a route that gains no segments, the status endpoint reports the
  request complete exactly when every wanted file of every segment has been uploaded.\<close>

theorem completion_exact:
  assumes "files_for_kind kind = Inr wanted"
    and "request_full_data cfg flt now dbnow c dongle name (Some kind) w = (ReqRow code row, w1)" and "code \<noteq> 200"
    and "\<forall>s \<in> set (segments_of (rw_tracked w) (rdr_route row)). \<forall>f \<in> set wanted. \<not> segment_has_file s f"
    and "get_full_data_request flt2 now2 c2 dongle name i w2 = (ReqProgress row2 up pct segs2, w3)" and "\<not> flt2 RdUpdate"
    and "\<And>n. parse_int 64 i = Some n \<Longrightarrow> \<exists>old. get_request (to_int32 n) (rw_requests w2) = Some old \<and> rdr_kind old = kind
        \<and> rdr_files old = rdr_files row \<and> rdr_status old \<in> {RqPending, RqDispatched, RqPartial}"
    and "length segs2 = length (segments_of (rw_tracked w) (rdr_route row))" and "segs2 \<noteq> []"
    and "int (length segs2 * length wanted) < 2147483648"
  shows "rdr_status row2 = RqComplete \<longleftrightarrow> (\<forall>s \<in> set segs2. \<forall>f \<in> set wanted. segment_has_file s f)"
proof -
  let ?segs = "segments_of (rw_tracked w) (rdr_route row)" and ?P = "\<lambda>p :: segment \<times> string. segment_has_file (fst p) (snd p)"
  have "rdr_files row = to_int32 (int (length (build_upload_items_at (rc_mac cfg) (rc_url_ok cfg) now (rc_base cfg)
      (rc_secret cfg) dongle name ?segs wanted)))"
    using post_created [OF assms(2,3)] assms(1) by auto
  then have "rdr_files row = int (length (filter (\<lambda>p. \<not> ?P p) (List.product ?segs wanted)))"
    using items_fit [of ?segs wanted] assms(8,10) by auto
  moreover have "filter (\<lambda>p. \<not> ?P p) (List.product ?segs wanted) = List.product ?segs wanted"
    using assms(4) by (auto simp: filter_id_conv)
  ultimately have files: "rdr_files row = int (length segs2 * length wanted)" using assms(8) by (simp add: length_product)
  have "wanted \<noteq> []" using assms(1) by (auto simp: files_for_kind_def full_video_files_def full_logs_files_def split: if_splits)
  then have pos: "0 < rdr_files row" using files assms(9) by simp
  from get_answer [OF assms(5,6)] obtain old n where old: "parse_int 64 i = Some n" "get_request (to_int32 n) (rw_requests w2) = Some old"
    and up: "up = count_uploaded_for_kind segs2 (rdr_kind old)"
    and st: "rdr_status row2 = RqComplete \<longleftrightarrow> rdr_status old = RqComplete \<or> rdr_status old \<noteq> RqFailed \<and> 0 < rdr_files old \<and> rdr_files old \<le> up"
    by blast
  have known: "rdr_kind old = kind" "rdr_files old = rdr_files row" "rdr_status old \<in> {RqPending, RqDispatched, RqPartial}"
    using assms(7) [OF old(1)] old(2) by auto
  have "rdr_status row2 = RqComplete \<longleftrightarrow> rdr_files row \<le> count_uploaded_for_kind segs2 kind"
    using st known up pos by auto
  also have "\<dots> \<longleftrightarrow> filter (\<lambda>p. \<not> ?P p) (List.product segs2 wanted) = []"
  proof -
    have "rdr_files row \<le> count_uploaded_for_kind segs2 kind \<longleftrightarrow> length (filter (\<lambda>p. \<not> ?P p) (List.product segs2 wanted)) = 0"
      using present_and_missing(2) [OF assms(1,10)] files by linarith
    then show ?thesis by (simp only: length_0_conv)
  qed
  also have "\<dots> \<longleftrightarrow> (\<forall>s \<in> set segs2. \<forall>f \<in> set wanted. segment_has_file s f)" by (auto simp: filter_empty_conv)
  finally show ?thesis .
qed

theorem completion_exact_witness:
  "\<exists>row up pct segs w3. get_full_data_request (\<lambda>_. False) 9 demo_ctx ''dev'' ''r'' ''1''
      \<lparr>rw_tracked = demo_tracked {Rlog}, rw_requests = demo_requests [demo_pending]\<rparr> = (ReqProgress row up pct segs, w3)
    \<and> rdr_status row = RqComplete"
proof -
  obtain row up pct w3 where get: "get_full_data_request (\<lambda>_. False) 9 demo_ctx ''dev'' ''r'' ''1''
      \<lparr>rw_tracked = demo_tracked {Rlog}, rw_requests = demo_requests [demo_pending]\<rparr> = (ReqProgress row up pct [demo_seg {Rlog}], w3)"
    by (simp add: get_full_data_request_def demo_ctx_def empty_ctx_def check_dongle_access_def demo_zero get_request_def demo_requests_def
        demo_pending_def to_int32_def demo_pull_found demo_segments demo_count Let_def)
  have "rdr_status row = RqComplete \<longleftrightarrow> (\<forall>s \<in> set [demo_seg {Rlog}]. \<forall>f \<in> set [''rlog.zst'']. segment_has_file s f)"
    by (rule completion_exact [OF demo_kind demo_post _ _ get])
      (simp_all add: demo_zero demo_pending_def demo_segments demo_seg_def segment_has_file_def get_request_def demo_requests_def to_int32_def)
  with get show ?thesis by (auto simp: demo_seg_def segment_has_file_def)
qed

text \<open>
  Without the hypothesis on the start it is not so: a request made while at least as many files of
  its kind were uploaded as were missing is complete at once, with nothing uploaded for it.
\<close>

lemma completes_early:
  assumes "files_for_kind kind = Inr wanted"
    and "request_full_data cfg flt now dbnow c dongle name (Some kind) w = (ReqRow code row, w1)" and "code \<noteq> 200"
    and "rdr_status row \<noteq> RqFailed" and "\<forall>r \<in> set (qd_rows (rw_requests w)). rdr_id r \<noteq> rdr_id row"
    and "0 < rdr_id row" and "rdr_id row < 2147483648"
    and "int (length segs * length wanted) < 2147483648" and "segs = segments_of (rw_tracked w) (rdr_route row)"
    and "0 < rdr_files row" and "rdr_files row \<le> count_uploaded_for_kind segs kind"
  shows "\<exists>w2. get_full_data_request (\<lambda>_. False) now2 c dongle name (show_int (rdr_id row)) w1
    = (ReqProgress (row\<lparr>rdr_status := RqComplete, rdr_completed := Some now2\<rparr>) (count_uploaded_for_kind segs kind)
        (percent (count_uploaded_for_kind segs kind) (rdr_files row)) segs, w2)"
proof -
  from post_created [OF assms(2,3)] obtain rt where
    rt: "get_route_row (rw_tracked w) dongle name = Some rt" "rdr_route row = r_id rt" and kind: "rdr_kind row = kind" and "rdr_status row \<noteq> RqComplete" and "check_dongle_access c dongle"
    and w1: "w1 = w\<lparr>rw_requests := (rw_requests w)\<lparr>qd_rows := qd_rows (rw_requests w) @ [row], qd_next := qd_next (rw_requests w) + 1\<rparr>\<rparr>"
    by fastforce
  have "find (\<lambda>r. rdr_id r = rdr_id row) (qd_rows (rw_requests w)) = None" using assms(5) by (simp add: find_None_set)
  then have "get_request (rdr_id row) (rw_requests w1) = Some row" by (simp add: get_request_def w1 find_app)
  moreover have "parse_int 64 (show_int (rdr_id row)) = Some (rdr_id row)" using assms(6,7) by (intro parse_show_int) simp_all
  moreover have "to_int32 (rdr_id row) = rdr_id row" using assms(6,7) by (simp add: to_int32_id)
  ultimately show ?thesis
    using rt kind assms(4,6,9-11) \<open>rdr_status row \<noteq> RqComplete\<close> \<open>check_dongle_access c dongle\<close> by (simp add: get_full_data_request_def w1 Let_def)
qed

end
