(* ===== verification/Notify.thy ===== *)
theory Notify imports AlertWorker GoStrings begin

text \<open>
  Alert notifications: the dispatcher of \<open>internal/alpr/notify/dispatcher.go\<close> with its dedup ledger
  (\<open>internal/db/alpr_notifications_sent.sql.go\<close>) and the subscriber of \<open>cmd/server/alpr_notify.go\<close>
  that feeds it from the alerts channel, with its enricher. A sender is its name and whether its
  \<open>Send\<close> succeeds on a payload; decryption is an argument.
\<close>

section \<open>State\<close>

record payload =
  pl_hash64 :: string
  pl_plate :: string
  pl_severity :: int
  pl_evidence :: "component list"
  pl_route :: string
  pl_dongle :: string
  pl_url :: string

type_synonym sender = "string \<times> (payload \<Rightarrow> bool)"

record notify_cfg =
  nc_min_severity :: int
  nc_dedup_hours :: int
  nc_dashboard :: string

datatype notify_query = NqWatch | NqLast | NqUpsert

text \<open>
  The ledger, and what has been handed to the senders: the clock at the ledger write, the plate's
  hash, the payload and the outcome of each sender.
\<close>

record notify_world =
  nw_watch :: watch_db
  nw_ledger :: "string \<Rightarrow> gotime option"
  nw_sent :: "(gotime \<times> string \<times> payload \<times> (string \<times> bool) list) list"

definition get_last_notification_sent :: "string \<Rightarrow> notify_world \<Rightarrow> gotime option" where
  "get_last_notification_sent h w = nw_ledger w h"

definition upsert_notification_sent :: "string \<Rightarrow> gotime \<Rightarrow> notify_world \<Rightarrow> notify_world" where
  "upsert_notification_sent h t w = w\<lparr>nw_ledger := (nw_ledger w)(h \<mapsto> t)\<rparr>"

interpretation sent_ledger: keyed_store "\<lambda>w h. get_last_notification_sent h w" "\<lambda>h t. upsert_notification_sent h t"
  by unfold_locales (simp_all add: get_last_notification_sent_def upsert_notification_sent_def)

section \<open>The dispatcher\<close>

definition new_config :: "notify_cfg \<Rightarrow> notify_cfg" where
  "new_config c = (if nc_dedup_hours c < 0 then c\<lparr>nc_dedup_hours := 0\<rparr> else c)"

definition build_dashboard_url :: "string \<Rightarrow> string \<Rightarrow> string" where
  "build_dashboard_url base h = (if base = [] \<or> h = [] then [] else base @ ''/alpr/plates/'' @ h)"

text \<open>\<open>fanOut\<close>: every sender once, in the order they are wired.\<close>

definition fan_out :: "sender list \<Rightarrow> payload \<Rightarrow> (string \<times> bool) list" where
  "fan_out senders p = map (\<lambda>(name, send). (name, send p)) senders"

definition suppressed_by_whitelist :: "(notify_query \<Rightarrow> bool) \<Rightarrow> string \<Rightarrow> notify_world \<Rightarrow> bool" where
  "suppressed_by_whitelist flt h w =
     (if flt NqWatch then False
      else (case look_watch (nw_watch w) h of None \<Rightarrow> False | Some r \<Rightarrow> wr_kind r = Whitelist))"

definition within_window :: "(notify_query \<Rightarrow> bool) \<Rightarrow> notify_cfg \<Rightarrow> gotime \<Rightarrow> string \<Rightarrow> notify_world \<Rightarrow> bool" where
  "within_window flt c now h w =
     (if 0 < nc_dedup_hours c \<and> \<not> flt NqLast
      then (case get_last_notification_sent h w of
              None \<Rightarrow> False
            | Some t \<Rightarrow> time_sub now t < to_int64 (nc_dedup_hours c * hour))
      else False)"

text \<open>\<open>now1\<close> is the clock at the window check, \<open>now2\<close> at the ledger write.\<close>

definition dispatch_alert ::
  "notify_cfg \<Rightarrow> (notify_query \<Rightarrow> bool) \<Rightarrow> (payload \<Rightarrow> payload option) \<Rightarrow> sender list \<Rightarrow> gotime \<Rightarrow> gotime
     \<Rightarrow> payload \<Rightarrow> string \<Rightarrow> notify_world \<Rightarrow> notify_world" where
  "dispatch_alert c flt enrich senders now1 now2 base h w =
     (if senders = [] then w
      else if pl_severity base < nc_min_severity c then w
      else if h \<noteq> [] \<and> suppressed_by_whitelist flt h w then w
      else if h \<noteq> [] \<and> within_window flt c now1 h w then w
      else
        (case enrich base of
           None \<Rightarrow> w
         | Some p \<Rightarrow>
             if pl_plate p = [] then w
             else
               (let p1 = p\<lparr>pl_url := build_dashboard_url (nc_dashboard c) (pl_hash64 p)\<rparr>;
                    results = fan_out senders p1;
                    w1 = w\<lparr>nw_sent := nw_sent w @ [(now2, h, p1, results)]\<rparr> in
                if (\<exists>r \<in> set results. snd r) \<and> h \<noteq> [] \<and> \<not> flt NqUpsert
                then upsert_notification_sent h now2 w1 else w1)))"

text \<open>\<open>Test\<close> bypasses the filters and the ledger.\<close>

definition notify_test :: "notify_cfg \<Rightarrow> sender list \<Rightarrow> payload \<Rightarrow> (string \<times> bool) list" where
  "notify_test c senders p =
     (if senders = [] then [] else fan_out senders (p\<lparr>pl_url := build_dashboard_url (nc_dashboard c) (pl_hash64 p)\<rparr>))"

text \<open>
  \<open>newAlertEnricher\<close>: the plate text is the first ciphertext of the plate on one of its routes
  that decrypts. \<open>None\<close> from a lookup is its error; the enricher itself never fails.
\<close>

fun first_plain :: "(string \<Rightarrow> string option) \<Rightarrow> string \<Rightarrow> (string \<times> string) list \<Rightarrow> string option" where
  "first_plain dec h [] = None"
| "first_plain dec h ((k, c) # ds) =
     (if k \<noteq> h \<or> c = [] then first_plain dec h ds
      else (case dec c of None \<Rightarrow> first_plain dec h ds | Some t \<Rightarrow> Some t))"

fun walk_encounters ::
  "(string \<Rightarrow> string option) \<Rightarrow> (string \<Rightarrow> string \<Rightarrow> (string \<times> string) list option) \<Rightarrow> (string \<times> string \<times> string) list
     \<Rightarrow> string \<Rightarrow> string" where
  "walk_encounters dec dets [] plate = plate"
| "walk_encounters dec dets ((dongle, route, h) # es) plate =
     (case dets dongle route of
        None \<Rightarrow> walk_encounters dec dets es plate
      | Some ds \<Rightarrow>
          (let plate' = (case first_plain dec h ds of None \<Rightarrow> plate | Some t \<Rightarrow> t) in
           if plate' \<noteq> [] then plate' else walk_encounters dec dets es plate'))"

definition alert_enricher ::
  "(string \<Rightarrow> string option) \<Rightarrow> (string \<Rightarrow> (string \<times> string \<times> string) list option)
     \<Rightarrow> (string \<Rightarrow> string \<Rightarrow> (string \<times> string) list option) \<Rightarrow> payload \<Rightarrow> payload option" where
  "alert_enricher dec encs dets p =
     (case (if trim_space (pl_hash64 p) = [] then Some [] else b64_dec (trim_space (pl_hash64 p))) of
        None \<Rightarrow> Some p
      | Some h \<Rightarrow>
          if h = [] then Some p
          else (case encs h of None \<Rightarrow> Some p | Some es \<Rightarrow> Some (p\<lparr>pl_plate := walk_encounters dec dets es (pl_plate p)\<rparr>)))"

text \<open>The subscriber's loop body on one event of the alerts channel.\<close>

definition subscribe ::
  "notify_cfg \<Rightarrow> (notify_query \<Rightarrow> bool) \<Rightarrow> (payload \<Rightarrow> payload option) \<Rightarrow> sender list \<Rightarrow> gotime \<Rightarrow> gotime
     \<Rightarrow> alert_created \<Rightarrow> notify_world \<Rightarrow> notify_world" where
  "subscribe c flt enrich senders now1 now2 e w =
     dispatch_alert c flt enrich senders now1 now2
       \<lparr>pl_hash64 = b64_enc (al_hash e), pl_plate = [], pl_severity = al_severity e, pl_evidence = [],
         pl_route = al_route e, pl_dongle = al_dongle e, pl_url = []\<rparr> (al_hash e) w"

text \<open>One turn of the loop: the faults, the two clock readings, the outcomes of the senders, the event.\<close>

record turn =
  tn_faults :: "notify_query \<Rightarrow> bool"
  tn_now1 :: gotime
  tn_now2 :: gotime
  tn_senders :: "sender list"
  tn_event :: alert_created

fun run_subscriber :: "notify_cfg \<Rightarrow> (payload \<Rightarrow> payload option) \<Rightarrow> turn list \<Rightarrow> notify_world \<Rightarrow> notify_world" where
  "run_subscriber c enrich [] w = w"
| "run_subscriber c enrich (t # ts) w =
     run_subscriber c enrich ts (subscribe c (tn_faults t) enrich (tn_senders t) (tn_now1 t) (tn_now2 t) (tn_event t) w)"

lemma b64_char_plain: "n < 64 \<Longrightarrow> \<not> ascii_space (b64_char n) \<and> byte (b64_char n) < 128"
  using b64_val_char [of n] by (auto simp: b64_val_def ascii_space_def byte_def Let_def simp del: b64_val_char split: if_splits)

lemma trim_b64: "trim_space (b64_enc s) = b64_enc s"
proof (cases "b64_enc s = []")
  case False
  then have "\<forall>c \<in> {hd (b64_enc s), last (b64_enc s)}. \<not> ascii_space c \<and> byte c < 128"
    using b64_enc_chars b64_char_plain by (metis hd_in_set insertE last_in_set singletonD)
  then show ?thesis by (intro trim_space_id) simp_all
qed simp

lemma first_plain_sound: "first_plain dec h ds = Some t \<Longrightarrow> \<exists>c. (h, c) \<in> set ds \<and> dec c = Some t"
  by (induction dec h ds rule: first_plain.induct) (auto split: if_splits option.splits)

lemma walk_encounters_sound:
  "walk_encounters dec dets es p = p
    \<or> (\<exists>dongle route h ds c. (dongle, route, h) \<in> set es \<and> dets dongle route = Some ds \<and> (h, c) \<in> set ds
         \<and> dec c = Some (walk_encounters dec dets es p))"
proof (induction es arbitrary: p)
  case (Cons e es)
  obtain dongle route h where e: "e = (dongle, route, h)" by (cases e)
  define q where "q = (case dets dongle route of None \<Rightarrow> p | Some ds \<Rightarrow> (case first_plain dec h ds of None \<Rightarrow> p | Some t \<Rightarrow> t))"
  have q: "q = p \<or> (\<exists>ds c. dets dongle route = Some ds \<and> (h, c) \<in> set ds \<and> dec c = Some q)"
    using first_plain_sound by (auto simp: q_def split: option.splits)
  have "walk_encounters dec dets (e # es) p = q \<or> walk_encounters dec dets (e # es) p = walk_encounters dec dets es q"
    by (simp add: e q_def Let_def split: option.split)
  then show ?case
  proof
    assume w: "walk_encounters dec dets (e # es) p = q"
    show ?thesis unfolding w using q unfolding e by (meson list.set_intros(1))
  next
    assume w: "walk_encounters dec dets (e # es) p = walk_encounters dec dets es q"
    show ?thesis unfolding w using Cons.IH [of q] q unfolding e by (metis list.set_intros)
  qed
qed simp

text \<open>The plate text of an enriched event is the decryption of a ciphertext stored under its hash.\<close>

lemma enriched_plate:
  assumes "alert_enricher dec encs dets \<lparr>pl_hash64 = b64_enc h, pl_plate = [], pl_severity = k, pl_evidence = [],
      pl_route = rt, pl_dongle = dg, pl_url = []\<rparr> = Some p"
    and "pl_plate p \<noteq> []" and "\<And>es e. encs h = Some es \<Longrightarrow> e \<in> set es \<Longrightarrow> snd (snd e) = h"
  shows "\<exists>dongle route ds c. dets dongle route = Some ds \<and> (h, c) \<in> set ds \<and> dec c = Some (pl_plate p)"
proof -
  have h: "h \<noteq> []" and "b64_enc h \<noteq> []" using assms(1,2) b64_enc_nonempty [of h]
    by (auto simp: alert_enricher_def trim_b64 split: if_splits option.splits)
  with assms(1,2) obtain es where es: "encs h = Some es" and p: "pl_plate p = walk_encounters dec dets es []"
    by (auto simp: alert_enricher_def trim_b64 split: if_splits option.splits)
  from walk_encounters_sound [of dec dets es "[]"] assms(2) p
  obtain dongle route h' ds c where "(dongle, route, h') \<in> set es" "dets dongle route = Some ds" "(h', c) \<in> set ds"
      "dec c = Some (pl_plate p)" by auto
  then show ?thesis using assms(3) [OF es] by fastforce
qed

section \<open>Spacing\<close>

text \<open>The times at which some sender delivered a notification of the plate.\<close>

definition delivered :: "string \<Rightarrow> notify_world \<Rightarrow> gotime list" where
  "delivered h w = map fst (filter (\<lambda>(t, k, p, rs). k = h \<and> (\<exists>r \<in> set rs. snd r)) (nw_sent w))"

text \<open>Turns in time order, with the ledger reachable.\<close>

definition orderly :: "turn list \<Rightarrow> bool" where
  "orderly ts \<longleftrightarrow> sorted (concat (map (\<lambda>t. [tn_now1 t, tn_now2 t]) ts))
     \<and> (\<forall>t \<in> set ts. \<not> tn_faults t NqLast \<and> \<not> tn_faults t NqUpsert \<and> al_hash (tn_event t) \<noteq> [])"

fun spaced :: "duration \<Rightarrow> gotime list \<Rightarrow> bool" where
  "spaced d (a # b # ts) \<longleftrightarrow> a + d \<le> b \<and> spaced d (b # ts)"
| "spaced d _ \<longleftrightarrow> True"

lemma spaced_snoc: "spaced d (xs @ [y]) \<longleftrightarrow> spaced d xs \<and> (xs = [] \<or> last xs + d \<le> y)"
  by (induction d xs rule: spaced.induct) auto

text \<open>The ledger holds the last delivery of each plate, which is not in the future.\<close>

definition ledger_inv :: "duration \<Rightarrow> gotime \<Rightarrow> notify_world \<Rightarrow> bool" where
  "ledger_inv d now w \<longleftrightarrow>
     (\<forall>h. h \<noteq> [] \<longrightarrow> spaced d (delivered h w)
        \<and> nw_ledger w h = (if delivered h w = [] then None else Some (last (delivered h w)))
        \<and> (\<forall>t \<in> set (delivered h w). t \<le> now))"

lemma delivered_snoc:
  "delivered h (w\<lparr>nw_sent := nw_sent w @ [(t, k, p, rs)]\<rparr>) = delivered h w @ (if k = h \<and> (\<exists>r \<in> set rs. snd r) then [t] else [])"
  by (simp add: delivered_def)

lemma delivered_ledger [simp]: "delivered h (upsert_notification_sent k t w) = delivered h w"
  by (simp add: delivered_def upsert_notification_sent_def)

lemma ledger_upsert: "nw_ledger (upsert_notification_sent h t w) = (nw_ledger w)(h \<mapsto> t)"
  by (simp add: upsert_notification_sent_def)

lemma dispatch_cases:
  assumes "h \<noteq> []" and "\<not> flt NqUpsert"
  shows "dispatch_alert c flt enrich senders now1 now2 base h w = w
    \<or> \<not> within_window flt c now1 h w \<and> (\<exists>p rs. dispatch_alert c flt enrich senders now1 now2 base h w =
        (if \<exists>r \<in> set rs. snd r then upsert_notification_sent h now2 (w\<lparr>nw_sent := nw_sent w @ [(now2, h, p, rs)]\<rparr>)
         else w\<lparr>nw_sent := nw_sent w @ [(now2, h, p, rs)]\<rparr>))"
  using assms by (auto simp: dispatch_alert_def Let_def split: option.split)

lemma subscribe_keeps_inv:
  assumes "ledger_inv d now w" and "now \<le> tn_now1 t" and "tn_now1 t \<le> tn_now2 t"
    and "\<not> tn_faults t NqLast" and "\<not> tn_faults t NqUpsert" and "al_hash (tn_event t) \<noteq> []"
    and "0 < nc_dedup_hours c" and "d = nc_dedup_hours c * hour" and "d \<le> max_duration"
  shows "ledger_inv d (tn_now2 t) (subscribe c (tn_faults t) enrich (tn_senders t) (tn_now1 t) (tn_now2 t) (tn_event t) w)"
proof -
  let ?h = "al_hash (tn_event t)" and ?w' = "subscribe c (tn_faults t) enrich (tn_senders t) (tn_now1 t) (tn_now2 t) (tn_event t) w"
  have later: "ledger_inv d (tn_now2 t) w" using assms(1-3) unfolding ledger_inv_def by fastforce
  have d: "to_int64 d = d" using assms(7-9) by (intro to_int64_id) (simp_all add: max_duration_def hour_def)
  consider "?w' = w"
    | p rs where "\<not> within_window (tn_faults t) c (tn_now1 t) ?h w"
        "?w' = (if \<exists>r \<in> set rs. snd r then upsert_notification_sent ?h (tn_now2 t) (w\<lparr>nw_sent := nw_sent w @ [(tn_now2 t, ?h, p, rs)]\<rparr>)
                else w\<lparr>nw_sent := nw_sent w @ [(tn_now2 t, ?h, p, rs)]\<rparr>)"
    using dispatch_cases [where flt = "tn_faults t", OF assms(6,5)] unfolding subscribe_def by metis
  then show ?thesis
  proof cases
    case 1
    then show ?thesis using later by simp
  next
    case (2 p rs)
    have gap: "last (delivered ?h w) + d \<le> tn_now2 t" if "delivered ?h w \<noteq> []"
    proof -
      have "nw_ledger w ?h = Some (last (delivered ?h w))" using assms(1,6) that by (simp add: ledger_inv_def)
      then have "\<not> time_sub (tn_now1 t) (last (delivered ?h w)) < d"
        using 2(1) assms(4,7,8) d by (simp add: within_window_def get_last_notification_sent_def)
      moreover have "time_sub (tn_now1 t) (last (delivered ?h w)) < d \<longleftrightarrow> tn_now1 t - last (delivered ?h w) < d"
        using assms(7-9) by (intro time_sub_less) (simp_all add: min_duration_def hour_def)
      ultimately show ?thesis using assms(3) by linarith
    qed
    show ?thesis
    proof (cases "\<exists>r \<in> set rs. snd r")
      case False
      then show ?thesis using later 2(2) by (simp add: ledger_inv_def delivered_snoc)
    next
      case True
      then show ?thesis
        using later 2(2) gap unfolding ledger_inv_def
        by (auto simp: delivered_snoc spaced_snoc ledger_upsert)
    qed
  qed
qed

lemma run_keeps_inv:
  assumes "ledger_inv d now w" and "orderly ts" and "\<forall>t \<in> set ts. now \<le> tn_now1 t"
    and "0 < nc_dedup_hours c" and "d = nc_dedup_hours c * hour" and "d \<le> max_duration"
  shows "\<exists>now'. ledger_inv d now' (run_subscriber c enrich ts w)"
  using assms(1-3)
proof (induction ts arbitrary: now w)
  case Nil
  then show ?case by auto
next
  case (Cons t ts)
  have t: "now \<le> tn_now1 t" "tn_now1 t \<le> tn_now2 t" "\<not> tn_faults t NqLast" "\<not> tn_faults t NqUpsert" "al_hash (tn_event t) \<noteq> []"
    using Cons.prems(2,3) by (auto simp: orderly_def)
  have "orderly ts" and "\<forall>u \<in> set ts. tn_now2 t \<le> tn_now1 u" using Cons.prems(2) by (auto simp: orderly_def)
  with Cons.IH [OF subscribe_keeps_inv [OF Cons.prems(1) t assms(4-6)]] show ?case by simp
qed

text \<open>
  An alert that was not delivered is not repeated: the evaluation publishes on the first alert and
  on a rise only, so an alert whose dispatch failed, or whose plate text was not readable, waits
  for the severity to rise.
\<close>

lemma lost_alert_not_repeated:
  assumes "evaluate_plate ef sf now dbnow h route dongle w = (None, w')" and "watch_wf (aw_watch w)"
    and "plate_state_of (look_watch (aw_watch w) h) = Alert k a" and "plate_severity sf now h w \<le> k"
  shows "aw_alerts w' = aw_alerts w"
proof -
  obtain c where load: "evaluate_load ef sf now h w = Inr c" and commit: "evaluate_commit ef dbnow route dongle c w = (None, w')"
    using assms(1) by (auto simp: evaluate_plate_def split: sum.splits)
  note c = evaluate_load_ok [OF load]
  have "dc_existing c = k" using c(5) existing_severity [OF assms(2), of h] assms(3) by simp
  moreover have "dc_exists c" using c(4) assms(3) by (auto simp: plate_state_of_def split: option.splits)
  ultimately show ?thesis
    using evaluate_commit_ok(2,4) [OF commit] c(3) assms(4) by (cases "plate_severity sf now h w < 2") auto
qed

text \<open>A whitelisted plate is not notified, unless the lookup of its row fails.\<close>

lemma whitelisted_not_notified:
  "look_watch (nw_watch w) h = Some r \<Longrightarrow> wr_kind r = Whitelist \<Longrightarrow> \<not> flt NqWatch \<Longrightarrow> h \<noteq> [] \<Longrightarrow>
     dispatch_alert c flt enrich senders now1 now2 base h w = w"
  by (simp add: dispatch_alert_def suppressed_by_whitelist_def)

lemma failed_lookup_notifies:
  assumes "flt NqWatch" and "\<not> within_window flt c now1 h w" and "senders \<noteq> []" and "nc_min_severity c \<le> pl_severity base"
    and "enrich base = Some p" and "pl_plate p \<noteq> []"
  shows "nw_sent (dispatch_alert c flt enrich senders now1 now2 base h w) \<noteq> nw_sent w"
  using assms by (simp add: dispatch_alert_def suppressed_by_whitelist_def upsert_notification_sent_def Let_def)

section \<open>Properties\<close>

text \<open>C18: notifications of one plate are spaced. However many alerts the worker publishes and whichever senders
  fail, two delivered notifications of a plate are at least the dedup window apart, as long as the
  clock does not go back, the ledger can be read and written, and the window is a duration; and a
  fully failed dispatch does not count, so the next alert is not held back by it.\<close>

theorem notifications_spaced:
  assumes "orderly ts" and "0 < nc_dedup_hours c" and "nc_dedup_hours c * hour \<le> max_duration"
    and "nw_sent w = []" and "nw_ledger w = (\<lambda>_. None)" and "h \<noteq> []"
  shows "spaced (nc_dedup_hours c * hour) (delivered h (run_subscriber c enrich ts w))
    \<and> nw_ledger (run_subscriber c enrich ts w) h =
        (if delivered h (run_subscriber c enrich ts w) = [] then None else Some (last (delivered h (run_subscriber c enrich ts w))))"
proof (cases ts)
  case Nil
  then show ?thesis using assms(4,5) by (simp add: delivered_def)
next
  case (Cons t us)
  have "ledger_inv (nc_dedup_hours c * hour) (tn_now1 t) w" using assms(4,5) by (simp add: ledger_inv_def delivered_def)
  moreover have "\<forall>u \<in> set ts. tn_now1 t \<le> tn_now1 u" using assms(1) Cons by (auto simp: orderly_def)
  ultimately obtain now' where "ledger_inv (nc_dedup_hours c * hour) now' (run_subscriber c enrich ts w)"
    using run_keeps_inv [OF _ assms(1) _ assms(2) refl assms(3)] by blast
  with assms(6) show ?thesis by (simp add: ledger_inv_def)
qed

definition demo_turn :: "gotime \<Rightarrow> turn" where
  "demo_turn t = \<lparr>tn_faults = (\<lambda>_. False), tn_now1 = t, tn_now2 = t, tn_senders = [(''email'', \<lambda>_. True)],
     tn_event = \<lparr>al_hash = ''h'', al_severity = 3, al_route = [], al_dongle = [], al_at = t\<rparr>\<rparr>"

definition demo_notify :: notify_cfg where
  "demo_notify = \<lparr>nc_min_severity = 2, nc_dedup_hours = 6, nc_dashboard = []\<rparr>"

definition demo_ledger :: notify_world where
  "demo_ledger = \<lparr>nw_watch = \<lparr>wd_rows = [], wd_next = 1\<rparr>, nw_ledger = (\<lambda>_. None), nw_sent = []\<rparr>"

theorem notifications_spaced_witness:
  "spaced (6 * hour) (delivered ''h'' (run_subscriber demo_notify (\<lambda>p. Some (p\<lparr>pl_plate := ''ABC''\<rparr>))
     [demo_turn 0, demo_turn hour, demo_turn (7 * hour)] demo_ledger))"
proof -
  have "orderly [demo_turn 0, demo_turn hour, demo_turn (7 * hour)]" by (simp add: orderly_def demo_turn_def hour_def)
  from notifications_spaced [OF this, of demo_notify demo_ledger "''h''"] show ?thesis
    by (simp add: demo_notify_def demo_ledger_def hour_def max_duration_def)
qed

end
