(* ===== verification/Email.thy ===== *)
theory Email imports Notify begin

text \<open>
  The two senders of \<open>internal/alpr/notify/email.go\<close> and \<open>webhook.go\<close> and the wiring of
  \<open>cmd/server/alpr_notify.go\<close>. An e-mail is the sequence of SMTP calls its \<open>Send\<close> makes and the
  message it builds; the SMTP client, the HTTP client and the JSON encoder are arguments.
\<close>

section \<open>Text helpers\<close>

definition crlf :: string where
  "crlf = [CHR 0x0D, CHR 0x0A]"

definition nl :: string where
  "nl = [CHR 0x0A]"

definition dquote :: string where
  "dquote = [CHR 0x22]"

definition sanitize_header_value :: "string \<Rightarrow> string" where
  "sanitize_header_value s = map (\<lambda>c. if c = CHR 0x0D \<or> c = CHR 0x0A \<or> c = CHR 0x00 then CHR 0x20 else c) s"

definition escape_char :: "char \<Rightarrow> string" where
  "escape_char c =
     (if c = CHR 0x26 then ''&amp;'' else if c = CHR 0x3C then ''&lt;'' else if c = CHR 0x3E then ''&gt;''
      else if c = CHR 0x22 then ''&quot;'' else if c = CHR 0x27 then ''&#39;'' else [c])"

definition html_escape :: "string \<Rightarrow> string" where
  "html_escape s = concat (map escape_char s)"

definition split_recipients :: "string \<Rightarrow> string list" where
  "split_recipients s = filter (\<lambda>p. p \<noteq> []) (map trim_space (split_on CHR '','' s))"

fun join_with :: "string \<Rightarrow> string list \<Rightarrow> string" where
  "join_with sep [] = []"
| "join_with sep [s] = s"
| "join_with sep (s # t # ss) = s @ sep @ join_with sep (t # ss)"

definition summarize_evidence :: "component list \<Rightarrow> string" where
  "summarize_evidence cs = (if cs = [] then ''no evidence components recorded'' else join_with '' + '' (map co_name cs))"

section \<open>The message\<close>

definition build_subject :: "payload \<Rightarrow> string" where
  "build_subject a = ''ALPR alert: severity '' @ show_int (pl_severity a) @ '' - '' @ sanitize_header_value (pl_plate a)"

text \<open>\<open>js\<close> is \<open>json.Marshal\<close> of a component's evidence.\<close>

definition evidence_text :: "((string \<times> evidence) list \<Rightarrow> string option) \<Rightarrow> component \<Rightarrow> string" where
  "evidence_text js c =
     ''  - '' @ co_name c @ '' (+'' @ show_fixed 2 (co_points c) @ '')''
     @ (if co_evidence c = [] then [] else (case js (co_evidence c) of None \<Rightarrow> [] | Some raw \<Rightarrow> '' '' @ raw)) @ nl"

definition build_text_body :: "((string \<times> evidence) list \<Rightarrow> string option) \<Rightarrow> payload \<Rightarrow> string" where
  "build_text_body js a =
     ''ALPR alert'' @ nl @ ''Severity: '' @ show_int (pl_severity a) @ nl @ ''Plate: '' @ pl_plate a @ nl
     @ ''Evidence: '' @ summarize_evidence (pl_evidence a) @ nl
     @ (if pl_route a \<noteq> [] then ''Route: '' @ pl_route a @ nl else [])
     @ (if pl_dongle a \<noteq> [] then ''Device: '' @ pl_dongle a @ nl else [])
     @ (if pl_evidence a = [] then [] else nl @ ''Evidence detail:'' @ nl @ concat (map (evidence_text js) (pl_evidence a)))
     @ (if pl_url a \<noteq> [] then nl @ ''View in dashboard: '' @ pl_url a @ nl else [])
     @ nl @ ''You are receiving this because ALPR notifications are enabled. Configure or disable in Settings.'' @ nl"

definition evidence_item :: "((string \<times> evidence) list \<Rightarrow> string option) \<Rightarrow> component \<Rightarrow> string" where
  "evidence_item js c =
     ''<li>'' @ html_escape (co_name c) @ '' (+'' @ show_fixed 2 (co_points c) @ '')''
     @ (if co_evidence c = [] then []
        else (case js (co_evidence c) of None \<Rightarrow> [] | Some raw \<Rightarrow> '' <code>'' @ html_escape raw @ ''</code>''))
     @ ''</li>''"

definition build_html_body :: "((string \<times> evidence) list \<Rightarrow> string option) \<Rightarrow> payload \<Rightarrow> string" where
  "build_html_body js a =
     ''<!doctype html><html><body>'' @ ''<h2>ALPR alert</h2>''
     @ ''<p><strong>Severity:</strong> '' @ show_int (pl_severity a) @ ''</p>''
     @ ''<p><strong>Plate:</strong> '' @ html_escape (pl_plate a) @ ''</p>''
     @ ''<p><strong>Evidence:</strong> '' @ html_escape (summarize_evidence (pl_evidence a)) @ ''</p>''
     @ (if pl_route a \<noteq> [] then ''<p><strong>Route:</strong> '' @ html_escape (pl_route a) @ ''</p>'' else [])
     @ (if pl_dongle a \<noteq> [] then ''<p><strong>Device:</strong> '' @ html_escape (pl_dongle a) @ ''</p>'' else [])
     @ (if pl_evidence a = [] then []
        else ''<p><strong>Evidence detail:</strong></p><ul>'' @ concat (map (evidence_item js) (pl_evidence a)) @ ''</ul>'')
     @ (if pl_url a \<noteq> [] then ''<p><a href='' @ dquote @ html_escape (pl_url a) @ dquote @ ''>View in dashboard</a></p>'' else [])
     @ ''<p style='' @ dquote @ ''color:#666;font-size:smaller'' @ dquote
     @ ''>You are receiving this because ALPR notifications are enabled. Configure or disable in Settings.</p>''
     @ ''</body></html>''"

definition mime_boundary :: string where
  "mime_boundary = ''alpr-notify-boundary''"

definition build_email_message :: "((string \<times> evidence) list \<Rightarrow> string option) \<Rightarrow> string \<Rightarrow> string list \<Rightarrow> payload \<Rightarrow> string" where
  "build_email_message js sender rcpts a =
     ''From: '' @ sanitize_header_value sender @ crlf
     @ ''To: '' @ join_with '', '' (map sanitize_header_value rcpts) @ crlf
     @ ''Subject: '' @ build_subject a @ crlf
     @ ''MIME-Version: 1.0'' @ crlf
     @ ''Content-Type: multipart/alternative; boundary='' @ dquote @ mime_boundary @ dquote @ crlf
     @ crlf
     @ ''--'' @ mime_boundary @ crlf
     @ ''Content-Type: text/plain; charset='' @ dquote @ ''utf-8'' @ dquote @ crlf
     @ ''Content-Transfer-Encoding: 8bit'' @ crlf
     @ crlf
     @ build_text_body js a @ crlf
     @ ''--'' @ mime_boundary @ crlf
     @ ''Content-Type: text/html; charset='' @ dquote @ ''utf-8'' @ dquote @ crlf
     @ ''Content-Transfer-Encoding: 8bit'' @ crlf
     @ crlf
     @ build_html_body js a @ crlf
     @ ''--'' @ mime_boundary @ ''--'' @ crlf"

section \<open>Sending an e-mail\<close>

text \<open>
  \<open>strings.ToLower\<close> against an ASCII constant: U+0130 lowers to i and U+212A to k, other
  characters outside ASCII stay outside.
\<close>

fun go_lower :: "string \<Rightarrow> string" where
  "go_lower (a # b # c # s) =
     (if byte a = 0xC4 \<and> byte b = 0xB0 then CHR ''i'' # go_lower (c # s)
      else if byte a = 0xE2 \<and> byte b = 0x84 \<and> byte c = 0xAA then CHR ''k'' # go_lower s
      else lower a # go_lower (b # c # s))"
| "go_lower [a, b] = (if byte a = 0xC4 \<and> byte b = 0xB0 then ''i'' else [lower a, lower b])"
| "go_lower [a] = [lower a]"
| "go_lower [] = []"

record email_cfg =
  ec_host :: string
  ec_port :: int
  ec_user :: string
  ec_password :: string
  ec_from :: string
  ec_to :: string
  ec_tls :: string

definition new_email_sender :: "email_cfg \<Rightarrow> email_cfg option" where
  "new_email_sender c =
     (if ec_host c = [] \<or> ec_to c = [] then None
      else
        (let c1 = (if ec_from c = [] then c\<lparr>ec_from := ec_user c\<rparr> else c) in
         if ec_from c1 = [] then None
         else
           (let c2 = (if ec_port c1 = 0 then c1\<lparr>ec_port := 587\<rparr> else c1) in
            Some (if ec_tls c2 = [] then c2\<lparr>ec_tls := ''starttls''\<rparr> else c2))))"

text \<open>
  The calls on the connection in order. \<open>SmtpFail\<close> is the error that \<open>Send\<close> returns itself, for an
  empty plate and for no recipients.
\<close>

datatype smtp_call =
  Dial string int | TlsClient | NewClient | AdvertisesStartTls | StartTls | SmtpAuth string string | MailFrom string
| RcptTo string | OpenData | PutData string | CloseData | SmtpFail

definition smtp_script :: "((string \<times> evidence) list \<Rightarrow> string option) \<Rightarrow> email_cfg \<Rightarrow> payload \<Rightarrow> smtp_call list" where
  "smtp_script js c a =
     (if pl_plate a = [] then [SmtpFail]
      else
        [Dial (ec_host c) (ec_port c)]
        @ (if go_lower (ec_tls c) = ''implicit'' then [TlsClient] else [])
        @ [NewClient]
        @ (if equal_fold (ec_tls c) ''starttls'' then [AdvertisesStartTls, StartTls] else [])
        @ (if ec_user c \<noteq> [] then [SmtpAuth (ec_user c) (ec_password c)] else [])
        @ [MailFrom (ec_from c)]
        @ (if split_recipients (ec_to c) = [] then [SmtpFail]
           else map RcptTo (split_recipients (ec_to c))
             @ [OpenData, PutData (build_email_message js (ec_from c) (split_recipients (ec_to c)) a), CloseData]))"

text \<open>A script stops at its first failing call; the calls made, and whether \<open>Send\<close> succeeds.\<close>

fun run_script :: "(smtp_call \<Rightarrow> bool) \<Rightarrow> smtp_call list \<Rightarrow> smtp_call list \<times> bool" where
  "run_script fails [] = ([], True)"
| "run_script fails (c # cs) =
     (if c = SmtpFail \<or> fails c then ([c], False) else (let (done_calls, ok) = run_script fails cs in (c # done_calls, ok)))"

definition email_send ::
  "((string \<times> evidence) list \<Rightarrow> string option) \<Rightarrow> (smtp_call \<Rightarrow> bool) \<Rightarrow> email_cfg \<Rightarrow> payload \<Rightarrow> smtp_call list \<times> bool" where
  "email_send js fails c a = run_script fails (smtp_script js c a)"

section \<open>The webhook\<close>

record webhook_payload =
  wp_type :: string
  wp_version :: string
  wp_severity :: int
  wp_hash64 :: string
  wp_plate :: string
  wp_evidence :: "component list"
  wp_route :: string
  wp_dongle :: string
  wp_url :: string
  wp_sent_at :: string

definition build_webhook_payload :: "payload \<Rightarrow> string \<Rightarrow> webhook_payload" where
  "build_webhook_payload a sent_at =
     \<lparr>wp_type = ''alpr_alert'', wp_version = ''1'', wp_severity = pl_severity a, wp_hash64 = pl_hash64 a, wp_plate = pl_plate a,
      wp_evidence = pl_evidence a, wp_route = pl_route a, wp_dongle = pl_dongle a, wp_url = pl_url a, wp_sent_at = sent_at\<rparr>"

definition new_webhook_sender :: "string \<Rightarrow> string option" where
  "new_webhook_sender url = (if trim_space url = [] then None else Some url)"

text \<open>\<open>enc\<close> encodes the payload, \<open>post\<close> is the answer's status or \<open>None\<close>.\<close>

definition webhook_send ::
  "(webhook_payload \<Rightarrow> string option) \<Rightarrow> (string \<Rightarrow> string \<Rightarrow> int option) \<Rightarrow> string \<Rightarrow> string \<Rightarrow> payload \<Rightarrow> bool" where
  "webhook_send enc post url sent_at a =
     (if pl_plate a = [] then False
      else (case enc (build_webhook_payload a sent_at) of
              None \<Rightarrow> False
            | Some body \<Rightarrow> (case post url body of None \<Rightarrow> False | Some status \<Rightarrow> 200 \<le> status \<and> status < 300)))"

text \<open>The senders \<open>buildALPRNotifyDispatcher\<close> wires.\<close>

definition wired_senders ::
  "((string \<times> evidence) list \<Rightarrow> string option) \<Rightarrow> (smtp_call \<Rightarrow> bool) \<Rightarrow> (webhook_payload \<Rightarrow> string option)
     \<Rightarrow> (string \<Rightarrow> string \<Rightarrow> int option) \<Rightarrow> string \<Rightarrow> email_cfg \<Rightarrow> string \<Rightarrow> sender list" where
  "wired_senders js fails enc post sent_at mail url =
     (case new_email_sender mail of None \<Rightarrow> [] | Some c \<Rightarrow> [(''email'', \<lambda>a. snd (email_send js fails c a))])
     @ (case new_webhook_sender url of None \<Rightarrow> [] | Some u \<Rightarrow> [(''webhook'', \<lambda>a. webhook_send enc post u sent_at a)])"

section \<open>Header lines\<close>

text \<open>How a mail reader finds the header: the lines up to the first empty one.\<close>

definition strip_cr :: "string \<Rightarrow> string" where
  "strip_cr l = (if l \<noteq> [] \<and> last l = CHR 0x0D then butlast l else l)"

definition text_lines :: "string \<Rightarrow> string list" where
  "text_lines s = map strip_cr (split_on (CHR 0x0A) s)"

definition header_lines :: "string \<Rightarrow> string list" where
  "header_lines s = takeWhile (\<lambda>l. l \<noteq> []) (text_lines s)"

definition one_line :: "string \<Rightarrow> bool" where
  "one_line s \<longleftrightarrow> CHR 0x0D \<notin> set s \<and> CHR 0x0A \<notin> set s \<and> CHR 0x00 \<notin> set s"

lemma one_line_append [simp]: "one_line (s @ t) \<longleftrightarrow> one_line s \<and> one_line t"
  by (auto simp: one_line_def)

lemma one_line_nil [simp]: "one_line []" and one_line_cons [simp]: "one_line (c # s) \<longleftrightarrow> c \<noteq> CHR 0x0D \<and> c \<noteq> CHR 0x0A \<and> c \<noteq> CHR 0x00 \<and> one_line s"
  by (auto simp: one_line_def)

lemma one_line_sanitized [simp]: "one_line (sanitize_header_value s)"
  by (auto simp: one_line_def sanitize_header_value_def)

lemma one_line_join: "one_line sep \<Longrightarrow> (\<And>s. s \<in> set ss \<Longrightarrow> one_line s) \<Longrightarrow> one_line (join_with sep ss)"
  by (induction sep ss rule: join_with.induct) auto

lemma show_int_one_line [simp]: "one_line (show_int i)"
  using show_int_chars [of _ i] by (fastforce simp: one_line_def digit_val_def Let_def)

lemma header_line:
  "one_line l \<Longrightarrow> l \<noteq> [] \<Longrightarrow> header_lines (l @ crlf @ s) = l # header_lines s"
  using split_on_append [of "CHR 0x0A" "l @ [CHR 0x0D]" s]
  by (simp add: header_lines_def text_lines_def strip_cr_def crlf_def one_line_def)

lemma header_end: "header_lines (crlf @ s) = []"
  using split_on_append [of "CHR 0x0A" "[CHR 0x0D]" s] by (simp add: header_lines_def text_lines_def strip_cr_def crlf_def)

lemma header_block:
  "\<forall>l \<in> set ls. one_line l \<and> l \<noteq> [] \<Longrightarrow> header_lines (concat (map (\<lambda>l. l @ crlf) ls) @ crlf @ s) = ls"
  by (induction ls) (simp_all add: header_line header_end)

definition mail_headers :: "string \<Rightarrow> string list \<Rightarrow> payload \<Rightarrow> string list" where
  "mail_headers sender rcpts a =
     [''From: '' @ sanitize_header_value sender,
      ''To: '' @ join_with '', '' (map sanitize_header_value rcpts),
      ''Subject: '' @ build_subject a,
      ''MIME-Version: 1.0'',
      ''Content-Type: multipart/alternative; boundary='' @ dquote @ mime_boundary @ dquote]"

lemma mail_headers_one_line: "\<forall>l \<in> set (mail_headers sender rcpts a). one_line l \<and> l \<noteq> []"
  by (auto simp: mail_headers_def build_subject_def dquote_def mime_boundary_def intro!: one_line_join)

lemma message_headers: "header_lines (build_email_message js sender rcpts a) = mail_headers sender rcpts a"
proof -
  have "\<exists>rest. build_email_message js sender rcpts a = concat (map (\<lambda>l. l @ crlf) (mail_headers sender rcpts a)) @ crlf @ rest"
    unfolding build_email_message_def mail_headers_def list.map concat.simps append_assoc append_Nil by (rule exI) (rule refl)
  then show ?thesis using header_block [OF mail_headers_one_line] by metis
qed

section \<open>Markup\<close>

text \<open>The tags of an HTML text: what stands between \<open><\<close> and the next \<open>></\<close>.\<close>

fun markup :: "string \<Rightarrow> string list" where
  "markup [] = []"
| "markup (c # s) = (if c = CHR 0x3C then takeWhile (\<lambda>x. x \<noteq> CHR 0x3E) s # markup s else markup s)"

fun html_unescape :: "string \<Rightarrow> string" where
  "html_unescape [] = []"
| "html_unescape (c # s) =
     (if c \<noteq> CHR 0x26 then c # html_unescape s
      else if take 4 s = ''amp;'' then CHR 0x26 # html_unescape (drop 4 s)
      else if take 3 s = ''lt;'' then CHR 0x3C # html_unescape (drop 3 s)
      else if take 3 s = ''gt;'' then CHR 0x3E # html_unescape (drop 3 s)
      else if take 5 s = ''quot;'' then CHR 0x22 # html_unescape (drop 5 s)
      else if take 4 s = ''#39;'' then CHR 0x27 # html_unescape (drop 4 s)
      else c # html_unescape s)"

lemma markup_plain [simp]: "CHR 0x3C \<notin> set s \<Longrightarrow> markup (s @ t) = markup t"
  by (induction s) auto

lemma takeWhile_plain: "CHR 0x3E \<notin> set s \<Longrightarrow> takeWhile (\<lambda>x. x \<noteq> CHR 0x3E) (s @ t) = s @ takeWhile (\<lambda>x. x \<noteq> CHR 0x3E) t"
  by (rule takeWhile_append2) auto

lemma escaped_chars: "c \<in> set (html_escape s) \<Longrightarrow> c \<notin> {CHR 0x3C, CHR 0x3E, CHR 0x22, CHR 0x27}"
  by (auto simp: html_escape_def escape_char_def split: if_splits)

lemma escaped_plain [simp]: "CHR 0x3C \<notin> set (html_escape s)" "CHR 0x3E \<notin> set (html_escape s)"
  using escaped_chars by blast+

lemma show_int_plain [simp]: "CHR 0x3C \<notin> set (show_int i)"
  using show_int_chars [of _ i] by (fastforce simp: digit_val_def Let_def)

lemma show_fixed_plain [simp]: "CHR 0x3C \<notin> set (show_fixed p x)"
  by (auto simp: show_fixed_def Let_def pad_zeros_def dest!: show_nat_chars simp: digit_val_def)

lemma html_escape_cons: "html_escape (c # s) = escape_char c @ html_escape s"
  by (simp add: html_escape_def)

lemma unescape_char: "html_unescape (escape_char c @ t) = c # html_unescape t"
  by (simp add: escape_char_def)

lemma unescape_escape: "html_unescape (html_escape s) = s"
  by (induction s) (simp_all add: html_escape_cons unescape_char, simp add: html_escape_def)

text \<open>The tags of the body, with their attributes cut off, and the tag of the link.\<close>

definition has_code :: "((string \<times> evidence) list \<Rightarrow> string option) \<Rightarrow> component \<Rightarrow> bool" where
  "has_code js c \<longleftrightarrow> co_evidence c \<noteq> [] \<and> js (co_evidence c) \<noteq> None"

definition body_tags :: "bool \<Rightarrow> bool \<Rightarrow> bool list \<Rightarrow> string list \<Rightarrow> string list" where
  "body_tags route dongle items link =
     [''!doctype html'', ''html'', ''body'', ''h2'', ''/h2'', ''p'', ''strong'', ''/strong'', ''/p'', ''p'', ''strong'', ''/strong'', ''/p'',
      ''p'', ''strong'', ''/strong'', ''/p'']
     @ (if route then [''p'', ''strong'', ''/strong'', ''/p''] else []) @ (if dongle then [''p'', ''strong'', ''/strong'', ''/p''] else [])
     @ (if items = [] then []
        else [''p'', ''strong'', ''/strong'', ''/p'', ''ul'']
          @ concat (map (\<lambda>code. [''li''] @ (if code then [''code'', ''/code''] else []) @ [''/li'']) items) @ [''/ul''])
     @ link @ [''p style='' @ dquote @ ''color:#666;font-size:smaller'' @ dquote, ''/p'', ''/body'', ''/html'']"

definition link_tags :: "string \<Rightarrow> string list" where
  "link_tags url = (if url = [] then [] else [''p'', ''a href='' @ dquote @ html_escape url @ dquote, ''/a'', ''/p''])"

lemma item_markup: "markup (evidence_item js c @ t) = [''li''] @ (if has_code js c then [''code'', ''/code''] else []) @ [''/li''] @ markup t"
  by (simp add: evidence_item_def has_code_def split: option.split)

lemma items_markup:
  "markup (concat (map (evidence_item js) cs) @ t)
    = concat (map (\<lambda>code. [''li''] @ (if code then [''code'', ''/code''] else []) @ [''/li'']) (map (has_code js) cs)) @ markup t"
  by (induction cs) (simp_all add: item_markup)

lemma body_markup:
  "markup (build_html_body js a)
    = body_tags (pl_route a \<noteq> []) (pl_dongle a \<noteq> []) (map (has_code js) (pl_evidence a)) (link_tags (pl_url a))"
  unfolding build_html_body_def body_tags_def link_tags_def dquote_def
  by (simp add: items_markup takeWhile_plain)

section \<open>The order of the calls\<close>

lemma run_script_prefix:
  "run_script fails cs = (calls, ok) \<Longrightarrow>
     (\<exists>more. cs = calls @ more) \<and> (ok \<longleftrightarrow> calls = cs \<and> (\<forall>y \<in> set cs. y \<noteq> SmtpFail \<and> \<not> fails y))
     \<and> (\<forall>y \<in> set (butlast calls). y \<noteq> SmtpFail \<and> \<not> fails y)"
proof (induction cs arbitrary: calls ok)
  case (Cons c cs)
  show ?case
  proof (cases "c = SmtpFail \<or> fails c")
    case True
    then show ?thesis using Cons.prems by auto
  next
    case False
    then obtain calls' where r: "run_script fails cs = (calls', ok)" and calls: "calls = c # calls'"
      using Cons.prems by (auto split: prod.splits)
    from Cons.IH [OF r] False show ?thesis unfolding calls by auto
  qed
qed simp

definition secret_call :: "smtp_call \<Rightarrow> bool" where
  "secret_call x \<longleftrightarrow> (case x of SmtpAuth _ _ \<Rightarrow> True | PutData _ \<Rightarrow> True | _ \<Rightarrow> False)"

definition tls_call :: "email_cfg \<Rightarrow> smtp_call option" where
  "tls_call c = (if equal_fold (ec_tls c) ''starttls'' then Some StartTls else if go_lower (ec_tls c) = ''implicit'' then Some TlsClient else None)"

lemma script_shape:
  assumes "tls_call c = Some y" and "pl_plate a \<noteq> []"
  shows "\<exists>pre post. smtp_script js c a = pre @ y # post \<and> (\<forall>x \<in> set pre. \<not> secret_call x)"
proof (cases "equal_fold (ec_tls c) ''starttls''")
  case True
  then have y: "y = StartTls" using assms by (simp add: tls_call_def)
  let ?pre = "[Dial (ec_host c) (ec_port c)] @ (if go_lower (ec_tls c) = ''implicit'' then [TlsClient] else []) @ [NewClient, AdvertisesStartTls]"
  have "\<exists>post. smtp_script js c a = ?pre @ StartTls # post" using assms(2) True by (simp add: smtp_script_def)
  moreover have "\<forall>x \<in> set ?pre. \<not> secret_call x" by (simp add: secret_call_def)
  ultimately show ?thesis unfolding y by blast
next
  case no: False
  then have y: "y = TlsClient" "go_lower (ec_tls c) = ''implicit''" using assms by (auto simp: tls_call_def split: if_splits)
  let ?pre = "[Dial (ec_host c) (ec_port c)]"
  have "\<exists>post. smtp_script js c a = ?pre @ TlsClient # post" using assms(2) no y by (simp add: smtp_script_def)
  moreover have "\<forall>x \<in> set ?pre. \<not> secret_call x" by (simp add: secret_call_def)
  ultimately show ?thesis unfolding y by blast
qed

text \<open>
  The text part is not protected: a plate text with the closing delimiter of the message on a line of
  its own ends the message there, before the HTML part.
\<close>

lemma split_lines: "text_lines (x @ CHR 0x0A # y) = text_lines x @ text_lines y"
proof -
  have "split_on c (x @ c # y) = split_on c x @ split_on c y" for c
    by (induction x) (auto split: list.splits)
  then show ?thesis by (simp add: text_lines_def)
qed

lemma plate_ends_message:
  assumes "pl_plate a = p @ crlf @ ''--'' @ mime_boundary @ ''--'' @ crlf @ q"
  shows "''--'' @ mime_boundary @ ''--'' \<in> set (text_lines (build_text_body js a))"
proof -
  let ?before = "''ALPR alert'' @ nl @ ''Severity: '' @ show_int (pl_severity a) @ nl @ ''Plate: ''"
  have "\<exists>after. build_text_body js a = ?before @ pl_plate a @ after"
    unfolding build_text_body_def append_assoc by (rule exI) (rule refl)
  then obtain after where body: "build_text_body js a = ?before @ pl_plate a @ after" by blast
  have "build_text_body js a = ((?before @ p) @ [CHR 0x0D]) @ CHR 0x0A # (''--'' @ mime_boundary @ ''--'' @ [CHR 0x0D]) @ CHR 0x0A # (q @ after)"
    unfolding body assms crlf_def by (simp only: append_assoc append_Cons append_Nil)
  moreover have "text_lines (''--'' @ mime_boundary @ ''--'' @ [CHR 0x0D]) = [''--'' @ mime_boundary @ ''--'']"
    by (simp add: text_lines_def mime_boundary_def strip_cr_def)
  ultimately show ?thesis by (simp only: split_lines) simp
qed

section \<open>Properties\<close>

text \<open>The header of a notification mail cannot be extended: whatever bytes the sender, the recipients
  and the plate text hold, a reader finds exactly the five header fields of the template, each on one
  line without carriage return, line feed or NUL.\<close>

theorem mail_header_fixed:
  "map (takeWhile (\<lambda>c. c \<noteq> CHR '':'')) (header_lines (build_email_message js sender rcpts a))
     = [''From'', ''To'', ''Subject'', ''MIME-Version'', ''Content-Type'']
   \<and> list_all one_line (header_lines (build_email_message js sender rcpts a))"
  using mail_headers_one_line [of sender rcpts a] unfolding message_headers
  by (simp add: mail_headers_def list_all_def build_subject_def)

text \<open>The HTML part of a mail has the tags of the template and no others: they depend on which fields
  are present and not on the plate, the route, the device or the evidence, whose text is escaped and
  displays as itself; the link stays inside its quotes.\<close>

theorem mail_markup_fixed:
  "markup (build_html_body js a)
     = body_tags (pl_route a \<noteq> []) (pl_dongle a \<noteq> []) (map (has_code js) (pl_evidence a)) (link_tags (pl_url a))
   \<and> CHR 0x22 \<notin> set (html_escape s) \<and> html_unescape (html_escape s) = s"
  using escaped_chars [of "CHR 0x22" s] by (auto simp: body_markup unescape_escape)

text \<open>C28: In the modes starttls and implicit, credentials and the message are sent only after the TLS
  step has succeeded; a mail that is reported as sent went through its whole script, so it had a plate
  text and every recipient was accepted.\<close>

theorem mail_secrets_protected:
  assumes "email_send js fails c a = (calls, ok)"
  shows "(\<forall>y pre x post. tls_call c = Some y \<and> secret_call x \<and> calls = pre @ x # post \<longrightarrow> y \<in> set pre \<and> \<not> fails y)
    \<and> (ok \<longrightarrow> pl_plate a \<noteq> [] \<and> split_recipients (ec_to c) \<noteq> []
         \<and> set (map RcptTo (split_recipients (ec_to c))) \<subseteq> set calls
         \<and> PutData (build_email_message js (ec_from c) (split_recipients (ec_to c)) a) \<in> set calls
         \<and> (\<forall>y \<in> set calls. \<not> fails y))"
proof -
  note r = run_script_prefix [OF assms [unfolded email_send_def]]
  have "y \<in> set pre \<and> \<not> fails y" if tls: "tls_call c = Some y" and "secret_call x" and calls: "calls = pre @ x # post" for y pre x post
  proof -
    from r obtain more where script: "smtp_script js c a = pre @ x # post @ more" using calls by auto
    moreover have "pl_plate a \<noteq> []"
      using \<open>secret_call x\<close> script by (cases pre) (auto simp: smtp_script_def secret_call_def append_eq_Cons_conv split: if_splits)
    ultimately obtain p q where "pre @ x # post @ more = p @ y # q" and p: "\<forall>z \<in> set p. \<not> secret_call z"
      using script_shape [OF tls] script by metis
    moreover have "x \<noteq> y" using tls \<open>secret_call x\<close> by (auto simp: tls_call_def secret_call_def split: if_splits)
    ultimately have "y \<in> set pre" using \<open>secret_call x\<close>
      by (auto simp: append_eq_append_conv2 append_eq_Cons_conv Cons_eq_append_conv)
    then show ?thesis using r calls by (simp add: butlast_append)
  qed
  moreover have "pl_plate a \<noteq> [] \<and> split_recipients (ec_to c) \<noteq> []
         \<and> set (map RcptTo (split_recipients (ec_to c))) \<subseteq> set calls
         \<and> PutData (build_email_message js (ec_from c) (split_recipients (ec_to c)) a) \<in> set calls
         \<and> (\<forall>y \<in> set calls. \<not> fails y)" if ok
  proof -
    from r that have calls: "calls = smtp_script js c a" and fine: "\<forall>y \<in> set calls. y \<noteq> SmtpFail \<and> \<not> fails y" by auto
    then have "SmtpFail \<notin> set (smtp_script js c a)" by blast
    then show ?thesis using fine unfolding calls by (auto simp: smtp_script_def split: if_splits)
  qed
  ultimately show ?thesis by blast
qed

definition demo_mail :: email_cfg where
  "demo_mail = \<lparr>ec_host = ''relay'', ec_port = 587, ec_user = ''u'', ec_password = ''p'', ec_from = ''u'', ec_to = ''a, b'', ec_tls = ''starttls''\<rparr>"

text \<open>A relay whose STARTTLS fails sees neither the password nor the mail.\<close>

theorem mail_secrets_protected_witness:
  "\<not> list_ex secret_call (fst (email_send (\<lambda>_. None) (\<lambda>x. x = StartTls) demo_mail
     \<lparr>pl_hash64 = [], pl_plate = ''ABC'', pl_severity = 3, pl_evidence = [], pl_route = [], pl_dongle = [], pl_url = []\<rparr>))"
proof -
  obtain calls ok where run: "email_send (\<lambda>_. None) (\<lambda>x. x = StartTls) demo_mail
     \<lparr>pl_hash64 = [], pl_plate = ''ABC'', pl_severity = 3, pl_evidence = [], pl_route = [], pl_dongle = [], pl_url = []\<rparr> = (calls, ok)"
    by fastforce
  have tls: "tls_call demo_mail = Some StartTls" by (simp add: tls_call_def demo_mail_def equal_fold_def)
  have False if "x \<in> set calls" and "secret_call x" for x
  proof -
    from that(1) have "\<exists>pre post. calls = pre @ x # post" by (rule split_list)
    with mail_secrets_protected [OF run] tls that(2) show False by blast
  qed
  then show ?thesis unfolding run by (auto simp: list_ex_iff)
qed

end
