(* ===== verification/Corrections.thy ===== *)
theory Corrections imports WatchlistApi Aggregator Auth begin

text \<open>
  Manual corrections of plates, \<open>internal/api/alpr_corrections.go\<close>: rewriting the text of one
  detection and merging two plates, over the detections and encounters of the aggregator and the
  watchlist, with their statements in \<open>internal/db\<close>. A transaction works on a copy, which replaces
  the world when the commit succeeds. What other parties do between the reads before a transaction
  and its begin is the argument \<open>others\<close>. \<open>hash\<close> and \<open>encrypt\<close> stand for the keyring.
\<close>

section \<open>State\<close>

text \<open>
  The columns of a detection the aggregator does not read, by identifier: the ciphertext and
  whether an operator corrected it. The queue feeds the aggregator with routes.
\<close>

record corr_world =
  kw_agg :: agg_db
  kw_texts :: "int \<Rightarrow> string option \<times> bool"
  kw_srv :: watch_srv
  kw_queue :: "(nat \<times> (string \<times> string) list) option"

datatype corr_query =
    KqDetection | KqDetRoutes string | KqEncRoutes string | KqWatch string | KqHint
  | KqBegin | KqUpdate | KqBulkDet | KqBulkEnc | KqApply | KqRename | KqRemove | KqAudit | KqCommit

datatype corr_resp =
    KErr nat string
  | KDisabled string
  | KForbidden
  | KEdited int "string option"
  | KMerged int

definition kw_watch :: "corr_world \<Rightarrow> watch_db" where
  "kw_watch w = aw_watch (ws_world (kw_srv w))"

definition set_kw_watch :: "watch_db \<Rightarrow> corr_world \<Rightarrow> corr_world" where
  "set_kw_watch d w = w\<lparr>kw_srv := set_watch d (kw_srv w)\<rparr>"

section \<open>Statements\<close>

definition get_detection :: "int \<Rightarrow> corr_world \<Rightarrow> detection option" where
  "get_detection i w = find (\<lambda>x. det_id x = i) (g_detections (kw_agg w))"

text \<open>The CHECK on the length of a hash; \<open>None\<close> is its violation. The other columns change with the hash.\<close>

definition update_detection_plate :: "int \<Rightarrow> string \<Rightarrow> string \<Rightarrow> corr_world \<Rightarrow> corr_world option" where
  "update_detection_plate i cipher h w =
     (if get_detection i w \<noteq> None \<and> length h \<noteq> 32 then None
      else Some (w\<lparr>kw_agg := (kw_agg w)\<lparr>g_detections := map (\<lambda>x. if det_id x = i then x\<lparr>det_hash := h\<rparr> else x) (g_detections (kw_agg w))\<rparr>,
                   kw_texts := (if get_detection i w = None then kw_texts w else (kw_texts w)(i := (Some cipher, True)))\<rparr>))"

definition bulk_update_detections :: "string \<Rightarrow> string \<Rightarrow> corr_world \<Rightarrow> corr_world" where
  "bulk_update_detections new old w =
     w\<lparr>kw_agg := (kw_agg w)\<lparr>g_detections := map (\<lambda>x. if det_hash x = old then x\<lparr>det_hash := new\<rparr> else x) (g_detections (kw_agg w))\<rparr>\<rparr>"

definition rehash_row :: "string \<Rightarrow> string \<Rightarrow> enc_row \<Rightarrow> enc_row" where
  "rehash_row new old r = (if en_hash (er_enc r) = old then r\<lparr>er_enc := (er_enc r)\<lparr>en_hash := new\<rparr>\<rparr> else r)"

definition row_key :: "enc_row \<Rightarrow> string \<times> string \<times> gotime \<times> string" where
  "row_key r = (er_dongle r, er_route r, enc_key (er_enc r))"

text \<open>\<open>UNIQUE (dongle_id, route, plate_hash, first_seen_ts)\<close>; \<open>None\<close> is its violation.\<close>

definition bulk_update_encounters :: "string \<Rightarrow> string \<Rightarrow> corr_world \<Rightarrow> corr_world option" where
  "bulk_update_encounters new old w =
     (let rows = map (rehash_row new old) (g_rows (kw_agg w)) in
      if distinct (map row_key rows) then Some (w\<lparr>kw_agg := (kw_agg w)\<lparr>g_rows := rows\<rparr>\<rparr>) else None)"

text \<open>The database's order of the rows is not kept; it fixes the order of the queue only.\<close>

definition routes_of_detections :: "string \<Rightarrow> corr_world \<Rightarrow> (string \<times> string) list" where
  "routes_of_detections h w = remdups (map (\<lambda>x. (det_dongle x, det_route x)) (filter (\<lambda>x. det_hash x = h) (g_detections (kw_agg w))))"

definition routes_of_encounters :: "string \<Rightarrow> corr_world \<Rightarrow> (string \<times> string) list" where
  "routes_of_encounters h w = remdups (map (\<lambda>r. (er_dongle r, er_route r)) (filter (\<lambda>r. en_hash (er_enc r) = h) (g_rows (kw_agg w))))"

text \<open>The unique index on \<open>plate_hash\<close>; \<open>None\<close> is its violation.\<close>

definition rename_watchlist_hash :: "gotime \<Rightarrow> string \<Rightarrow> string \<Rightarrow> watch_db \<Rightarrow> watch_db option" where
  "rename_watchlist_hash dbnow new old d =
     (case look_watch d old of
        None \<Rightarrow> Some d
      | Some r \<Rightarrow>
          if look_watch d new \<noteq> None then None
          else Some (put_watch new (r\<lparr>wr_updated := dbnow\<rparr>) (remove_row old d)))"

record merged_fields =
  mf_severity :: "int option"
  mf_first :: "gotime option"
  mf_last :: "gotime option"
  mf_acked :: "gotime option"
  mf_notes :: "string option"

definition apply_merged_row :: "gotime \<Rightarrow> string \<Rightarrow> merged_fields \<Rightarrow> watch_db \<Rightarrow> watch_db option" where
  "apply_merged_row dbnow h m d =
     (if look_watch d h \<noteq> None \<and> \<not> severity_check (mf_severity m) then None
      else Some (snd (update_watch h (\<lambda>r. r\<lparr>wr_severity := mf_severity m, wr_first := mf_first m, wr_last := mf_last m,
             wr_acked := mf_acked m, wr_notes := mf_notes m, wr_updated := dbnow\<rparr>) d)))"

section \<open>Merging two watchlist rows\<close>

definition earliest_ts :: "gotime option \<Rightarrow> gotime option \<Rightarrow> gotime option" where
  "earliest_ts a b = (case (a, b) of (Some x, Some y) \<Rightarrow> if x < y then a else b | (Some _, None) \<Rightarrow> a | (None, _) \<Rightarrow> b)"

definition latest_ts :: "gotime option \<Rightarrow> gotime option \<Rightarrow> gotime option" where
  "latest_ts a b = (case (a, b) of (Some x, Some y) \<Rightarrow> if y < x then a else b | (Some _, None) \<Rightarrow> a | (None, _) \<Rightarrow> b)"

definition merge_watchlist_fields :: "watch_row \<Rightarrow> watch_row \<Rightarrow> merged_fields" where
  "merge_watchlist_fields f t =
     (let fs = (case wr_severity f of None \<Rightarrow> 0 | Some s \<Rightarrow> s); ts = (case wr_severity t of None \<Rightarrow> 0 | Some s \<Rightarrow> s);
          m = (if fs < ts then ts else fs) in
      \<lparr>mf_severity = (if 0 < m \<or> wr_severity f \<noteq> None \<or> wr_severity t \<noteq> None then Some m else None),
       mf_first = earliest_ts (wr_first f) (wr_first t), mf_last = latest_ts (wr_last f) (wr_last t),
       mf_acked = (if wr_acked f \<noteq> None \<and> wr_acked t \<noteq> None then latest_ts (wr_acked f) (wr_acked t) else None),
       mf_notes = (case (wr_notes f, wr_notes t) of (Some x, Some y) \<Rightarrow> Some (y @ '' | '' @ x) | (Some x, None) \<Rightarrow> Some x | (None, y) \<Rightarrow> y)\<rparr>)"

definition merge_path_label :: "bool \<Rightarrow> bool \<Rightarrow> string" where
  "merge_path_label has_from has_to =
     (if has_from \<and> has_to then ''merged'' else if has_from then ''renamed'' else if has_to then ''to_only'' else ''neither'')"

section \<open>Helpers of the handlers\<close>

text \<open>\<open>runInTx\<close>: the body works on a copy and fails with \<open>None\<close>.\<close>

definition run_in_tx :: "(corr_query \<Rightarrow> bool) \<Rightarrow> (corr_world \<Rightarrow> corr_world option) \<Rightarrow> corr_world \<Rightarrow> corr_world option" where
  "run_in_tx flt body w =
     (if flt KqBegin then None
      else (case body w of None \<Rightarrow> None | Some w' \<Rightarrow> if flt KqCommit then None else Some w'))"

definition write_audit_tx :: "(corr_query \<Rightarrow> bool) \<Rightarrow> string option \<Rightarrow> string \<Rightarrow> (string \<times> audit_value) list \<Rightarrow> corr_world \<Rightarrow> corr_world option" where
  "write_audit_tx flt actor action payload w =
     (if flt KqAudit then None
      else Some (w\<lparr>kw_srv := (kw_srv w)\<lparr>ws_audit := ws_audit (kw_srv w) @ [\<lparr>au_action = action, au_actor = actor, au_payload = payload\<rparr>]\<rparr>\<rparr>))"

definition det_routes :: "(corr_query \<Rightarrow> bool) \<Rightarrow> string \<Rightarrow> corr_world \<Rightarrow> (string \<times> string) list" where
  "det_routes flt h w = (if flt (KqDetRoutes h) then [] else routes_of_detections h w)"

definition enc_routes :: "(corr_query \<Rightarrow> bool) \<Rightarrow> string \<Rightarrow> corr_world \<Rightarrow> (string \<times> string) list" where
  "enc_routes flt h w = (if flt (KqEncRoutes h) then [] else routes_of_encounters h w)"

text \<open>The first occurrences, in order.\<close>

fun add_new :: "'a list \<Rightarrow> 'a list \<Rightarrow> 'a list" where
  "add_new out [] = out"
| "add_new out (x # xs) = add_new (if x \<in> set out then out else out @ [x]) xs"

definition collect_affected_routes :: "(corr_query \<Rightarrow> bool) \<Rightarrow> string \<Rightarrow> string \<Rightarrow> string \<Rightarrow> string \<Rightarrow> corr_world \<Rightarrow> (string \<times> string) list" where
  "collect_affected_routes flt old new dongle route w =
     add_new [] ((dongle, route) # det_routes flt new w @ (if old \<noteq> new then det_routes flt old w @ enc_routes flt old w else []))"

definition collect_affected_for_merge :: "(corr_query \<Rightarrow> bool) \<Rightarrow> string \<Rightarrow> string \<Rightarrow> corr_world \<Rightarrow> (string \<times> string) list" where
  "collect_affected_for_merge flt from_hash to_hash w =
     add_new [] (det_routes flt from_hash w @ enc_routes flt from_hash w @ det_routes flt to_hash w @ enc_routes flt to_hash w)"

text \<open>A full queue, or a client that has gone, drops the route.\<close>

definition enqueue_retrigger :: "(string \<times> string \<Rightarrow> bool) \<Rightarrow> string \<times> string \<Rightarrow> corr_world \<Rightarrow> corr_world" where
  "enqueue_retrigger gone r w =
     (case kw_queue w of
        None \<Rightarrow> w
      | Some (cap, q) \<Rightarrow> if \<not> gone r \<and> length q < cap then w\<lparr>kw_queue := Some (cap, q @ [r])\<rparr> else w)"

section \<open>The handlers\<close>

text \<open>The request: the connection's authentication, the acting user, the clock, and for which routes the client has gone when they are queued.\<close>

record corr_call =
  kc_faults :: "corr_query \<Rightarrow> bool"
  kc_auth :: auth_ctx
  kc_actor :: "string option"
  kc_dbnow :: gotime
  kc_gone :: "string \<times> string \<Rightarrow> bool"

definition edit_body :: "corr_call \<Rightarrow> int \<Rightarrow> detection \<Rightarrow> string \<Rightarrow> string \<Rightarrow> corr_world \<Rightarrow> corr_world option" where
  "edit_body v i det h cipher w =
     (if kc_faults v KqUpdate then None
      else
        (case update_detection_plate i cipher h w of
           None \<Rightarrow> None
         | Some w1 \<Rightarrow>
             write_audit_tx (kc_faults v) (kc_actor v) ''plate_edit''
               [(''detection_id'', AvInt i), (''dongle_id'', AvText (det_dongle det)), (''route'', AvText (det_route det)),
                (''before_value'', AvText (hash_b64 (det_hash det))), (''after_value'', AvText (hash_b64 h)),
                (''ocr_corrected'', AvBool True), (''hash_unchanged'', AvBool (det_hash det = h))] w1))"

definition edit_detection ::
  "(string \<Rightarrow> string) \<Rightarrow> (string \<Rightarrow> string option) \<Rightarrow> corr_call \<Rightarrow> string \<Rightarrow> string option \<Rightarrow> (corr_world \<Rightarrow> corr_world)
     \<Rightarrow> corr_world \<Rightarrow> corr_resp \<times> corr_world" where
  "edit_detection hash encrypt v id_param body others w =
     (if \<not> ws_keys (kw_srv w) then (KDisabled ''Encryption keyring is not configured.'', w)
      else
        (case parse_int 64 id_param of
           None \<Rightarrow> (KErr 400 ''id must be a positive integer'', w)
         | Some i \<Rightarrow>
             if i \<le> 0 then (KErr 400 ''id must be a positive integer'', w)
             else
               (case body of
                  None \<Rightarrow> (KErr 400 ''failed to parse request body'', w)
                | Some plate \<Rightarrow>
                    if normalize_plate plate = [] then (KErr 400 ''plate text is empty after normalization'', w)
                    else if kc_faults v KqDetection then (KErr 500 ''failed to load detection'', w)
                    else
                      (case get_detection i w of
                         None \<Rightarrow> (KErr 404 ''detection not found'', w)
                       | Some det \<Rightarrow>
                           if \<not> check_dongle_access (kc_auth v) (det_dongle det) then (KForbidden, w)
                           else
                             (let h = hash plate in
                              case encrypt plate of
                                None \<Rightarrow> (KErr 500 ''failed to encrypt plate'', w)
                              | Some cipher \<Rightarrow>
                                  (let w0 = others w in
                                   case run_in_tx (kc_faults v) (edit_body v i det h cipher) w0 of
                                     None \<Rightarrow> (KErr 500 ''failed to edit detection'', w0)
                                   | Some w1 \<Rightarrow>
                                       (let aff = collect_affected_routes (kc_faults v) (det_hash det) h (det_dongle det) (det_route det) w1;
                                            w2 = fold (enqueue_retrigger (kc_gone v)) aff w1;
                                            hint = (if det_hash det \<noteq> h \<and> \<not> kc_faults v KqHint \<and> look_watch (kw_watch w2) h \<noteq> None
                                                    then Some (hash_b64 h) else None) in
                                        (KEdited (int (length aff)) hint, w2))))))))"

definition reconcile_watchlist ::
  "corr_call \<Rightarrow> string \<Rightarrow> string \<Rightarrow> watch_row option \<Rightarrow> watch_row option \<Rightarrow> corr_world \<Rightarrow> corr_world option" where
  "reconcile_watchlist v from_hash to_hash from_row to_row w =
     (case (from_row, to_row) of
        (Some f, Some t) \<Rightarrow>
          if kc_faults v KqApply then None
          else
            (case apply_merged_row (kc_dbnow v) to_hash (merge_watchlist_fields f t) (kw_watch w) of
               None \<Rightarrow> None
             | Some d \<Rightarrow> if kc_faults v KqRemove then None else Some (set_kw_watch (snd (remove_watchlist from_hash d)) w))
      | (Some f, None) \<Rightarrow>
          if kc_faults v KqRename then None
          else map_option (\<lambda>d. set_kw_watch d w) (rename_watchlist_hash (kc_dbnow v) to_hash from_hash (kw_watch w))
      | (None, _) \<Rightarrow> Some w)"

definition merge_body ::
  "corr_call \<Rightarrow> string \<Rightarrow> string \<Rightarrow> watch_row option \<Rightarrow> watch_row option \<Rightarrow> nat \<Rightarrow> corr_world \<Rightarrow> corr_world option" where
  "merge_body v from_hash to_hash from_row to_row n w =
     (if kc_faults v KqBulkDet then None
      else
        (let w1 = bulk_update_detections to_hash from_hash w in
         if kc_faults v KqBulkEnc then None
         else
           (case bulk_update_encounters to_hash from_hash w1 of
              None \<Rightarrow> None
            | Some w2 \<Rightarrow>
                (case reconcile_watchlist v from_hash to_hash from_row to_row w2 of
                   None \<Rightarrow> None
                 | Some w3 \<Rightarrow>
                     write_audit_tx (kc_faults v) (kc_actor v) ''plate_merge''
                       [(''from_hash'', AvText (hash_b64 from_hash)), (''to_hash'', AvText (hash_b64 to_hash)),
                        (''affected_routes'', AvInt (int n)),
                        (''watchlist_path'', AvText (merge_path_label (from_row \<noteq> None) (to_row \<noteq> None)))] w3))))"

text \<open>A failed lookup comes after the test for plates that do not exist, which it never passes.\<close>

definition merge_plates ::
  "corr_call \<Rightarrow> (string \<times> string) option \<Rightarrow> (corr_world \<Rightarrow> corr_world) \<Rightarrow> corr_world \<Rightarrow> corr_resp \<times> corr_world" where
  "merge_plates v body others w =
     (case body of
        None \<Rightarrow> (KErr 400 ''failed to parse request body'', w)
      | Some (from64, to64) \<Rightarrow>
          (case decode_plate_hash from64 of
             None \<Rightarrow> (KErr 400 ''from_hash_b64 is malformed (expected base64-url)'', w)
           | Some f \<Rightarrow>
               (case decode_plate_hash to64 of
                  None \<Rightarrow> (KErr 400 ''to_hash_b64 is malformed (expected base64-url)'', w)
                | Some t \<Rightarrow>
                    if length f \<noteq> 32 \<or> length t \<noteq> 32 then (KErr 400 ''plate hashes must be 32 bytes (SHA-256)'', w)
                    else if f = t then (KErr 400 ''from_hash_b64 and to_hash_b64 must differ'', w)
                    else
                      (let aff = collect_affected_for_merge (kc_faults v) f t w;
                           fr = look_watch (kw_watch w) f; tr = look_watch (kw_watch w) t in
                       if aff = [] \<and> (\<not> kc_faults v (KqWatch f) \<and> fr = None) \<and> (\<not> kc_faults v (KqWatch t) \<and> tr = None)
                       then (KErr 404 ''neither plate hash exists'', w)
                       else if kc_faults v (KqWatch f) then (KErr 500 ''failed to look up source watchlist row'', w)
                       else if kc_faults v (KqWatch t) then (KErr 500 ''failed to look up destination watchlist row'', w)
                       else
                         (let w0 = others w in
                          case run_in_tx (kc_faults v) (merge_body v f t fr tr (length aff)) w0 of
                            None \<Rightarrow> (KErr 500 ''failed to merge plates'', w0)
                          | Some w1 \<Rightarrow> (KMerged (int (length aff)), fold (enqueue_retrigger (kc_gone v)) aff w1))))))"

text \<open>Both endpoints stand behind \<open>requireAlprEnabled\<close>.\<close>

datatype corr_op = CorrEdit string "string option" | CorrMerge "(string \<times> string) option"

definition corrections_call ::
  "(string \<Rightarrow> string) \<Rightarrow> (string \<Rightarrow> string option) \<Rightarrow> (setting_query \<Rightarrow> bool) \<Rightarrow> corr_call \<Rightarrow> corr_op \<Rightarrow> (corr_world \<Rightarrow> corr_world)
     \<Rightarrow> corr_world \<Rightarrow> corr_resp \<times> corr_world" where
  "corrections_call hash encrypt sf v op others w =
     (case require_alpr_enabled sf (kw_srv w) of
        Some (WDisabled t) \<Rightarrow> (KDisabled t, w)
      | Some _ \<Rightarrow> (KErr 500 ''failed to read alpr_enabled flag'', w)
      | None \<Rightarrow>
          (case op of
             CorrEdit i body \<Rightarrow> edit_detection hash encrypt v i body others w
           | CorrMerge body \<Rightarrow> merge_plates v body others w))"

section \<open>Lemmas on the helpers\<close>

lemma add_new_set: "set (add_new out xs) = set out \<union> set xs"
  by (induction out xs rule: add_new.induct) auto

lemma add_new_distinct: "distinct out \<Longrightarrow> distinct (add_new out xs)"
  by (induction out xs rule: add_new.induct) auto

lemma enqueue_frame [simp]:
  "kw_agg (fold (enqueue_retrigger g) rs w) = kw_agg w" "kw_srv (fold (enqueue_retrigger g) rs w) = kw_srv w"
  "kw_texts (fold (enqueue_retrigger g) rs w) = kw_texts w" "kw_watch (fold (enqueue_retrigger g) rs w) = kw_watch w"
  by (induction rs arbitrary: w) (simp_all add: enqueue_retrigger_def kw_watch_def split: option.splits)

lemma enqueue_all:
  assumes "kw_queue w = Some (cap, q)" and "length q + length rs \<le> cap" and "\<forall>r \<in> set rs. \<not> g r"
  shows "kw_queue (fold (enqueue_retrigger g) rs w) = Some (cap, q @ rs)"
  using assms by (induction rs arbitrary: w q) (simp_all add: enqueue_retrigger_def)

lemma write_audit_tx_frame:
  "write_audit_tx flt actor action payload w = Some w' \<Longrightarrow>
     kw_agg w' = kw_agg w \<and> kw_texts w' = kw_texts w \<and> kw_queue w' = kw_queue w \<and> kw_watch w' = kw_watch w
     \<and> ws_audit (kw_srv w') = ws_audit (kw_srv w) @ [\<lparr>au_action = action, au_actor = actor, au_payload = payload\<rparr>]"
  by (auto simp: write_audit_tx_def kw_watch_def split: if_splits)

lemma run_in_tx_ok: "run_in_tx flt body w = Some w' \<Longrightarrow> body w = Some w'"
  by (auto simp: run_in_tx_def split: if_splits option.splits)

lemma set_kw_watch_frame [simp]:
  "kw_watch (set_kw_watch d w) = d" "kw_agg (set_kw_watch d w) = kw_agg w" "kw_texts (set_kw_watch d w) = kw_texts w"
  "kw_queue (set_kw_watch d w) = kw_queue w" "ws_audit (kw_srv (set_kw_watch d w)) = ws_audit (kw_srv w)"
  by (simp_all add: set_kw_watch_def kw_watch_def set_watch_def)

section \<open>What a merge means\<close>

definition merged_row :: "gotime \<Rightarrow> watch_row option \<Rightarrow> watch_row option \<Rightarrow> watch_row option" where
  "merged_row now f t =
     (case (f, t) of
        (None, _) \<Rightarrow> t
      | (Some r, None) \<Rightarrow> Some (r\<lparr>wr_updated := now\<rparr>)
      | (Some r, Some s) \<Rightarrow>
          (let m = merge_watchlist_fields r s in
           Some (s\<lparr>wr_severity := mf_severity m, wr_first := mf_first m, wr_last := mf_last m, wr_acked := mf_acked m,
                   wr_notes := mf_notes m, wr_updated := now\<rparr>)))"

definition rehash_det :: "string \<Rightarrow> string \<Rightarrow> detection \<Rightarrow> detection" where
  "rehash_det new old x = (if det_hash x = old then x\<lparr>det_hash := new\<rparr> else x)"

text \<open>The alert of a plate that was seen as two.\<close>

fun join_state :: "plate_state \<Rightarrow> plate_state \<Rightarrow> plate_state" where
  "join_state (Alert k a) (Alert l b) = Alert (max k l) (a \<and> b)"
| "join_state Unknown p = p"
| "join_state p Unknown = p"
| "join_state _ p = p"

definition same_kind :: "watch_row option \<Rightarrow> watch_row option \<Rightarrow> bool" where
  "same_kind f t \<longleftrightarrow> (case (f, t) of (Some r, Some s) \<Rightarrow> wr_kind r = wr_kind s | _ \<Rightarrow> True)"

lemma merge_fields_severity:
  "mf_severity (merge_watchlist_fields f t) =
     (case (wr_severity f, wr_severity t) of (Some x, Some y) \<Rightarrow> Some (max x y) | (Some x, None) \<Rightarrow> Some (max x 0)
        | (None, Some y) \<Rightarrow> Some (max 0 y) | (None, None) \<Rightarrow> None)"
  by (auto simp: merge_watchlist_fields_def Let_def max_def split: option.split)

lemma merge_fields_times:
  "mf_first (merge_watchlist_fields f t) = None \<longleftrightarrow> wr_first f = None \<and> wr_first t = None"
  "mf_last (merge_watchlist_fields f t) = None \<longleftrightarrow> wr_last f = None \<and> wr_last t = None"
  "mf_acked (merge_watchlist_fields f t) = None \<longleftrightarrow> wr_acked f = None \<or> wr_acked t = None"
  by (auto simp: merge_watchlist_fields_def Let_def earliest_ts_def latest_ts_def split: option.split)

lemmas merge_fields = merge_fields_severity merge_fields_times

text \<open>Two rows of one kind.\<close>

lemma merged_rows:
  assumes "row_wf a" and "row_wf b" and "wr_kind a = wr_kind b" and "merged_row now (Some a) (Some b) = Some r"
  shows "plate_state_of (Some r) = join_state (plate_state_of (Some a)) (plate_state_of (Some b)) \<and> row_wf r"
proof -
  define m where "m = merge_watchlist_fields a b"
  have r: "r = b\<lparr>wr_severity := mf_severity m, wr_first := mf_first m, wr_last := mf_last m, wr_acked := mf_acked m,
                   wr_notes := mf_notes m, wr_updated := now\<rparr>"
    using assms(4) by (simp add: merged_row_def Let_def m_def)
  note f = merge_fields [of a b, folded m_def]
  show ?thesis
  proof (cases "wr_kind b")
    case Alerted
    then obtain x y where sev: "wr_severity a = Some x" "wr_severity b = Some y" and x: "2 \<le> x" "x \<le> 5" and y: "2 \<le> y" "y \<le> 5"
      and ts: "wr_first a \<noteq> None" "wr_last a \<noteq> None" "wr_first b \<noteq> None" "wr_last b \<noteq> None"
      using assms(1-3) by (auto simp: row_wf_def)
    have k: "wr_kind r = Alerted" and s: "wr_severity r = Some (max x y)" and t: "wr_first r \<noteq> None" "wr_last r \<noteq> None"
      and a: "wr_acked r \<noteq> None \<longleftrightarrow> wr_acked a \<noteq> None \<and> wr_acked b \<noteq> None"
      using Alerted sev ts f(2-4) by (simp_all add: r f(1))
    have "row_wf r" using k s t x y by (simp add: row_wf_def)
    moreover have "plate_state_of (Some r) = join_state (plate_state_of (Some a)) (plate_state_of (Some b))"
      using Alerted assms(3) k s a sev by (simp add: plate_state_of_def)
    ultimately show ?thesis by simp
  qed (use assms(1-3) f in \<open>auto simp: r row_wf_def plate_state_of_def f(1)\<close>)
qed

lemma wf_updated [simp]: "row_wf (r\<lparr>wr_updated := now\<rparr>) = row_wf r"
  by (simp add: row_wf_def split: watch_kind.split)

lemma state_updated [simp]: "plate_state_of (Some (r\<lparr>wr_updated := now\<rparr>)) = plate_state_of (Some r)"
  by (simp add: plate_state_of_def split: watch_kind.split)

lemma state_none [simp]: "plate_state_of None = Unknown"
  by (simp add: plate_state_of_def)

lemma join_unknown [simp]: "join_state Unknown p = p" "join_state p Unknown = p"
  by (cases p; simp)+

lemma merged_state:
  assumes "same_kind f t" and "\<And>r. f = Some r \<Longrightarrow> row_wf r" and "\<And>r. t = Some r \<Longrightarrow> row_wf r"
  shows "plate_state_of (merged_row now f t) = join_state (plate_state_of f) (plate_state_of t)
    \<and> (\<forall>r. merged_row now f t = Some r \<longrightarrow> row_wf r)"
proof (cases f; cases t)
  fix a b assume f: "f = Some a" and t: "t = Some b"
  then obtain r where "merged_row now (Some a) (Some b) = Some r" by (simp add: merged_row_def Let_def)
  then show ?thesis using merged_rows [of a b now r] assms f t by (simp add: same_kind_def)
qed (use assms in \<open>auto simp: merged_row_def\<close>)

lemma look_rename:
  assumes "rename_watchlist_hash now t f d = Some d'" and "look_watch d f = Some r" and "f \<noteq> t"
  shows "look_watch d t = None" and "look_watch d' h = (if h = t then Some (r\<lparr>wr_updated := now\<rparr>) else if h = f then None else look_watch d h)"
  using assms by (auto simp: rename_watchlist_hash_def watch_look split: if_splits)

lemma look_apply:
  assumes "apply_merged_row now t m d = Some d'" and "look_watch d t = Some r"
  shows "look_watch d' h = (if h = t then Some (r\<lparr>wr_severity := mf_severity m, wr_first := mf_first m, wr_last := mf_last m,
             wr_acked := mf_acked m, wr_notes := mf_notes m, wr_updated := now\<rparr>) else look_watch d h)"
  using assms by (auto simp: apply_merged_row_def update_watch_def watch_look split: if_splits)

lemma look_remove: "look_watch (snd (remove_watchlist f d)) h = (if h = f then None else look_watch d h)"
  by (auto simp: remove_watchlist_def watch_look split: option.split)

lemma reconcile_look:
  assumes "reconcile_watchlist v f t fr tr w = Some w'" and "f \<noteq> t"
    and "look_watch (kw_watch w) f = fr" and "look_watch (kw_watch w) t = tr"
  shows "look_watch (kw_watch w') h = (if h = t then merged_row (kc_dbnow v) fr tr else if h = f then None else look_watch (kw_watch w) h)"
    and "kw_agg w' = kw_agg w \<and> kw_texts w' = kw_texts w \<and> kw_queue w' = kw_queue w \<and> ws_audit (kw_srv w') = ws_audit (kw_srv w)"
proof -
  show "look_watch (kw_watch w') h = (if h = t then merged_row (kc_dbnow v) fr tr else if h = f then None else look_watch (kw_watch w) h)"
  proof (cases fr; cases tr)
    fix a b assume r: "fr = Some a" "tr = Some b"
    with assms(1) obtain d where d: "apply_merged_row (kc_dbnow v) t (merge_watchlist_fields a b) (kw_watch w) = Some d"
      and w': "kw_watch w' = snd (remove_watchlist f d)"
      by (auto simp: reconcile_watchlist_def split: if_splits option.splits)
    have "look_watch (kw_watch w) t = Some b" using r assms(4) by simp
    from look_apply [OF d this, of h] show ?thesis using assms(2) r
      by (auto simp: w' look_remove merged_row_def Let_def)
  next
    fix a assume r: "fr = Some a" "tr = None"
    with assms(1) obtain d where d: "rename_watchlist_hash (kc_dbnow v) t f (kw_watch w) = Some d" and w': "kw_watch w' = d"
      by (auto simp: reconcile_watchlist_def split: if_splits)
    have "look_watch (kw_watch w) f = Some a" using r assms(3) by simp
    from look_rename(2) [OF d this assms(2)] show ?thesis using r by (simp add: w' merged_row_def)
  qed (use assms in \<open>auto simp: reconcile_watchlist_def merged_row_def\<close>)
  show "kw_agg w' = kw_agg w \<and> kw_texts w' = kw_texts w \<and> kw_queue w' = kw_queue w \<and> ws_audit (kw_srv w') = ws_audit (kw_srv w)"
    using assms(1) by (auto simp: reconcile_watchlist_def split: option.splits if_splits)
qed

text \<open>The writes of a merge that commits.\<close>

lemma merge_body_ok:
  assumes "merge_body v f t fr tr n w = Some w'" and "f \<noteq> t"
    and "look_watch (kw_watch w) f = fr" and "look_watch (kw_watch w) t = tr"
  shows "g_detections (kw_agg w') = map (rehash_det t f) (g_detections (kw_agg w))"
    and "g_rows (kw_agg w') = map (rehash_row t f) (g_rows (kw_agg w)) \<and> distinct (map row_key (g_rows (kw_agg w')))"
    and "kw_texts w' = kw_texts w \<and> kw_queue w' = kw_queue w"
    and "look_watch (kw_watch w') h = (if h = t then merged_row (kc_dbnow v) fr tr else if h = f then None else look_watch (kw_watch w) h)"
    and "\<exists>a. ws_audit (kw_srv w') = ws_audit (kw_srv w) @ [a] \<and> au_action a = ''plate_merge''"
proof -
  let ?w1 = "bulk_update_detections t f w"
  obtain w2 w3 payload where b: "bulk_update_encounters t f ?w1 = Some w2" and r: "reconcile_watchlist v f t fr tr w2 = Some w3"
    and a: "write_audit_tx (kc_faults v) (kc_actor v) ''plate_merge'' payload w3 = Some w'"
    using assms(1) by (auto simp: merge_body_def Let_def split: if_splits option.splits)
  have w2: "kw_watch w2 = kw_watch w" "kw_texts w2 = kw_texts w" "kw_queue w2 = kw_queue w" "kw_srv w2 = kw_srv w"
    "g_detections (kw_agg w2) = map (rehash_det t f) (g_detections (kw_agg w))"
    "g_rows (kw_agg w2) = map (rehash_row t f) (g_rows (kw_agg w))" "distinct (map row_key (g_rows (kw_agg w2)))"
    using b by (auto simp: bulk_update_encounters_def bulk_update_detections_def kw_watch_def Let_def rehash_det_def split: if_splits)
  have "look_watch (kw_watch w2) f = fr" and "look_watch (kw_watch w2) t = tr" using assms(3,4) w2 by simp_all
  note rec = reconcile_look [OF r assms(2) this]
  note aud = write_audit_tx_frame [OF a]
  show "g_detections (kw_agg w') = map (rehash_det t f) (g_detections (kw_agg w))"
    and "g_rows (kw_agg w') = map (rehash_row t f) (g_rows (kw_agg w)) \<and> distinct (map row_key (g_rows (kw_agg w')))"
    and "kw_texts w' = kw_texts w \<and> kw_queue w' = kw_queue w"
    and "look_watch (kw_watch w') h = (if h = t then merged_row (kc_dbnow v) fr tr else if h = f then None else look_watch (kw_watch w) h)"
    and "\<exists>a. ws_audit (kw_srv w') = ws_audit (kw_srv w) @ [a] \<and> au_action a = ''plate_merge''"
    using aud rec(2) rec(1) [of h] w2 by simp_all
qed

section \<open>What else a correction does\<close>

text \<open>The routes a merge touches.\<close>

definition plate_routes :: "string \<Rightarrow> corr_world \<Rightarrow> (string \<times> string) set" where
  "plate_routes h w =
     {(det_dongle x, det_route x) |x. x \<in> set (g_detections (kw_agg w)) \<and> det_hash x = h}
     \<union> {(er_dongle r, er_route r) |r. r \<in> set (g_rows (kw_agg w)) \<and> en_hash (er_enc r) = h}"

lemma merge_routes:
  assumes "\<forall>h. \<not> flt (KqDetRoutes h) \<and> \<not> flt (KqEncRoutes h)"
  shows "set (collect_affected_for_merge flt f t w) = plate_routes f w \<union> plate_routes t w"
    and "distinct (collect_affected_for_merge flt f t w)"
  using assms by (auto simp: collect_affected_for_merge_def add_new_set det_routes_def enc_routes_def routes_of_detections_def
      routes_of_encounters_def plate_routes_def intro!: add_new_distinct)

text \<open>
  The rows keep their kind. An open alert merged into a whitelisted plate is gone: the row stays on
  the whitelist, now with a severity, which no other operation writes there.
\<close>

lemma alert_merged_into_whitelist:
  assumes "wr_kind f = Alerted" and "row_wf f" and "wr_kind t = Whitelist"
  shows "plate_state_of (merged_row now (Some f) (Some t)) = Whitelisted"
    and "merged_row now (Some f) (Some t) = Some r \<Longrightarrow> \<not> row_wf r"
  using assms by (auto simp: plate_state_of_def merged_row_def Let_def row_wf_def merge_fields split: option.splits)

text \<open>An acknowledged alert that takes in a whitelisted plate is open again.\<close>

lemma whitelist_merged_reopens:
  assumes "wr_kind f = Whitelist" and "wr_acked f = None" and "row_wf f" and "wr_kind t = Alerted" and "row_wf t"
    and "wr_acked t = Some a"
  shows "\<exists>k. plate_state_of (merged_row now (Some f) (Some t)) = Alert k False"
proof -
  define m where "m = merge_watchlist_fields f t"
  have "mf_acked m = None" using merge_fields(4) [of f t] assms(2) by (simp add: m_def)
  then show ?thesis using assms(4) by (simp add: plate_state_of_def merged_row_def Let_def flip: m_def)
qed

text \<open>Without faults and without two encounters that start together, the transaction goes through.\<close>

lemma merge_body_succeeds:
  assumes "\<forall>q. \<not> kc_faults v q" and "distinct (map row_key (map (rehash_row t f) (g_rows (kw_agg w))))" and "f \<noteq> t"
    and "watch_wf (kw_watch w)" and "look_watch (kw_watch w) f = fr" and "look_watch (kw_watch w) t = tr"
  shows "\<exists>w'. merge_body v f t fr tr n w = Some w'"
proof -
  let ?w1 = "bulk_update_detections t f w"
  obtain w2 where w2: "bulk_update_encounters t f ?w1 = Some w2" and watch: "kw_watch w2 = kw_watch w"
    using assms(2) by (simp add: bulk_update_encounters_def bulk_update_detections_def Let_def kw_watch_def)
  have "severity_check (mf_severity (merge_watchlist_fields a b))" if "fr = Some a" "tr = Some b" for a b
    using watch_wf_look [OF assms(4), of f a] watch_wf_look [OF assms(4), of t b] assms(5,6) that
    by (auto simp: merge_fields severity_check_def row_wf_def split: watch_kind.splits option.splits)
  then have "\<exists>w3. reconcile_watchlist v f t fr tr w2 = Some w3"
    using assms(1,3,5,6) by (auto simp: reconcile_watchlist_def watch apply_merged_row_def rename_watchlist_hash_def split: option.split)
  then show ?thesis using assms(1) by (auto simp: merge_body_def Let_def w2 write_audit_tx_def)
qed

text \<open>
  Two plates with encounters that start in one frame of one route cannot be merged: the update
  violates the unique index, whatever else holds.
\<close>

lemma merge_collision:
  assumes "r \<in> set (g_rows (kw_agg w))" and "s \<in> set (g_rows (kw_agg w))" and "en_hash (er_enc r) = f" and "en_hash (er_enc s) = t"
    and "er_dongle r = er_dongle s" and "er_route r = er_route s" and "en_first (er_enc r) = en_first (er_enc s)" and "f \<noteq> t"
  shows "merge_body v f t fr tr n w = None"
proof -
  have "r \<noteq> s" using assms(3,4,8) by auto
  moreover have "row_key (rehash_row t f r) = row_key (rehash_row t f s)"
    using assms by (simp add: row_key_def rehash_row_def enc_key_def)
  ultimately have "\<not> distinct (map (\<lambda>x. row_key (rehash_row t f x)) (g_rows (kw_agg w)))"
    using assms(1,2) by (auto simp: distinct_map inj_on_def)
  then show ?thesis by (simp add: merge_body_def bulk_update_encounters_def bulk_update_detections_def Let_def comp_def)
qed

text \<open>
  The plate a corrected detection had before is not scored again when the route has no other
  detection of it: the aggregator announces only the plates it finds.
\<close>

lemma walk_hashes: "e \<in> set (walk_bucket gap cur prev rs) \<Longrightarrow> en_hash e = en_hash cur \<or> en_hash e \<in> det_hash ` set rs"
  by (induction gap cur prev rs rule: walk_bucket.induct)
    (auto simp: Let_def start_encounter_def extend_encounter_def split: if_splits)

lemma encounter_hashes:
  assumes "e \<in> set (compute_encounters rows gs)"
  shows "en_hash e \<in> det_hash ` set rows"
proof -
  obtain k where e: "e \<in> set (encounters_for_bucket (plate_bucket rows k) (effective_gap gs))"
    using assms by (auto simp: compute_encounters_def)
  then obtain r rs where b: "plate_bucket rows k = r # rs" by (cases "plate_bucket rows k") auto
  then have "en_hash e \<in> det_hash ` set (plate_bucket rows k)"
    using e walk_hashes by (fastforce simp: start_encounter_def)
  then show ?thesis by (force simp: plate_bucket_set)
qed

lemma old_plate_not_announced:
  assumes "process_agg_route flt gs dg rt s = (None, s')" and "a_chan s = Some (cap, q)" and "length q < cap"
    and "\<forall>x \<in> set (list_detections (a_db s) dg rt). det_hash x \<noteq> h"
  shows "\<exists>e. a_chan s' = Some (cap, q @ [e]) \<and> h \<notin> set (ev_hashes e)"
proof -
  let ?es = "compute_encounters (list_detections (a_db s) dg rt) gs"
  have "en_hash e \<in> det_hash ` set (list_detections (a_db s) dg rt)" if "e \<in> set ?es" for e
    using that encounter_hashes by blast
  then have "h \<notin> set (unique_plate_hashes ?es)" using assms(4) by (fastforce simp: unique_plate_hashes_def)
  then show ?thesis using assms(1-3)
    by (auto simp: process_agg_route_def Let_def emit_def split: if_splits sum.splits prod.splits option.splits)
qed

section \<open>Properties\<close>


definition plate_a :: string where
  "plate_a = replicate 32 (CHR ''a'')"

definition plate_b :: string where
  "plate_b = replicate 32 (CHR ''b'')"

lemma demo_plates: "plate_a \<noteq> plate_b" "plate_b \<noteq> plate_a" "length plate_a = 32" "length plate_b = 32"
  "decode_plate_hash (b64_enc plate_a) = Some plate_a" "decode_plate_hash (b64_enc plate_b) = Some plate_b"
proof -
  show neq: "plate_a \<noteq> plate_b" "plate_b \<noteq> plate_a" and "length plate_a = 32" "length plate_b = 32"
    by (simp_all add: plate_a_def plate_b_def)
  have "plate_a \<noteq> []" "plate_b \<noteq> []" by (simp_all add: plate_a_def plate_b_def)
  then show "decode_plate_hash (b64_enc plate_a) = Some plate_a" "decode_plate_hash (b64_enc plate_b) = Some plate_b"
    by (simp_all add: decode_plate_hash_def b64_enc_nonempty)
qed

definition demo_call2 :: corr_call where
  "demo_call2 = \<lparr>kc_faults = (\<lambda>_. False), kc_auth = empty_ctx\<lparr>cx_mode := Some ModeSession\<rparr>, kc_actor = None, kc_dbnow = 9, kc_gone = (\<lambda>_. False)\<rparr>"

definition demo_det :: "int \<Rightarrow> string \<Rightarrow> detection" where
  "demo_det i h = \<lparr>det_id = i, det_dongle = ''d'', det_route = ''r'', det_hash = h, det_ts = Some 0, det_bbox = []\<rparr>"

text \<open>Plate a with an open alert of severity 3, plate b with an acknowledged one of severity 4.\<close>

definition demo_two_plates :: corr_world where
  "demo_two_plates = \<lparr>kw_agg = \<lparr>g_detections = [demo_det 1 plate_a, demo_det 2 plate_b], g_turns = [], g_rows = [], g_next = 1\<rparr>,
     kw_texts = (\<lambda>_. (None, False)),
     kw_srv = set_watch \<lparr>wd_rows = [(plate_a, demo_row\<lparr>wr_acked := None\<rparr>), (plate_b, demo_row\<lparr>wr_severity := Some 4\<rparr>)], wd_next = 3\<rparr> demo_center,
     kw_queue = Some (8, [])\<rparr>"

lemma demo_rows: "look_watch (kw_watch demo_two_plates) plate_a = Some (demo_row\<lparr>wr_acked := None\<rparr>)"
  "look_watch (kw_watch demo_two_plates) plate_b = Some (demo_row\<lparr>wr_severity := Some 4\<rparr>)"
  by (simp_all add: demo_two_plates_def kw_watch_def set_watch_def look_watch_def demo_plates)


text \<open>An accepted edit rewrites one detection: it gets the hash of the new text, the ciphertext of that
  text and the mark of a correction, and nothing else changes but one audit row and the queue. Only the
  operator or the detection's own device gets that far. The detection's route and every other route of
  the new hash is queued, when there is room.\<close>

theorem edit_exact:
  assumes "edit_detection hash encrypt v param (Some plate) others w = (KEdited n hint, w')" and "parse_int 64 param = Some i"
    and "get_detection i w = Some det" and "kw_queue (others w) = Some (cap, q)" and "length q + nat n \<le> cap" and "\<forall>r. \<not> kc_gone v r"
  shows "check_dongle_access (kc_auth v) (det_dongle det)
    \<and> g_detections (kw_agg w') = map (\<lambda>x. if det_id x = i then x\<lparr>det_hash := hash plate\<rparr> else x) (g_detections (kw_agg (others w)))
    \<and> g_rows (kw_agg w') = g_rows (kw_agg (others w)) \<and> kw_watch w' = kw_watch (others w)
    \<and> (get_detection i (others w) \<noteq> None \<longrightarrow> (\<exists>c. encrypt plate = Some c \<and> kw_texts w' = (kw_texts (others w))(i := (Some c, True))))
    \<and> (\<exists>a. ws_audit (kw_srv w') = ws_audit (kw_srv (others w)) @ [a] \<and> au_action a = ''plate_edit'')
    \<and> (\<exists>rs. kw_queue w' = Some (cap, q @ rs) \<and> distinct rs \<and> n = int (length rs) \<and> (det_dongle det, det_route det) \<in> set rs
         \<and> (\<not> kc_faults v (KqDetRoutes (hash plate)) \<longrightarrow>
              set (routes_of_detections (hash plate) w') \<subseteq> set rs))"
proof -
  from assms(1-3) obtain c w1 where access: "check_dongle_access (kc_auth v) (det_dongle det)" and c: "encrypt plate = Some c"
    and b: "edit_body v i det (hash plate) c (others w) = Some w1"
    and n: "n = int (length (collect_affected_routes (kc_faults v) (det_hash det) (hash plate) (det_dongle det) (det_route det) w1))"
    and w': "w' = fold (enqueue_retrigger (kc_gone v)) (collect_affected_routes (kc_faults v) (det_hash det) (hash plate) (det_dongle det) (det_route det) w1) w1"
    by (auto simp: edit_detection_def Let_def dest!: run_in_tx_ok split: if_splits option.splits)
  let ?aff = "collect_affected_routes (kc_faults v) (det_hash det) (hash plate) (det_dongle det) (det_route det) w1"
  obtain w2 payload where u: "update_detection_plate i c (hash plate) (others w) = Some w2"
    and a: "write_audit_tx (kc_faults v) (kc_actor v) ''plate_edit'' payload w2 = Some w1"
    using b by (auto simp: edit_body_def split: if_splits option.splits)
  note aud = write_audit_tx_frame [OF a]
  have w2: "kw_srv w2 = kw_srv (others w)" "kw_queue w2 = kw_queue (others w)" "g_rows (kw_agg w2) = g_rows (kw_agg (others w))"
    "g_detections (kw_agg w2) = map (\<lambda>x. if det_id x = i then x\<lparr>det_hash := hash plate\<rparr> else x) (g_detections (kw_agg (others w)))"
    "get_detection i (others w) \<noteq> None \<longrightarrow> kw_texts w2 = (kw_texts (others w))(i := (Some c, True))"
    using u by (auto simp: update_detection_plate_def split: if_splits)
  have "kw_queue w' = Some (cap, q @ ?aff)"
    unfolding w' using aud w2(2) assms(4-6) n by (intro enqueue_all) auto
  moreover have "routes_of_detections (hash plate) w' = routes_of_detections (hash plate) w1" by (simp add: routes_of_detections_def w')
  then have "set (routes_of_detections (hash plate) w') \<subseteq> set ?aff" if "\<not> kc_faults v (KqDetRoutes (hash plate))"
    using that by (auto simp: collect_affected_routes_def add_new_set det_routes_def)
  moreover have "distinct ?aff" and "(det_dongle det, det_route det) \<in> set ?aff"
    by (auto simp: collect_affected_routes_def add_new_set intro!: add_new_distinct)
  ultimately show ?thesis
    using access c aud w2 n by (auto simp: w' kw_watch_def)
qed

text \<open>Detection 1 is read as plate b after all.\<close>

theorem edit_exact_witness:
  "map det_hash (g_detections (kw_agg (snd (edit_detection (\<lambda>_. plate_b) Some demo_call2 (show_int 1) (Some ''B1'') (\<lambda>w. w) demo_two_plates))))
    = [plate_b, plate_b]"
proof -
  have det: "get_detection 1 demo_two_plates = Some (demo_det 1 plate_a)" by (simp add: get_detection_def demo_two_plates_def demo_det_def)
  have id: "parse_int 64 (show_int 1) = Some 1" by (rule parse_show_int) simp_all
  have plate: "normalize_plate ''B1'' \<noteq> []" by (simp add: normalize_plate_def upper_def byte_def)
  define w1 where "w1 = snd (edit_detection (\<lambda>_. plate_b) Some demo_call2 (show_int 1) (Some ''B1'') (\<lambda>w. w) demo_two_plates)"
  have call: "kc_faults demo_call2 q = False" "check_dongle_access (kc_auth demo_call2) dg" "det_hash (demo_det i h) = h"
    "det_dongle (demo_det i h) = ''d''" "det_route (demo_det i h) = ''r''" for q dg i h
    by (simp_all add: demo_call2_def check_dongle_access_def demo_det_def)
  have keys: "ws_keys (kw_srv demo_two_plates)" by (simp add: demo_two_plates_def set_watch_def demo_center_def)
  obtain w2 where body: "edit_body demo_call2 1 (demo_det 1 plate_a) plate_b ''B1'' demo_two_plates = Some w2"
    by (simp add: edit_body_def demo_call2_def update_detection_plate_def demo_plates write_audit_tx_def)
  have texts: "g_detections (kw_agg w2) = [demo_det 1 plate_b, demo_det 2 plate_b]"
    using body by (auto simp: edit_body_def demo_call2_def update_detection_plate_def demo_plates write_audit_tx_def demo_two_plates_def demo_det_def)
  have rows: "g_rows (kw_agg w2) = []"
    using body by (auto simp: edit_body_def demo_call2_def update_detection_plate_def demo_plates write_audit_tx_def demo_two_plates_def)
  have aff: "collect_affected_routes (kc_faults demo_call2) plate_a plate_b ''d'' ''r'' w2 = [(''d'', ''r'')]"
    by (simp add: collect_affected_routes_def det_routes_def enc_routes_def routes_of_detections_def routes_of_encounters_def
        demo_call2_def texts rows demo_det_def demo_plates)
  obtain hint where run: "edit_detection (\<lambda>_. plate_b) Some demo_call2 (show_int 1) (Some ''B1'') (\<lambda>w. w) demo_two_plates = (KEdited 1 hint, w1)"
    using body aff by (simp add: w1_def edit_detection_def keys id plate det run_in_tx_def Let_def call)
  have "kw_queue demo_two_plates = Some (8, [])" by (simp add: demo_two_plates_def)
  then have "g_detections (kw_agg w1) = map (\<lambda>x. if det_id x = 1 then x\<lparr>det_hash := plate_b\<rparr> else x) (g_detections (kw_agg demo_two_plates))"
    using edit_exact [OF run id det, of 8 "[]"] by (simp add: demo_call2_def)
  then show ?thesis unfolding run by (simp add: demo_two_plates_def demo_det_def)
qed

text \<open>C16: Whatever fails, a correction is all or nothing: an answer other than success leaves the world to
  the other parties.\<close>

theorem correction_atomic:
  assumes "corrections_call hash encrypt sf v op others w = (resp, w')" and "\<not> (\<exists>n hint. resp = KEdited n hint)" and "\<not> (\<exists>n. resp = KMerged n)"
  shows "w' = w \<or> w' = others w"
proof (cases "require_alpr_enabled sf (kw_srv w)")
  case (Some r)
  then show ?thesis using assms(1) by (cases r) (auto simp: corrections_call_def)
next
  case None
  show ?thesis
  proof (cases op)
    case (CorrEdit i body)
    then show ?thesis using assms None
      by (auto simp: corrections_call_def edit_detection_def Let_def split: if_splits option.splits)
  next
    case (CorrMerge body)
    then show ?thesis using assms None
      by (auto simp: corrections_call_def merge_plates_def Let_def split: if_splits option.splits)
  qed
qed

text \<open>A merge whose audit row cannot be written changes nothing.\<close>

theorem correction_atomic_witness:
  "snd (corrections_call (\<lambda>p. p) Some (\<lambda>_. False) (demo_call2\<lparr>kc_faults := (\<lambda>q. q = KqAudit)\<rparr>)
     (CorrMerge (Some (b64_enc plate_a, b64_enc plate_b))) (\<lambda>w. w) demo_two_plates) = demo_two_plates"
proof -
  let ?v = "demo_call2\<lparr>kc_faults := (\<lambda>q. q = KqAudit)\<rparr>" and ?op = "CorrMerge (Some (b64_enc plate_a, b64_enc plate_b))"
  obtain resp w' where run: "corrections_call (\<lambda>p. p) Some (\<lambda>_. False) ?v ?op (\<lambda>w. w) demo_two_plates = (resp, w')" by fastforce
  have "merge_body ?v f t fr tr n w = None" for f t fr tr n w
    by (simp add: merge_body_def Let_def write_audit_tx_def split: option.split)
  then have "\<not> (\<exists>n hint. resp = KEdited n hint) \<and> \<not> (\<exists>n. resp = KMerged n)"
    using run by (auto simp: corrections_call_def merge_plates_def run_in_tx_def Let_def split: option.splits watch_resp.splits if_splits)
  then show ?thesis using correction_atomic [OF run] by (simp add: run)
qed

end
