(* ===== verification/Reevaluate.thy ===== *)
theory Reevaluate imports AlertWorker begin

text \<open>
  The re-evaluation endpoint of \<open>internal/api/alpr_reevaluate.go\<close>: every plate with an encounter in
  a window is scored again, for show or for real, with the heuristic worker's own evaluations. A
  plate seen by two devices is two jobs, as the statement lists pairs. The database's order of the
  pairs is not kept. \<open>clk n\<close> is the worker's and the database's clock at the n-th job.
\<close>

definition list_distinct_plates :: "gotime \<Rightarrow> gotime \<Rightarrow> (string \<times> enc_view) list \<Rightarrow> (string \<times> string) list" where
  "list_distinct_plates a b encs = remdups (map (\<lambda>(dg, e). (dg, ev_hash e)) (filter (\<lambda>(dg, e). a \<le> ev_last e \<and> ev_first e \<le> b) encs))"

definition severity_key :: "int \<Rightarrow> string" where
  "severity_key s = (if 0 \<le> s \<and> s \<le> 5 then show_int s else ''other'')"

definition inc_severity :: "int \<Rightarrow> (string \<Rightarrow> int) \<Rightarrow> string \<Rightarrow> int" where
  "inc_severity s m = m(severity_key s := m (severity_key s) + 1)"

record re_summary =
  rs_before :: "string \<Rightarrow> int"
  rs_after :: "string \<Rightarrow> int"
  rs_white :: int

text \<open>The loop of the dry run; a plate whose evaluation fails is left out.\<close>

fun dry_run_loop ::
  "(nat \<Rightarrow> eval_query \<Rightarrow> bool) \<Rightarrow> (setting_query \<Rightarrow> bool) \<Rightarrow> (nat \<Rightarrow> gotime \<times> gotime) \<Rightarrow> alert_world \<Rightarrow> nat
     \<Rightarrow> (string \<times> string) list \<Rightarrow> re_summary \<Rightarrow> re_summary" where
  "dry_run_loop ef sf clk w n [] s = s"
| "dry_run_loop ef sf clk w n ((dg, h) # rows) s =
     dry_run_loop ef sf clk w (Suc n) rows
       (case evaluate_plate_dry_run (ef n) sf (fst (clk n)) h w of
          Inl _ \<Rightarrow> s
        | Inr r \<Rightarrow> \<lparr>rs_before = inc_severity (dr_prior r) (rs_before s), rs_after = inc_severity (dr_proposed r) (rs_after s),
                    rs_white = rs_white s + (if dr_whitelisted r then 1 else 0)\<rparr>)"

fun live_loop ::
  "(nat \<Rightarrow> eval_query \<Rightarrow> bool) \<Rightarrow> (setting_query \<Rightarrow> bool) \<Rightarrow> (nat \<Rightarrow> gotime \<times> gotime) \<Rightarrow> nat \<Rightarrow> (string \<times> string) list
     \<Rightarrow> alert_world \<Rightarrow> alert_world" where
  "live_loop ef sf clk n [] w = w"
| "live_loop ef sf clk n ((dg, h) # rows) w =
     live_loop ef sf clk (Suc n) rows (snd (evaluate_plate (ef n) sf (fst (clk n)) (snd (clk n)) h [] dg w))"

datatype re_resp = ReErr nat string | ReDone real int bool int "re_summary option"

text \<open>The body is \<open>None\<close> when it does not bind, and its two fields are optional.\<close>

definition reevaluate ::
  "bool \<Rightarrow> (nat \<Rightarrow> eval_query \<Rightarrow> bool) \<Rightarrow> (setting_query \<Rightarrow> bool) \<Rightarrow> gotime \<Rightarrow> (nat \<Rightarrow> gotime \<times> gotime)
     \<Rightarrow> (int option \<times> bool option) option \<Rightarrow> (string \<times> enc_view) list \<Rightarrow> alert_world \<Rightarrow> re_resp \<times> alert_world" where
  "reevaluate list_fails ef sf now clk body encs w =
     (case body of
        None \<Rightarrow> (ReErr 400 ''failed to parse request body'', w)
      | Some (days, dry) \<Rightarrow>
          (let d = (case days of None \<Rightarrow> 30 | Some n \<Rightarrow> n); dry_run = (dry = Some True) in
           if d < 1 then (ReErr 400 ''days_back must be >= 1'', w)
           else if 365 < d then (ReErr 400 ''days_back exceeds maximum allowed window'', w)
           else if list_fails then (ReErr 500 ''failed to enumerate plates for re-evaluation'', w)
           else
             (let rows = list_distinct_plates (lookback_start now d) now encs; jobs = int (length rows);
                  done_resp = ReDone (of_int jobs / 20) jobs dry_run d in
              if dry_run
              then (done_resp (Some (dry_run_loop ef sf clk w 0 rows \<lparr>rs_before = (\<lambda>_. 0), rs_after = (\<lambda>_. 0), rs_white = 0\<rparr>)), w)
              else (done_resp None, live_loop ef sf clk 0 rows w))))"

section \<open>Lemmas\<close>

text \<open>The severity a plate has depends on its own row, the encounters and the settings.\<close>

lemma plate_severity_cong:
  assumes "look_watch (aw_watch w') h = look_watch (aw_watch w) h" and "aw_encounters w' = aw_encounters w" and "aw_settings w' = aw_settings w"
  shows "plate_severity sf now h w' = plate_severity sf now h w"
  using assms by (simp add: plate_severity_def)

lemma alerted_upserts_frame:
  assumes "k \<noteq> h"
  shows "upsert_watchlist_alerted dbnow h l s n t d = Inr d' \<Longrightarrow> look_watch d' k = look_watch d k"
    and "upsert_watchlist_alerted_preserve_ack dbnow h l s n t d = Inr d' \<Longrightarrow> look_watch d' k = look_watch d k"
  using assms by (auto simp: upsert_watchlist_alerted_def upsert_watchlist_alerted_preserve_ack_def upsert_watch_look)

lemma evaluate_plate_event:
  assumes "watch_wf (aw_watch w)" and "\<forall>q. \<not> ef q" and "evaluate_plate ef sf now dbnow h route dongle w = (r, w')"
  shows "\<exists>e. aw_events w' = aw_events w @ [e] \<and> ae_hash e = h \<and> ae_severity e = plate_severity sf now h w"
    and "k \<noteq> h \<Longrightarrow> look_watch (aw_watch w') k = look_watch (aw_watch w) k"
    and "aw_encounters w' = aw_encounters w \<and> aw_settings w' = aw_settings w"
    and "watch_wf (aw_watch w')"
proof -
  obtain c where load: "evaluate_load ef sf now h w = Inr c" using assms(2) by (auto simp: evaluate_load_def Let_def)
  note c = evaluate_load_ok [OF load]
  have commit: "evaluate_commit ef dbnow route dongle c w = (r, w')" using assms(3) load by (simp add: evaluate_plate_def)
  moreover have "r = None" using evaluate_plate_total [of w ef, OF assms(1)] assms(2,3) by (metis fst_conv)
  ultimately have ok: "evaluate_commit ef dbnow route dongle c w = (None, w')" by simp
  note facts = evaluate_commit_ok [OF ok]
  show "\<exists>e. aw_events w' = aw_events w @ [e] \<and> ae_hash e = h \<and> ae_severity e = plate_severity sf now h w"
    using facts(1) c by simp
  show "look_watch (aw_watch w') k = look_watch (aw_watch w) k" if "k \<noteq> h"
  proof (cases "sc_severity (dc_result c) < 2")
    case True
    then show ?thesis using facts(2) by simp
  next
    case False
    then show ?thesis using facts(3,4) c(1) alerted_upserts_frame [OF that]
      by (cases "dc_existing c < sc_severity (dc_result c)") blast+
  qed
  show "aw_encounters w' = aw_encounters w \<and> aw_settings w' = aw_settings w"
    using ok by (auto simp: evaluate_commit_def Let_def split: if_splits sum.splits)
  show "watch_wf (aw_watch w')"
    using evaluate_commit_wf [OF assms(1) _ ok] c(3) plate_severity_range [of sf now h w] by auto
qed

lemma dry_run_proposes:
  assumes "\<And>q. \<not> ef q"
  shows "\<exists>r. evaluate_plate_dry_run ef sf now h w = Inr r \<and> dr_proposed r = plate_severity sf now h w
    \<and> (dr_whitelisted r \<longleftrightarrow> plate_state_of (look_watch (aw_watch w) h) = Whitelisted)"
proof -
  have "(case look_watch (aw_watch w) h of None \<Rightarrow> False | Some r \<Rightarrow> wr_kind r = Whitelist)
      = (plate_state_of (look_watch (aw_watch w) h) = Whitelisted)"
    by (simp add: plate_state_whitelisted split: option.splits)
  then show ?thesis using assms by (simp add: evaluate_plate_dry_run_def plate_severity_def Let_def)
qed

text \<open>The severities the jobs compute from one world.\<close>

fun predicted :: "(setting_query \<Rightarrow> bool) \<Rightarrow> (nat \<Rightarrow> gotime \<times> gotime) \<Rightarrow> alert_world \<Rightarrow> nat \<Rightarrow> (string \<times> string) list \<Rightarrow> int list" where
  "predicted sf clk w n [] = []"
| "predicted sf clk w n ((dg, h) # rows) = plate_severity sf (fst (clk n)) h w # predicted sf clk w (Suc n) rows"

lemma predicted_cong:
  assumes "\<And>h. h \<in> snd ` set rows \<Longrightarrow> look_watch (aw_watch w') h = look_watch (aw_watch w) h" and "aw_encounters w' = aw_encounters w"
    and "aw_settings w' = aw_settings w"
  shows "predicted sf clk w' n rows = predicted sf clk w n rows"
  using assms by (induction sf clk w n rows rule: predicted.induct) (auto intro!: plate_severity_cong)

lemma live_severities:
  assumes "watch_wf (aw_watch w)" and "\<forall>i q. \<not> ef i q" and "distinct (map snd rows)"
  shows "\<exists>es. aw_events (live_loop ef sf clk n rows w) = aw_events w @ es \<and> map ae_hash es = map snd rows
    \<and> map ae_severity es = predicted sf clk w n rows"
  using assms(1,3)
proof (induction rows arbitrary: n w)
  case Nil
  then show ?case by simp
next
  case (Cons p rows)
  obtain dg h where p: "p = (dg, h)" by (cases p)
  obtain r w' where e: "evaluate_plate (ef n) sf (fst (clk n)) (snd (clk n)) h [] dg w = (r, w')" by fastforce
  note f = evaluate_plate_event [OF Cons.prems(1) _ e]
  have nf: "\<forall>q. \<not> ef n q" using assms(2) by simp
  obtain x where x: "aw_events w' = aw_events w @ [x]" "ae_hash x = h" "ae_severity x = plate_severity sf (fst (clk n)) h w"
    using f(1) [OF nf] by blast
  have "predicted sf clk w' (Suc n) rows = predicted sf clk w (Suc n) rows"
    using Cons.prems(2) f(2,3) [OF nf] p by (intro predicted_cong) (metis distinct.simps(2) list.set_map list.simps(9) snd_conv, simp_all)
  moreover obtain es where "aw_events (live_loop ef sf clk (Suc n) rows w') = aw_events w' @ es" "map ae_hash es = map snd rows"
      "map ae_severity es = predicted sf clk w' (Suc n) rows"
    using Cons.IH [OF f(4) [OF nf], of "Suc n"] Cons.prems(2) by auto
  ultimately show ?case using x e by (intro exI [of _ "x # es"]) (simp add: p)
qed

lemma dry_counts:
  assumes "\<forall>i q. \<not> ef i q"
  shows "rs_after (dry_run_loop ef sf clk w n rows s) k
    = rs_after s k + int (length (filter (\<lambda>v. severity_key v = k) (predicted sf clk w n rows)))"
proof (induction rows arbitrary: n s)
  case Nil
  then show ?case by simp
next
  case (Cons p rows)
  obtain dg h where p: "p = (dg, h)" by (cases p)
  obtain r where "evaluate_plate_dry_run (ef n) sf (fst (clk n)) h w = Inr r" "dr_proposed r = plate_severity sf (fst (clk n)) h w"
    using dry_run_proposes [of "ef n"] assms by metis
  then show ?case using Cons.IH by (simp add: p inc_severity_def)
qed

section \<open>The property\<close>

text \<open>C7: The dry run predicts the live run: with the same clocks, a well-typed watchlist, no failing
  statement and every plate seen by one device only, the histogram it shows counts exactly the
  severities the live run then writes, one audit event per plate in the window, and the dry run itself
  changes nothing.\<close>

theorem dry_run_predicts:
  assumes "reevaluate False ef sf now clk (Some (days, Some True)) encs w = (ReDone eta jobs dry d (Some s), w1)"
    and "reevaluate False ef sf now clk (Some (days, Some False)) encs w = (ReDone eta' jobs' dry' d' s', w2)"
    and "watch_wf (aw_watch w)" and "\<forall>i q. \<not> ef i q"
    and "distinct (map snd (list_distinct_plates (lookback_start now d) now encs))"
  shows "w1 = w \<and> jobs' = jobs
    \<and> (\<exists>es. aw_events w2 = aw_events w @ es \<and> map ae_hash es = map snd (list_distinct_plates (lookback_start now d) now encs)
         \<and> (\<forall>k. rs_after s k = int (length (filter (\<lambda>e. severity_key (ae_severity e) = k) es))))"
proof -
  let ?rows = "list_distinct_plates (lookback_start now d) now encs"
  have s: "s = dry_run_loop ef sf clk w 0 ?rows \<lparr>rs_before = (\<lambda>_. 0), rs_after = (\<lambda>_. 0), rs_white = 0\<rparr>" and "w1 = w"
    and jobs: "jobs = int (length ?rows)" "d = (case days of None \<Rightarrow> 30 | Some n \<Rightarrow> n)"
    using assms(1) by (auto simp: reevaluate_def Let_def split: if_splits)
  have w2: "w2 = live_loop ef sf clk 0 ?rows w" and "jobs' = jobs"
    using assms(2) jobs by (auto simp: reevaluate_def Let_def split: if_splits)
  obtain es where es: "aw_events w2 = aw_events w @ es" "map ae_hash es = map snd ?rows" "map ae_severity es = predicted sf clk w 0 ?rows"
    using live_severities [OF assms(3-5), where n = 0 and sf = sf and clk = clk] w2 by blast
  have "rs_after s k = int (length (filter (\<lambda>e. severity_key (ae_severity e) = k) es))" for k
  proof -
    have "rs_after s k = int (length (filter (\<lambda>v. severity_key v = k) (map ae_severity es)))"
      by (simp add: s dry_counts [OF assms(4)] es(3))
    then show ?thesis by (simp add: filter_map comp_def)
  qed
  then show ?thesis using es \<open>w1 = w\<close> \<open>jobs' = jobs\<close> by blast
qed

definition demo_view :: enc_view where
  "demo_view = \<lparr>ev_id = 1, ev_hash = ''h'', ev_route = ''r'', ev_first = - 1, ev_last = - 1, ev_turns = 0, ev_lat = None, ev_lng = None\<rparr>"

theorem dry_run_predicts_witness:
  "\<exists>s e. snd (reevaluate False (\<lambda>_ _. False) (\<lambda>_. False) 0 (\<lambda>_. (0, 0)) (Some (None, Some True)) [(''d'', demo_view)]
        (demo_alerts\<lparr>aw_encounters := [demo_view]\<rparr>)) = demo_alerts\<lparr>aw_encounters := [demo_view]\<rparr>
    \<and> aw_events (snd (reevaluate False (\<lambda>_ _. False) (\<lambda>_. False) 0 (\<lambda>_. (0, 0)) (Some (None, Some False)) [(''d'', demo_view)]
        (demo_alerts\<lparr>aw_encounters := [demo_view]\<rparr>))) = [e]
    \<and> ae_hash e = ''h'' \<and> s (severity_key (ae_severity e)) = (1 :: int)"
proof -
  let ?w = "demo_alerts\<lparr>aw_encounters := [demo_view]\<rparr>"
  let ?re = "\<lambda>dry. reevaluate False (\<lambda>_ _. False) (\<lambda>_. False) 0 (\<lambda>_. (0, 0)) (Some (None, Some dry)) [(''d'', demo_view)] ?w"
  have rows: "list_distinct_plates (lookback_start 0 30) 0 [(''d'', demo_view)] = [(''d'', ''h'')]"
    by (simp add: list_distinct_plates_def demo_view_def lookback_start_def to_int64_def hour_def)
  obtain s w1 where dry: "?re True = (ReDone (1 / 20) 1 True 30 (Some s), w1)" by (simp add: reevaluate_def Let_def rows)
  obtain s' w2 where live: "?re False = (ReDone (1 / 20) 1 False 30 s', w2)" by (simp add: reevaluate_def Let_def rows)
  have "watch_wf (aw_watch ?w)"
    by (auto simp: watch_wf_def look_watch_def demo_alerts_def row_wf_def demo_row_def split: if_splits)
  then obtain es where "w1 = ?w" "aw_events w2 = aw_events ?w @ es" "map ae_hash es = [''h'']"
      "\<forall>k. rs_after s k = int (length (filter (\<lambda>e. severity_key (ae_severity e) = k) es))"
    using dry_run_predicts [OF dry live] rows by auto
  then show ?thesis unfolding dry live
    by (intro exI [of _ "rs_after s"] exI [of _ "hd es"]) (auto simp: demo_alerts_def)
qed

end
