(* ===== verification/AlprSettings.thy ===== *)
theory AlprSettings imports WatchlistApi Auth begin

text \<open>
  The ALPR settings endpoints (\<open>internal/api/settings_alpr.go\<close>), the seeding at start-up
  (\<open>cmd/server/alpr.go\<close>), the validity of the encryption key (\<open>internal/config/alpr.go\<close>) and the audit
  statements they use. A call carries three fault predicates, one for the reads before its writes,
  one for the writes and one for the reads after them, each by key. The engine's health probe is the
  status code its request would get.
\<close>

section \<open>Configuration, state, answers\<close>

record alpr_config =
  ac_engine_url :: string
  ac_region :: string
  ac_fps :: real
  ac_conf :: real
  ac_key_b64 :: string
  ac_unflagged :: int
  ac_flagged :: int
  ac_notify_min :: int

definition encryption_key_configured :: "alpr_config option \<Rightarrow> bool" where
  "encryption_key_configured c =
     (case c of None \<Rightarrow> False
      | Some c \<Rightarrow>
          if ac_key_b64 c = [] then False
          else (case (case b64_pad_dec (map std_letter (ac_key_b64 c)) of
                        None \<Rightarrow> b64_dec (map std_letter (ac_key_b64 c))
                      | Some raw \<Rightarrow> Some raw) of
                  None \<Rightarrow> False
                | Some raw \<Rightarrow> length raw = 32))"

record probe =
  pr_last :: gotime
  pr_ok :: bool
  pr_endpoint :: string

datatype tuned = TunedFloat real | TunedInt int

datatype audit_payload = PayloadFields "(string \<times> string) list" | PayloadChanges "(string \<times> tuned \<times> tuned) list" bool

record audit_entry =
  sa_action :: string
  sa_actor :: "string option"
  sa_payload :: audit_payload
  sa_at :: gotime

record alpr_srv =
  as_store :: settings_db
  as_audit :: "audit_entry list option"
  as_probe :: probe

record settings_call =
  sc_before :: "string \<Rightarrow> setting_query \<Rightarrow> bool"
  sc_write :: "string \<Rightarrow> setting_query \<Rightarrow> bool"
  sc_after :: "string \<Rightarrow> setting_query \<Rightarrow> bool"
  sc_audit_fault :: "string \<Rightarrow> bool"
  sc_ctx :: auth_ctx
  sc_now :: gotime
  sc_health :: "nat option"

record alpr_status =
  st_enabled :: bool
  st_engine_url :: string
  st_region :: string
  st_fps :: real
  st_conf :: real
  st_unflagged :: int
  st_flagged :: int
  st_notify_min :: int
  st_key :: bool
  st_reachable :: bool
  st_required :: bool
  st_version :: string
  st_acked_at :: "string option"
  st_jurisdiction :: "string option"

record alpr_request =
  aq_enabled :: "bool option"
  aq_region :: "string option"
  aq_fps :: "real option"
  aq_conf :: "real option"
  aq_unflagged :: "int option"
  aq_flagged :: "int option"
  aq_notify_min :: "int option"

datatype alpr_resp =
    AlprErr nat string
  | AlprStatus alpr_status
  | AlprMissing string "string list" string
  | AckOk string string string
  | AckMismatch string

section \<open>The engine probe\<close>

definition probe_ttl :: duration where
  "probe_ttl = 30 * second"

text \<open>\<open>Check\<close>; the parameter is what the request to \<open>/health\<close> brings back, \<open>None\<close> for an error.\<close>

definition probe_check :: "gotime \<Rightarrow> nat option \<Rightarrow> probe \<Rightarrow> bool \<times> probe" where
  "probe_check now health e =
     (if pr_last e \<noteq> zero_time \<and> time_sub now (pr_last e) < probe_ttl then (pr_ok e, e)
      else if pr_endpoint e = [] then (False, e\<lparr>pr_last := now, pr_ok := False\<rparr>)
      else (case health of
              None \<Rightarrow> (False, e\<lparr>pr_last := now, pr_ok := False\<rparr>)
            | Some code \<Rightarrow> (200 \<le> code \<and> code < 300, e\<lparr>pr_last := now, pr_ok := 200 \<le> code \<and> code < 300\<rparr>)))"

section \<open>Audit rows\<close>

definition actor_from_context :: "auth_ctx \<Rightarrow> string option" where
  "actor_from_context c =
     (if cx_mode c \<noteq> Some ModeSession then None
      else (case cx_user c of None \<Rightarrow> None | Some u \<Rightarrow> if u = 0 then None else Some (''user:'' @ show_int u)))"

definition insert_settings_audit :: "settings_call \<Rightarrow> string \<Rightarrow> audit_payload \<Rightarrow> alpr_srv \<Rightarrow> alpr_srv" where
  "insert_settings_audit v action payload s =
     (case as_audit s of None \<Rightarrow> s
      | Some rows \<Rightarrow>
          if sc_audit_fault v action then s
          else s\<lparr>as_audit := Some (rows @ [\<lparr>sa_action = action, sa_actor = actor_from_context (sc_ctx v),
            sa_payload = payload, sa_at = sc_now v\<rparr>])\<rparr>)"

text \<open>\<open>ListAudit\<close> with the action filter, newest first; ids grow with the insertions.\<close>

definition list_audit :: "string \<Rightarrow> nat \<Rightarrow> audit_entry list \<Rightarrow> audit_entry list" where
  "list_audit action limit rows = take limit (rev (sort_key sa_at (filter (\<lambda>r. sa_action r = action) rows)))"

section \<open>Reading the settings\<close>

definition disclaimer_version :: string where
  "disclaimer_version = ''2026-04-v1''"

definition no_config :: alpr_config where
  "no_config = \<lparr>ac_engine_url = [], ac_region = [], ac_fps = 0, ac_conf = 0, ac_key_b64 = [],
     ac_unflagged = 0, ac_flagged = 0, ac_notify_min = 0\<rparr>"

definition effective_settings ::
  "(string \<Rightarrow> setting_query \<Rightarrow> bool) \<Rightarrow> alpr_config option \<Rightarrow> settings_db \<Rightarrow> setting_error + alpr_status" where
  "effective_settings flt cfg d =
     (let c = (case cfg of None \<Rightarrow> no_config | Some c \<Rightarrow> c) in
      or_bind (bool_or (flt ''alpr_enabled'') ''alpr_enabled'' False d) (\<lambda>enabled.
      or_bind (string_or (flt ''alpr_region'') ''alpr_region'' (ac_region c) d) (\<lambda>region.
      or_bind (float_or (flt ''alpr_frames_per_second'') ''alpr_frames_per_second'' (ac_fps c) d) (\<lambda>fps.
      or_bind (float_or (flt ''alpr_confidence_min'') ''alpr_confidence_min'' (ac_conf c) d) (\<lambda>conf.
      or_bind (int_or (flt ''alpr_retention_days_unflagged'') ''alpr_retention_days_unflagged'' (ac_unflagged c) d) (\<lambda>rdu.
      or_bind (int_or (flt ''alpr_retention_days_flagged'') ''alpr_retention_days_flagged'' (ac_flagged c) d) (\<lambda>rdf.
      or_bind (int_or (flt ''alpr_notify_min_severity'') ''alpr_notify_min_severity'' (ac_notify_min c) d) (\<lambda>sev.
      (case time_or_zero (flt ''alpr_disclaimer_acked_at'') ''alpr_disclaimer_acked_at'' d of
         Inl e \<Rightarrow> Inl e
       | Inr acked \<Rightarrow>
      or_bind (string_or (flt ''alpr_disclaimer_version'') ''alpr_disclaimer_version'' [] d) (\<lambda>version.
      or_bind (string_or (flt ''alpr_disclaimer_acked_jurisdiction'') ''alpr_disclaimer_acked_jurisdiction'' [] d) (\<lambda>juris.
        Inr \<lparr>st_enabled = enabled, st_engine_url = ac_engine_url c, st_region = region, st_fps = fps, st_conf = conf,
          st_unflagged = rdu, st_flagged = rdf, st_notify_min = sev,
          st_key = encryption_key_configured (case cfg of None \<Rightarrow> Some no_config | Some c \<Rightarrow> Some c),
          st_reachable = False, st_required = (acked = None \<or> version \<noteq> disclaimer_version),
          st_version = disclaimer_version, st_acked_at = map_option format_rfc3339 acked,
          st_jurisdiction = (if juris \<noteq> [] then Some juris else None)\<rparr>)))))))))))"

definition get_alpr :: "settings_call \<Rightarrow> alpr_config option \<Rightarrow> alpr_srv \<Rightarrow> alpr_resp \<times> alpr_srv" where
  "get_alpr v cfg s =
     (case effective_settings (sc_before v) cfg (as_store s) of
        Inl _ \<Rightarrow> (AlprErr 500 ''failed to read alpr settings'', s)
      | Inr st \<Rightarrow>
          (case probe_check (sc_now v) (sc_health v) (as_probe s) of
             (ok, p) \<Rightarrow> (AlprStatus (st\<lparr>st_reachable := ok\<rparr>), s\<lparr>as_probe := p\<rparr>)))"

section \<open>The enable gate\<close>

definition disclaimer_satisfied :: "(string \<Rightarrow> setting_query \<Rightarrow> bool) \<Rightarrow> settings_db \<Rightarrow> setting_error + bool" where
  "disclaimer_satisfied flt d =
     or_bind (string_or (flt ''alpr_disclaimer_version'') ''alpr_disclaimer_version'' [] d) (\<lambda>version.
       if version \<noteq> disclaimer_version then Inr False
       else (case time_or_zero (flt ''alpr_disclaimer_acked_at'') ''alpr_disclaimer_acked_at'' d of
               Inl e \<Rightarrow> Inl e | Inr acked \<Rightarrow> Inr (acked \<noteq> None)))"

definition missing_enable_prerequisites ::
  "(string \<Rightarrow> setting_query \<Rightarrow> bool) \<Rightarrow> alpr_config option \<Rightarrow> settings_db \<Rightarrow> setting_error + string list" where
  "missing_enable_prerequisites flt cfg d =
     (case disclaimer_satisfied flt d of
        Inl e \<Rightarrow> Inl e
      | Inr ok \<Rightarrow> Inr ((if encryption_key_configured cfg then [] else [''encryption_key''])
                      @ (if ok then [] else [''disclaimer''])))"

section \<open>Writing the settings\<close>

text \<open>\<open>dbError\<close>: a write never reports a missing row.\<close>

definition settings_db_error :: "setting_error \<Rightarrow> nat \<times> string" where
  "settings_db_error e =
     (if e = SettingNotFound then (404, ''alpr setting not found'') else (500, ''failed to update alpr setting''))"

fun write_rows ::
  "(string \<Rightarrow> setting_query \<Rightarrow> bool) \<Rightarrow> (string \<times> string) list \<Rightarrow> settings_db \<Rightarrow> setting_error option \<times> settings_db" where
  "write_rows flt [] d = (None, d)"
| "write_rows flt ((k, x) # rows) d =
     (case set_setting (flt k) k x d of (Some e, d') \<Rightarrow> (Some e, d') | (None, d') \<Rightarrow> write_rows flt rows d')"

definition alpr_bounds_error :: "alpr_request \<Rightarrow> string option" where
  "alpr_bounds_error q =
     (if (case aq_region q of None \<Rightarrow> False | Some r \<Rightarrow> r \<notin> {''us'', ''eu'', ''uk'', ''other''})
      then Some ''region must be one of us|eu|uk|other''
      else if (case aq_fps q of None \<Rightarrow> False | Some x \<Rightarrow> x < 1 / 2 \<or> 4 < x)
      then Some ''frames_per_second must be in [0.5, 4]''
      else if (case aq_conf q of None \<Rightarrow> False | Some x \<Rightarrow> x < 1 / 2 \<or> 95 / 100 < x)
      then Some ''confidence_min must be in [0.5, 0.95]''
      else if (case aq_unflagged q of None \<Rightarrow> False | Some n \<Rightarrow> n < 0)
      then Some ''retention_days_unflagged must be >= 0''
      else if (case aq_flagged q of None \<Rightarrow> False | Some n \<Rightarrow> n < 0)
      then Some ''retention_days_flagged must be >= 0''
      else if (case aq_notify_min q of None \<Rightarrow> False | Some n \<Rightarrow> n < 1 \<or> 5 < n)
      then Some ''notify_min_severity must be in [1, 5]''
      else None)"

definition row_of :: "string \<Rightarrow> ('a \<Rightarrow> string) \<Rightarrow> 'a option \<Rightarrow> (string \<times> string) list" where
  "row_of k enc v = (case v of None \<Rightarrow> [] | Some x \<Rightarrow> [(k, enc x)])"

definition alpr_rows :: "alpr_request \<Rightarrow> (string \<times> string) list" where
  "alpr_rows q =
     row_of ''alpr_enabled'' show_bool (aq_enabled q)
     @ row_of ''alpr_region'' (\<lambda>r. r) (aq_region q)
     @ row_of ''alpr_frames_per_second'' format_float (aq_fps q)
     @ row_of ''alpr_confidence_min'' format_float (aq_conf q)
     @ row_of ''alpr_retention_days_unflagged'' show_int (aq_unflagged q)
     @ row_of ''alpr_retention_days_flagged'' show_int (aq_flagged q)
     @ row_of ''alpr_notify_min_severity'' show_int (aq_notify_min q)"

definition apply_alpr :: "settings_call \<Rightarrow> alpr_config option \<Rightarrow> alpr_request \<Rightarrow> alpr_srv \<Rightarrow> alpr_resp \<times> alpr_srv" where
  "apply_alpr v cfg q s =
     (case write_rows (sc_write v) (alpr_rows q) (as_store s) of
        (Some e, d) \<Rightarrow> (case settings_db_error e of (code, msg) \<Rightarrow> (AlprErr code msg, s\<lparr>as_store := d\<rparr>))
      | (None, d) \<Rightarrow>
          (case effective_settings (sc_after v) cfg d of
             Inl _ \<Rightarrow> (AlprErr 500 ''failed to read alpr settings after update'', s\<lparr>as_store := d\<rparr>)
           | Inr st \<Rightarrow>
               (case probe_check (sc_now v) (sc_health v) (as_probe s) of
                  (ok, p) \<Rightarrow> (AlprStatus (st\<lparr>st_reachable := ok\<rparr>), s\<lparr>as_store := d, as_probe := p\<rparr>))))"

definition set_alpr ::
  "settings_call \<Rightarrow> alpr_config option \<Rightarrow> alpr_request option \<Rightarrow> alpr_srv \<Rightarrow> alpr_resp \<times> alpr_srv" where
  "set_alpr v cfg body s =
     (case body of
        None \<Rightarrow> (AlprErr 400 ''failed to parse request body'', s)
      | Some q \<Rightarrow>
          (case alpr_bounds_error q of
             Some msg \<Rightarrow> (AlprErr 400 msg, s)
           | None \<Rightarrow>
               if aq_enabled q = Some True
               then (case missing_enable_prerequisites (sc_before v) cfg (as_store s) of
                       Inl _ \<Rightarrow> (AlprErr 500 ''failed to check alpr prerequisites'', s)
                     | Inr missing \<Rightarrow>
                         if missing \<noteq> []
                         then (if ''disclaimer'' \<in> set missing
                               then AlprMissing ''alpr_disclaimer_required'' missing disclaimer_version
                               else AlprMissing ''alpr cannot be enabled until prerequisites are satisfied'' missing [], s)
                         else apply_alpr v cfg q s)
               else apply_alpr v cfg q s))"

section \<open>The disclaimer\<close>

text \<open>From the superseded audit row to the answer, once the prior acknowledgement has been read.\<close>

definition ack_superseded :: "settings_call \<Rightarrow> string \<Rightarrow> gotime option \<Rightarrow> string \<Rightarrow> alpr_srv \<Rightarrow> alpr_srv" where
  "ack_superseded v prior acked prior_juris s =
     (case acked of
        Some t \<Rightarrow>
          if prior \<noteq> [] \<and> prior \<noteq> disclaimer_version
          then insert_settings_audit v ''disclaimer_ack_superseded''
                 (PayloadFields [(''prior_version'', prior), (''prior_acked_at'', format_rfc3339 t),
                    (''prior_jurisdiction'', prior_juris), (''new_version'', disclaimer_version)]) s
          else s
      | None \<Rightarrow> s)"

definition ack_rows :: "gotime \<Rightarrow> string \<Rightarrow> (string \<times> string) list" where
  "ack_rows now jurisdiction =
     [(''alpr_disclaimer_version'', disclaimer_version), (''alpr_disclaimer_acked_at'', format_rfc3339 now),
      (''alpr_disclaimer_acked_jurisdiction'', jurisdiction)]"

definition ack_write :: "settings_call \<Rightarrow> string \<Rightarrow> alpr_srv \<Rightarrow> alpr_resp \<times> alpr_srv" where
  "ack_write v jurisdiction s =
     (case write_rows (sc_write v) (ack_rows (sc_now v) jurisdiction) (as_store s) of
        (Some e, d) \<Rightarrow> (case settings_db_error e of (code, msg) \<Rightarrow> (AlprErr code msg, s\<lparr>as_store := d\<rparr>))
      | (None, d) \<Rightarrow>
          (AckOk disclaimer_version (format_rfc3339 (sc_now v)) jurisdiction,
           insert_settings_audit v ''alpr_disclaimer_ack''
             (PayloadFields [(''jurisdiction'', jurisdiction), (''version'', disclaimer_version)])
             (s\<lparr>as_store := d\<rparr>)))"

definition ack_disclaimer ::
  "settings_call \<Rightarrow> (string \<times> string) option \<Rightarrow> alpr_srv \<Rightarrow> alpr_resp \<times> alpr_srv" where
  "ack_disclaimer v body s =
     (case body of
        None \<Rightarrow> (AlprErr 400 ''failed to parse request body'', s)
      | Some (jurisdiction, version) \<Rightarrow>
          if jurisdiction \<notin> {''us'', ''eu'', ''uk'', ''ca'', ''au'', ''other''}
          then (AlprErr 400 ''jurisdiction must be one of us|eu|uk|ca|au|other'', s)
          else if version \<noteq> disclaimer_version then (AckMismatch disclaimer_version, s)
          else
          (case string_or (sc_before v ''alpr_disclaimer_version'') ''alpr_disclaimer_version'' [] (as_store s) of
             (_, Some _) \<Rightarrow> (AlprErr 500 ''failed to read prior disclaimer version'', s)
           | (prior, None) \<Rightarrow>
          (case time_or_zero (sc_before v ''alpr_disclaimer_acked_at'') ''alpr_disclaimer_acked_at'' (as_store s) of
             Inl _ \<Rightarrow> (AlprErr 500 ''failed to read prior disclaimer ack'', s)
           | Inr acked \<Rightarrow>
          (case string_or (sc_before v ''alpr_disclaimer_acked_jurisdiction'') ''alpr_disclaimer_acked_jurisdiction'' [] (as_store s) of
             (_, Some _) \<Rightarrow> (AlprErr 500 ''failed to read prior disclaimer jurisdiction'', s)
           | (prior_juris, None) \<Rightarrow> ack_write v jurisdiction (ack_superseded v prior acked prior_juris s)))))"

section \<open>Seeding at start-up\<close>

definition seed_if_missing :: "(string \<Rightarrow> setting_query \<Rightarrow> bool) \<Rightarrow> string \<Rightarrow> string \<Rightarrow> settings_db \<Rightarrow> settings_db" where
  "seed_if_missing flt k x d =
     (case get_setting (flt k) k d of
        Inr _ \<Rightarrow> d
      | Inl e \<Rightarrow> if e \<noteq> SettingNotFound then d else snd (set_setting (flt k) k x d))"

definition seed_alpr_defaults :: "(string \<Rightarrow> setting_query \<Rightarrow> bool) \<Rightarrow> alpr_config option \<Rightarrow> settings_db \<Rightarrow> settings_db" where
  "seed_alpr_defaults flt cfg d =
     (case cfg of None \<Rightarrow> d
      | Some c \<Rightarrow>
          (let d = seed_if_missing flt ''alpr_region'' (ac_region c) d;
               d = seed_if_missing flt ''alpr_frames_per_second'' (format_float (ac_fps c)) d;
               d = seed_if_missing flt ''alpr_confidence_min'' (format_float (ac_conf c)) d;
               d = snd (seed_int_if_missing (flt ''alpr_retention_days_unflagged'') ''alpr_retention_days_unflagged'' (ac_unflagged c) d);
               d = snd (seed_int_if_missing (flt ''alpr_retention_days_flagged'') ''alpr_retention_days_flagged'' (ac_flagged c) d)
           in snd (seed_int_if_missing (flt ''alpr_notify_min_severity'') ''alpr_notify_min_severity'' (ac_notify_min c) d)))"

section \<open>What a batch of rows leaves behind\<close>

lemma write_rows_look:
  assumes "write_rows flt rows d = (e, d')" and "distinct (map fst rows)"
  shows "db_get_setting d' k = db_get_setting d k \<and> (e = None \<longrightarrow> k \<notin> fst ` set rows)
    \<or> (\<exists>x. (k, x) \<in> set rows \<and> db_get_setting d' k = Some x)"
  using assms
proof (induction flt rows d rule: write_rows.induct)
  case (1 flt d)
  then show ?case by simp
next
  case (2 flt k0 x rows d)
  show ?case
  proof (cases "set_setting (flt k0) k0 x d")
    case (Pair r d1)
    show ?thesis
    proof (cases r)
      case (Some e1)
      with 2(2) Pair have "d' = d" "e \<noteq> None" by (auto simp: set_setting_def split: if_splits)
      then show ?thesis by auto
    next
      case None
      with Pair have d1: "d1 = db_upsert_setting k0 x d" by (auto simp: set_setting_def split: if_splits)
      from 2(1) [OF Pair [symmetric] None] 2(2,3) Pair None
      have "db_get_setting d' k = db_get_setting d1 k \<and> (e = None \<longrightarrow> k \<notin> fst ` set rows)
          \<or> (\<exists>y. (k, y) \<in> set rows \<and> db_get_setting d' k = Some y)" by simp
      then show ?thesis by (simp add: d1 setting_table.look_put) metis
    qed
  qed
qed

lemma write_rows_other:
  "write_rows flt rows d = (e, d') \<Longrightarrow> k \<notin> fst ` set rows \<Longrightarrow> db_get_setting d' k = db_get_setting d k"
proof (induction flt rows d rule: write_rows.induct)
  case (2 flt k0 x rows d)
  then show ?case
    by (cases "set_setting (flt k0) k0 x d") (auto simp: set_setting_def setting_table.look_put split: if_splits option.splits)
qed simp

lemma write_rows_done:
  assumes "write_rows flt rows d = (None, d')" and "distinct (map fst rows)" and "(k, x) \<in> set rows"
  shows "db_get_setting d' k = Some x"
proof -
  have "k \<in> fst ` set rows" using assms(3) by force
  then obtain y where "(k, y) \<in> set rows" "db_get_setting d' k = Some y"
    using write_rows_look [OF assms(1,2), of k] by auto
  then show ?thesis using assms(2,3) eq_key_imp_eq_value [of rows k y x] by simp
qed

lemma write_rows_error: "write_rows flt rows d = (e, d') \<Longrightarrow> e = None \<or> e = Some SettingDbError"
  by (induction flt rows d rule: write_rows.induct) (auto simp: set_setting_def split: if_splits)

lemma write_rows_no_faults: "write_rows (\<lambda>_ _. False) rows d = (None, fold (\<lambda>(k, x). db_upsert_setting k x) rows d)"
  by (induction rows arbitrary: d) (auto simp: set_setting_def)

section \<open>The enable gate is never bypassed\<close>

text \<open>The operator has acknowledged the current version, at a time that can be read.\<close>

definition disclaimer_stored :: "settings_db \<Rightarrow> bool" where
  "disclaimer_stored d \<longleftrightarrow>
     db_get_setting d ''alpr_disclaimer_version'' = Some disclaimer_version
     \<and> (case db_get_setting d ''alpr_disclaimer_acked_at'' of None \<Rightarrow> False | Some raw \<Rightarrow> parse_rfc3339 raw \<noteq> None)"

definition alpr_gated :: "alpr_config option \<Rightarrow> settings_db \<Rightarrow> bool" where
  "alpr_gated cfg d \<longleftrightarrow>
     (alpr_gate (\<lambda>_. False) (Some d) \<longrightarrow> encryption_key_configured cfg \<and> disclaimer_stored d)"

lemma gate_row: "alpr_gate (\<lambda>_. False) (Some d) \<longleftrightarrow> (case db_get_setting d ''alpr_enabled'' of None \<Rightarrow> False | Some raw \<Rightarrow> parse_bool raw = Some True)"
  by (auto simp: alpr_gate_def bool_or_def get_bool_setting_def get_setting_def or_default_def split: option.splits)

lemma string_or_read:
  "string_or flt k def d = (v, None) \<Longrightarrow> (case db_get_setting d k of None \<Rightarrow> v = def | Some x \<Rightarrow> v = x)"
  by (auto simp: string_or_def get_setting_def or_default_def split: if_splits option.splits sum.splits)

lemma time_or_zero_read:
  "time_or_zero flt k d = Inr r \<Longrightarrow> (case db_get_setting d k of None \<Rightarrow> r = None | Some x \<Rightarrow> \<exists>t. parse_rfc3339 x = Some t \<and> r = Some t)"
  by (cases "db_get_setting d k"; cases "parse_rfc3339 (the (db_get_setting d k))")
    (auto simp: time_or_zero_def get_time_setting_def get_setting_def split: if_splits)

lemma no_prerequisite_missing:
  assumes "missing_enable_prerequisites flt cfg d = Inr []"
  shows "encryption_key_configured cfg \<and> disclaimer_stored d"
proof -
  from assms have key: "encryption_key_configured cfg" and ok: "disclaimer_satisfied flt d = Inr True"
    by (auto simp: missing_enable_prerequisites_def split: sum.splits if_splits)
  from ok obtain acked where v: "string_or (flt ''alpr_disclaimer_version'') ''alpr_disclaimer_version'' [] d = (disclaimer_version, None)"
    and t: "time_or_zero (flt ''alpr_disclaimer_acked_at'') ''alpr_disclaimer_acked_at'' d = Inr (Some acked)"
    by (auto simp: disclaimer_satisfied_def or_bind_def split: prod.splits option.splits if_splits sum.splits)
  have "disclaimer_version \<noteq> []" by (simp add: disclaimer_version_def)
  with string_or_read [OF v] time_or_zero_read [OF t] show ?thesis
    using key by (auto simp: disclaimer_stored_def split: option.splits)
qed

lemma alpr_rows_keys:
  "fst ` set (alpr_rows q) \<subseteq> {''alpr_enabled'', ''alpr_region'', ''alpr_frames_per_second'', ''alpr_confidence_min'',
     ''alpr_retention_days_unflagged'', ''alpr_retention_days_flagged'', ''alpr_notify_min_severity''}"
  by (auto simp: alpr_rows_def row_of_def split: option.splits)

lemma alpr_rows_distinct: "distinct (map fst (alpr_rows q))"
  by (simp add: alpr_rows_def row_of_def split: option.splits)

lemma disclaimer_frame:
  assumes "db_get_setting d' ''alpr_disclaimer_version'' = db_get_setting d ''alpr_disclaimer_version''"
    and "db_get_setting d' ''alpr_disclaimer_acked_at'' = db_get_setting d ''alpr_disclaimer_acked_at''"
  shows "disclaimer_stored d' = disclaimer_stored d"
  using assms by (simp add: disclaimer_stored_def)

lemma gated_frame:
  assumes "alpr_gated cfg d" and "\<And>k. k \<in> {''alpr_enabled'', ''alpr_disclaimer_version'', ''alpr_disclaimer_acked_at''} \<Longrightarrow> db_get_setting d' k = db_get_setting d k"
  shows "alpr_gated cfg d'"
  using assms by (simp add: alpr_gated_def gate_row disclaimer_stored_def)

lemma set_alpr_gated:
  assumes "set_alpr v cfg body s = (r, s')" and inv: "alpr_gated cfg (as_store s)"
  shows "alpr_gated cfg (as_store s')"
proof (cases "as_store s' = as_store s")
  case True
  then show ?thesis using inv by simp
next
  case False
  then obtain q where q: "apply_alpr v cfg q s = (r, s')"
    and en: "aq_enabled q = Some True \<Longrightarrow> encryption_key_configured cfg \<and> disclaimer_stored (as_store s)"
    using assms(1) by (auto simp: set_alpr_def split: option.splits if_splits sum.splits dest: no_prerequisite_missing)
  obtain e d where w: "write_rows (sc_write v) (alpr_rows q) (as_store s) = (e, d)" by fastforce
  have d: "as_store s' = d" using q w by (auto simp: apply_alpr_def split: option.splits sum.splits prod.splits)
  have same: "db_get_setting d k = db_get_setting (as_store s) k" if "k \<notin> fst ` set (alpr_rows q)" for k
    using write_rows_other [OF w that] .
  have "k \<notin> fst ` set (alpr_rows q)" if "k \<in> {''alpr_disclaimer_version'', ''alpr_disclaimer_acked_at''}" for k
    using subsetD [OF alpr_rows_keys [of q], of k] that by fastforce
  then have disc: "disclaimer_stored d = disclaimer_stored (as_store s)"
    by (intro disclaimer_frame same) simp_all
  show ?thesis
  proof (cases "aq_enabled q = Some True")
    case True
    with en disc show ?thesis by (simp add: d alpr_gated_def)
  next
    case False
    have rows: "x = ''false''" if "(''alpr_enabled'', x) \<in> set (alpr_rows q)" for x
      using False that by (auto simp: alpr_rows_def row_of_def show_bool_def split: option.splits)
    have "db_get_setting d ''alpr_enabled'' \<in> {db_get_setting (as_store s) ''alpr_enabled'', Some ''false''}"
      using write_rows_look [OF w alpr_rows_distinct, of "''alpr_enabled''"] rows by auto
    then have "alpr_gate (\<lambda>_. False) (Some d) \<Longrightarrow> alpr_gate (\<lambda>_. False) (Some (as_store s))"
      by (auto simp: gate_row parse_bool_def)
    with inv disc show ?thesis by (auto simp: d alpr_gated_def)
  qed
qed

definition clock_readable :: "gotime \<Rightarrow> bool" where
  "clock_readable t \<longleftrightarrow> (case civil_of_days (t div second div 86400) of (y, _, _) \<Rightarrow> 0 \<le> y \<and> y \<le> 9999)"

lemma clock_reads_back: "clock_readable t \<Longrightarrow> parse_rfc3339 (format_rfc3339 t) = Some (t - t mod second)"
  using rfc3339_reads_back [of t] by (auto simp: clock_readable_def)

lemma as_store_audit [simp]: "as_store (insert_settings_audit v a p s) = as_store s"
  by (simp add: insert_settings_audit_def split: option.splits)

lemma as_store_superseded [simp]: "as_store (ack_superseded v p a j s) = as_store s"
  by (simp add: ack_superseded_def split: option.splits)

lemma ack_write_store:
  "ack_write v j s = (r, s') \<Longrightarrow> \<exists>e. write_rows (sc_write v) (ack_rows (sc_now v) j) (as_store s) = (e, as_store s')"
  by (auto simp: ack_write_def split: option.splits prod.splits)

lemma ack_disclaimer_cases:
  "snd (ack_disclaimer v body s) = s \<or> (\<exists>j p a pj. ack_disclaimer v body s = ack_write v j (ack_superseded v p a pj s))"
proof (cases body)
  case (Some b)
  then show ?thesis
    by (cases b; simp add: ack_disclaimer_def split: option.split sum.split prod.split) blast
qed (simp add: ack_disclaimer_def)

lemma ack_disclaimer_store:
  assumes "ack_disclaimer v body s = (r, s')"
  shows "as_store s' = as_store s
    \<or> (\<exists>j e. write_rows (sc_write v) (ack_rows (sc_now v) j) (as_store s) = (e, as_store s'))"
  using ack_disclaimer_cases [of v body s]
proof
  assume "\<exists>j p a pj. ack_disclaimer v body s = ack_write v j (ack_superseded v p a pj s)"
  then obtain j p a pj where "ack_write v j (ack_superseded v p a pj s) = (r, s')" using assms by auto
  from ack_write_store [OF this] show ?thesis by auto
qed (use assms in simp)

lemma ack_disclaimer_gated:
  assumes "ack_disclaimer v body s = (r, s')" and inv: "alpr_gated cfg (as_store s)" and "clock_readable (sc_now v)"
  shows "alpr_gated cfg (as_store s')"
proof (cases "as_store s' = as_store s")
  case True
  then show ?thesis using inv by simp
next
  case False
  then obtain j e where w: "write_rows (sc_write v) (ack_rows (sc_now v) j) (as_store s) = (e, as_store s')"
    using ack_disclaimer_store [OF assms(1)] by blast
  have dist: "distinct (map fst (ack_rows (sc_now v) j))" by (simp add: ack_rows_def)
  have "alpr_gate (\<lambda>_. False) (Some (as_store s')) = alpr_gate (\<lambda>_. False) (Some (as_store s))"
    using write_rows_other [OF w, of "''alpr_enabled''"] by (simp add: gate_row ack_rows_def)
  moreover have "disclaimer_stored (as_store s')" if "disclaimer_stored (as_store s)"
    using write_rows_look [OF w dist, of "''alpr_disclaimer_version''"] write_rows_look [OF w dist, of "''alpr_disclaimer_acked_at''"]
      that clock_reads_back [OF assms(3)]
    by (auto simp: disclaimer_stored_def ack_rows_def split: option.splits)
  ultimately show ?thesis using inv by (simp add: alpr_gated_def)
qed

lemma seed_if_missing_other: "k' \<noteq> k \<Longrightarrow> db_get_setting (seed_if_missing flt k x d) k' = db_get_setting d k'"
  by (auto simp: seed_if_missing_def set_setting_def setting_table.look_put split: sum.splits)

lemma seed_int_other: "k' \<noteq> k \<Longrightarrow> db_get_setting (snd (seed_int_if_missing flt k n d)) k' = db_get_setting d k'"
  by (auto simp: seed_int_if_missing_def db_insert_setting_if_missing_def db_get_setting_def split: option.splits)

lemma seed_alpr_gated:
  assumes "alpr_gated cfg d"
  shows "alpr_gated cfg (seed_alpr_defaults flt cfg d)"
  using assms
  by (rule gated_frame) (auto simp: seed_alpr_defaults_def Let_def seed_if_missing_other seed_int_other split: option.splits)

section \<open>What a successful PUT reports\<close>

text \<open>A read that succeeded would have succeeded without faults, with the same value.\<close>

lemma fault_free_reads:
  "bool_or f k b d = (x, None) \<Longrightarrow> bool_or (\<lambda>_. False) k b d = (x, None)"
  "string_or f k t d = (y, None) \<Longrightarrow> string_or (\<lambda>_. False) k t d = (y, None)"
  "float_or f k r d = (z, None) \<Longrightarrow> float_or (\<lambda>_. False) k r d = (z, None)"
  "int_or f k n d = (i, None) \<Longrightarrow> int_or (\<lambda>_. False) k n d = (i, None)"
  "time_or_zero f k d = Inr a \<Longrightarrow> time_or_zero (\<lambda>_. False) k d = Inr a"
  by (auto simp: bool_or_def string_or_def float_or_def int_or_def time_or_zero_def get_bool_setting_def
      get_float_setting_def get_int_setting_def get_time_setting_def get_setting_def or_default_def split: if_splits)

lemma or_bind_Inr: "or_bind r f = Inr y \<longleftrightarrow> (\<exists>x. r = (x, None) \<and> f x = Inr y)"
  by (cases r) (auto simp: or_bind_def split: option.splits)

lemma sum_bind_Inr: "(case r of Inl e \<Rightarrow> Inl e | Inr x \<Rightarrow> f x) = Inr y \<longleftrightarrow> (\<exists>x. r = Inr x \<and> f x = Inr y)"
  by (cases r) simp_all

lemma fault_free_settings:
  assumes "effective_settings flt cfg d = Inr st"
  shows "effective_settings (\<lambda>_ _. False) cfg d = Inr st"
  using assms unfolding effective_settings_def Let_def
  by (simp only: or_bind_Inr sum_bind_Inr) (elim exE conjE, simp add: fault_free_reads)

text \<open>The settings with the fields of the request over them.\<close>

definition given :: "'a option \<Rightarrow> 'a \<Rightarrow> 'a" where
  "given new old = (case new of None \<Rightarrow> old | Some x \<Rightarrow> x)"

lemma given_simps [simp]: "given None y = y" "given (Some x) y = x"
  by (simp_all add: given_def)

definition merged_status :: "alpr_request \<Rightarrow> alpr_status \<Rightarrow> alpr_status" where
  "merged_status q st = st\<lparr>
     st_enabled := given (aq_enabled q) (st_enabled st),
     st_region := given (aq_region q) (st_region st),
     st_fps := given (aq_fps q) (st_fps st),
     st_conf := given (aq_conf q) (st_conf st),
     st_unflagged := given (aq_unflagged q) (st_unflagged st),
     st_flagged := given (aq_flagged q) (st_flagged st),
     st_notify_min := given (aq_notify_min q) (st_notify_min st)\<rparr>"

text \<open>The numbers of a body are float64 and int values.\<close>

definition request_fits :: "alpr_request \<Rightarrow> bool" where
  "request_fits q \<longleftrightarrow> pred_option is_decimal (aq_fps q) \<and> pred_option is_decimal (aq_conf q)
     \<and> pred_option in_int64 (aq_unflagged q) \<and> pred_option in_int64 (aq_flagged q) \<and> pred_option in_int64 (aq_notify_min q)"

lemma get_setting_no_fault: "get_setting (\<lambda>_. False) k d = (case db_get_setting d k of None \<Rightarrow> Inl SettingNotFound | Some x \<Rightarrow> Inr x)"
  by (simp add: get_setting_def)

lemma written_reads:
  "(case v of None \<Rightarrow> db_get_setting d' k = db_get_setting d k | Some x \<Rightarrow> db_get_setting d' k = Some (show_bool x))
    \<Longrightarrow> bool_or (\<lambda>_. False) k b d = (o1, None) \<Longrightarrow> bool_or (\<lambda>_. False) k b d' = (given v o1, None)"
  "(case t of None \<Rightarrow> db_get_setting d' k = db_get_setting d k | Some x \<Rightarrow> db_get_setting d' k = Some x)
    \<Longrightarrow> string_or (\<lambda>_. False) k c d = (o2, None) \<Longrightarrow> string_or (\<lambda>_. False) k c d' = (given t o2, None)"
  "(case r of None \<Rightarrow> db_get_setting d' k = db_get_setting d k | Some x \<Rightarrow> db_get_setting d' k = Some (format_float x))
    \<Longrightarrow> pred_option is_decimal r
    \<Longrightarrow> float_or (\<lambda>_. False) k e d = (o3, None) \<Longrightarrow> float_or (\<lambda>_. False) k e d' = (given r o3, None)"
  "(case n of None \<Rightarrow> db_get_setting d' k = db_get_setting d k | Some x \<Rightarrow> db_get_setting d' k = Some (show_int x))
    \<Longrightarrow> pred_option in_int64 n
    \<Longrightarrow> int_or (\<lambda>_. False) k m d = (o4, None) \<Longrightarrow> int_or (\<lambda>_. False) k m d' = (given n o4, None)"
     apply (cases v; simp add: bool_or_def typed_rows bool_row.stored_or bool_row.same_row [of d' k d])
    apply (cases t; simp add: string_or_def get_setting_no_fault or_default_def)
   apply (cases r; simp add: float_or_def typed_rows float_row.stored_or float_row.same_row [of d' k d])
  apply (cases n; simp add: int_or_def typed_rows int_row.stored_or int_row.same_row [of d' k d])
  done

text \<open>What a batch of optional rows does to each of its keys.\<close>

lemma row_written:
  assumes "write_rows flt rows d = (None, d')" and "distinct (map fst rows)"
    and "v = None \<Longrightarrow> k \<notin> fst ` set rows" and "\<And>x. v = Some x \<Longrightarrow> (k, enc x) \<in> set rows"
  shows "case v of None \<Rightarrow> db_get_setting d' k = db_get_setting d k | Some x \<Rightarrow> db_get_setting d' k = Some (enc x)"
  using write_rows_other [OF assms(1)] write_rows_done [OF assms(1,2)] assms(3,4) by (cases v) auto

lemma effective_after_rows:
  assumes w: "write_rows flt (alpr_rows q) d = (None, d')" and st0: "effective_settings (\<lambda>_ _. False) cfg d = Inr st0"
    and fits: "request_fits q"
  shows "effective_settings (\<lambda>_ _. False) cfg d' = Inr (merged_status q st0)"
proof -
  note row = row_written [OF w alpr_rows_distinct]
  have b: "case aq_enabled q of None \<Rightarrow> db_get_setting d' ''alpr_enabled'' = db_get_setting d ''alpr_enabled'' | Some x \<Rightarrow> db_get_setting d' ''alpr_enabled'' = Some (show_bool x)"
    by (rule row) (auto simp: alpr_rows_def row_of_def split: option.splits)
  have r: "case aq_region q of None \<Rightarrow> db_get_setting d' ''alpr_region'' = db_get_setting d ''alpr_region'' | Some x \<Rightarrow> db_get_setting d' ''alpr_region'' = Some x"
    by (rule row) (auto simp: alpr_rows_def row_of_def split: option.splits)
  have f: "case aq_fps q of None \<Rightarrow> db_get_setting d' ''alpr_frames_per_second'' = db_get_setting d ''alpr_frames_per_second'' | Some x \<Rightarrow> db_get_setting d' ''alpr_frames_per_second'' = Some (format_float x)"
    by (rule row) (auto simp: alpr_rows_def row_of_def split: option.splits)
  have c: "case aq_conf q of None \<Rightarrow> db_get_setting d' ''alpr_confidence_min'' = db_get_setting d ''alpr_confidence_min'' | Some x \<Rightarrow> db_get_setting d' ''alpr_confidence_min'' = Some (format_float x)"
    by (rule row) (auto simp: alpr_rows_def row_of_def split: option.splits)
  have u: "case aq_unflagged q of None \<Rightarrow> db_get_setting d' ''alpr_retention_days_unflagged'' = db_get_setting d ''alpr_retention_days_unflagged'' | Some x \<Rightarrow> db_get_setting d' ''alpr_retention_days_unflagged'' = Some (show_int x)"
    by (rule row) (auto simp: alpr_rows_def row_of_def split: option.splits)
  have g: "case aq_flagged q of None \<Rightarrow> db_get_setting d' ''alpr_retention_days_flagged'' = db_get_setting d ''alpr_retention_days_flagged'' | Some x \<Rightarrow> db_get_setting d' ''alpr_retention_days_flagged'' = Some (show_int x)"
    by (rule row) (auto simp: alpr_rows_def row_of_def split: option.splits)
  have n: "case aq_notify_min q of None \<Rightarrow> db_get_setting d' ''alpr_notify_min_severity'' = db_get_setting d ''alpr_notify_min_severity'' | Some x \<Rightarrow> db_get_setting d' ''alpr_notify_min_severity'' = Some (show_int x)"
    by (rule row) (auto simp: alpr_rows_def row_of_def split: option.splits)
  have other: "db_get_setting d' k = db_get_setting d k"
    if "k \<in> {''alpr_disclaimer_acked_at'', ''alpr_disclaimer_version'', ''alpr_disclaimer_acked_jurisdiction''}" for k
    by (rule write_rows_other [OF w]) (use that subsetD [OF alpr_rows_keys [of q], of k] in fastforce)
  have same: "time_or_zero (\<lambda>_. False) ''alpr_disclaimer_acked_at'' d' = time_or_zero (\<lambda>_. False) ''alpr_disclaimer_acked_at'' d"
    "string_or (\<lambda>_. False) ''alpr_disclaimer_version'' [] d' = string_or (\<lambda>_. False) ''alpr_disclaimer_version'' [] d"
    "string_or (\<lambda>_. False) ''alpr_disclaimer_acked_jurisdiction'' [] d' = string_or (\<lambda>_. False) ''alpr_disclaimer_acked_jurisdiction'' [] d"
    by (simp_all add: time_or_zero_def get_time_setting_def string_or_def get_setting_no_fault other)
  define c0 where "c0 = (case cfg of None \<Rightarrow> no_config | Some c \<Rightarrow> c)"
  from st0 obtain x1 x2 x3 x4 x5 x6 x7 a ver ju where
    old: "bool_or (\<lambda>_. False) ''alpr_enabled'' False d = (x1, None)"
      "string_or (\<lambda>_. False) ''alpr_region'' (ac_region c0) d = (x2, None)"
      "float_or (\<lambda>_. False) ''alpr_frames_per_second'' (ac_fps c0) d = (x3, None)"
      "float_or (\<lambda>_. False) ''alpr_confidence_min'' (ac_conf c0) d = (x4, None)"
      "int_or (\<lambda>_. False) ''alpr_retention_days_unflagged'' (ac_unflagged c0) d = (x5, None)"
      "int_or (\<lambda>_. False) ''alpr_retention_days_flagged'' (ac_flagged c0) d = (x6, None)"
      "int_or (\<lambda>_. False) ''alpr_notify_min_severity'' (ac_notify_min c0) d = (x7, None)"
      "time_or_zero (\<lambda>_. False) ''alpr_disclaimer_acked_at'' d = Inr a"
      "string_or (\<lambda>_. False) ''alpr_disclaimer_version'' [] d = (ver, None)"
      "string_or (\<lambda>_. False) ''alpr_disclaimer_acked_jurisdiction'' [] d = (ju, None)"
    unfolding effective_settings_def Let_def or_bind_Inr sum_bind_Inr c0_def by blast
  have fit: "pred_option is_decimal (aq_fps q)" "pred_option is_decimal (aq_conf q)" "pred_option in_int64 (aq_unflagged q)"
    "pred_option in_int64 (aq_flagged q)" "pred_option in_int64 (aq_notify_min q)"
    using fits by (simp_all add: request_fits_def)
  note new = written_reads(1) [OF b old(1)] written_reads(2) [OF r old(2)] written_reads(3) [OF f fit(1) old(3)]
    written_reads(3) [OF c fit(2) old(4)] written_reads(4) [OF u fit(3) old(5)] written_reads(4) [OF g fit(4) old(6)]
    written_reads(4) [OF n fit(5) old(7)]
  have step: "or_bind (v, None) h = h v" for v and h :: "'x \<Rightarrow> setting_error + alpr_status"
    by (simp add: or_bind_def)
  show ?thesis
    using st0 by (simp only: effective_settings_def Let_def c0_def [symmetric] old new step same sum.case)
      (auto simp: merged_status_def)
qed

lemma missing_exact:
  assumes "missing_enable_prerequisites flt cfg d = Inr m"
  shows "m = (if encryption_key_configured cfg then [] else [''encryption_key''])
     @ (if disclaimer_stored d then [] else [''disclaimer''])"
proof -
  have "disclaimer_stored d = ok" if "disclaimer_satisfied flt d = Inr ok" for ok
  proof -
    from that obtain ver where v: "string_or (flt ''alpr_disclaimer_version'') ''alpr_disclaimer_version'' [] d = (ver, None)"
      and t: "(if ver \<noteq> disclaimer_version then Inr False
        else case time_or_zero (flt ''alpr_disclaimer_acked_at'') ''alpr_disclaimer_acked_at'' d of Inl e \<Rightarrow> Inl e | Inr a \<Rightarrow> Inr (a \<noteq> None)) = Inr ok"
      unfolding disclaimer_satisfied_def or_bind_Inr by blast
    have ne: "disclaimer_version \<noteq> []" by (simp add: disclaimer_version_def)
    show ?thesis
    proof (cases "ver = disclaimer_version")
      case True
      then obtain a where a: "time_or_zero (flt ''alpr_disclaimer_acked_at'') ''alpr_disclaimer_acked_at'' d = Inr a" "ok = (a \<noteq> None)"
        using t by (auto simp: sum_bind_Inr)
      show ?thesis using string_or_read [OF v] time_or_zero_read [OF a(1)] a(2) True ne
        by (auto simp: disclaimer_stored_def split: option.splits)
    next
      case False
      then show ?thesis using string_or_read [OF v] t by (auto simp: disclaimer_stored_def split: option.splits)
    qed
  qed
  then show ?thesis using assms by (auto simp: missing_enable_prerequisites_def split: sum.splits)
qed

section \<open>Properties\<close>

text \<open>\<open>PUT /v1/settings/alpr\<close>, whatever statement fails. A success answers the effective settings with
  exactly the fields of the body over them, all within their bounds; a rejected body and a refused
  enable change nothing; the refusal lists exactly the prerequisites that are missing; and after a failure in the batch every row is
  the old one or the one the body asked for.\<close>

theorem alpr_put_exact:
  assumes "set_alpr v cfg (Some q) s = (r, s')"
    and "effective_settings (\<lambda>_ _. False) cfg (as_store s) = Inr st0" and "request_fits q"
  shows "(case r of
      AlprStatus st \<Rightarrow> st = (merged_status q st0)\<lparr>st_reachable := st_reachable st\<rparr> \<and> alpr_bounds_error q = None
        \<and> effective_settings (\<lambda>_ _. False) cfg (as_store s') = Inr (merged_status q st0)
    | AlprMissing _ missing _ \<Rightarrow> s' = s \<and> aq_enabled q = Some True \<and> missing \<noteq> []
        \<and> (''encryption_key'' \<in> set missing \<longleftrightarrow> \<not> encryption_key_configured cfg)
        \<and> (''disclaimer'' \<in> set missing \<longleftrightarrow> \<not> disclaimer_stored (as_store s))
    | AlprErr code _ \<Rightarrow> code = 400 \<and> s' = s
        \<or> code = 500 \<and> (\<forall>k. db_get_setting (as_store s') k = db_get_setting (as_store s) k
                  \<or> (\<exists>x. (k, x) \<in> set (alpr_rows q) \<and> db_get_setting (as_store s') k = Some x))
    | _ \<Rightarrow> False) \<and> as_audit s' = as_audit s"
proof (cases "alpr_bounds_error q = None \<and> apply_alpr v cfg q s = (r, s')")
  case True
  obtain e d where w: "write_rows (sc_write v) (alpr_rows q) (as_store s) = (e, d)" by fastforce
  note look = write_rows_look [OF w alpr_rows_distinct]
  have e: "e = None \<or> settings_db_error (the e) = (500, ''failed to update alpr setting'')"
    using write_rows_error [OF w] by (cases e) (auto simp: settings_db_error_def)
  show ?thesis
  proof (cases "e = None \<and> (\<exists>st. effective_settings (sc_after v) cfg d = Inr st)")
    case True
    then obtain st where st: "e = None" "effective_settings (sc_after v) cfg d = Inr st" by blast
    have new: "effective_settings (\<lambda>_ _. False) cfg d = Inr (merged_status q st0)"
      using effective_after_rows [of "sc_write v" q] w st(1) assms(2,3) by blast
    moreover have "st = merged_status q st0" using fault_free_settings [OF st(2)] new by simp
    ultimately show ?thesis
      using \<open>_ \<and> apply_alpr v cfg q s = (r, s')\<close> w st by (auto simp: apply_alpr_def split: prod.splits)
  next
    case False
    then obtain msg where "r = AlprErr 500 msg" "s' = s\<lparr>as_store := d\<rparr>"
      using \<open>_ \<and> apply_alpr v cfg q s = (r, s')\<close> w e by (auto simp: apply_alpr_def split: option.splits sum.splits)
    then show ?thesis using look by auto
  qed
next
  case False
  then show ?thesis
    using assms(1)
    by (auto simp: set_alpr_def split: option.splits if_splits sum.splits dest!: missing_exact)
qed

definition demo_alpr_cfg :: alpr_config where
  "demo_alpr_cfg = \<lparr>ac_engine_url = ''http://alpr:8081'', ac_region = ''us'', ac_fps = 2, ac_conf = 3 / 4,
     ac_key_b64 = replicate 43 (CHR ''A''), ac_unflagged = 30, ac_flagged = 365, ac_notify_min = 4\<rparr>"

definition demo_alpr_srv :: alpr_srv where
  "demo_alpr_srv = \<lparr>as_store = [''alpr_disclaimer_version'' \<mapsto> disclaimer_version, ''alpr_disclaimer_acked_at'' \<mapsto> ''2026-05-01T10:00:00Z''],
     as_audit = Some [], as_probe = \<lparr>pr_last = zero_time, pr_ok = False, pr_endpoint = ''http://alpr:8081''\<rparr>\<rparr>"

definition demo_settings_call :: settings_call where
  "demo_settings_call = \<lparr>sc_before = (\<lambda>_ _. False), sc_write = (\<lambda>_ _. False), sc_after = (\<lambda>_ _. False),
     sc_audit_fault = (\<lambda>_. False), sc_ctx = \<lparr>cx_user = Some 1, cx_mode = Some ModeSession, cx_dongle = None\<rparr>,
     sc_now = 1785844805000000000, sc_health = Some 200\<rparr>"

definition demo_alpr_put :: alpr_request where
  "demo_alpr_put = \<lparr>aq_enabled = Some True, aq_region = None, aq_fps = Some (5 / 2), aq_conf = None,
     aq_unflagged = None, aq_flagged = None, aq_notify_min = Some 3\<rparr>"

definition demo_effective :: alpr_status where
  "demo_effective = \<lparr>st_enabled = False, st_engine_url = ''http://alpr:8081'', st_region = ''us'', st_fps = 2,
     st_conf = 3 / 4, st_unflagged = 30, st_flagged = 365, st_notify_min = 4, st_key = True, st_reachable = False,
     st_required = False, st_version = disclaimer_version, st_acked_at = Some ''2026-05-01T10:00:00Z'', st_jurisdiction = None\<rparr>"

lemma demo_key: "encryption_key_configured (Some demo_alpr_cfg)"
proof -
  have "all_some (replicate n (Some x)) = Some (replicate n x)" for n and x :: nat by (induction n) simp_all
  then have dec: "b64_dec (replicate n (CHR ''A'')) = unsextets (replicate n 0)" for n
    by (simp add: b64_dec_def b64_val_def)
  have "unsextets (replicate (Suc (Suc (Suc (4 * n)))) 0) = Some (replicate (Suc (Suc (3 * n))) (char_of (0 :: nat)))" for n
  proof (induction n)
    case (Suc n)
    have eq: "4 * Suc n = Suc (Suc (Suc (Suc (4 * n))))" "3 * Suc n = Suc (Suc (Suc (3 * n)))" by simp_all
    show ?case unfolding eq using Suc.IH by simp
  qed simp
  from dec [of 43] this [of 10] have raw: "b64_dec (replicate 43 (CHR ''A'')) = Some (replicate 32 (char_of (0 :: nat)))" by simp
  have "b64_pad_dec (replicate 43 (CHR ''A'')) = None" by (simp add: b64_pad_dec_def Let_def)
  then show ?thesis by (simp add: encryption_key_configured_def demo_alpr_cfg_def std_letter_def raw)
qed

lemma demo_ack_time: "parse_rfc3339 ''2026-05-01T10:00:00Z'' = Some 1777629600000000000"
  "format_rfc3339 1777629600000000000 = ''2026-05-01T10:00:00Z''"
  by code_simp+

lemmas setting_readers = bool_or_def string_or_def float_or_def int_or_def time_or_zero_def get_bool_setting_def
  get_float_setting_def get_int_setting_def get_time_setting_def get_setting_def db_get_setting_def or_default_def or_bind_def

lemma demo_effective_settings: "effective_settings (\<lambda>_ _. False) (Some demo_alpr_cfg) (as_store demo_alpr_srv) = Inr demo_effective"
  by (simp add: effective_settings_def setting_readers demo_key demo_ack_time demo_effective_def demo_alpr_srv_def)
    (simp add: demo_alpr_cfg_def)

lemma demo_fits: "request_fits demo_alpr_put"
  by (simp add: request_fits_def demo_alpr_put_def is_decimal_def decimal_places.simps in_int64_def)

lemma demo_put_succeeds:
  "\<exists>s'. apply_alpr demo_settings_call (Some demo_alpr_cfg) demo_alpr_put demo_alpr_srv = (AlprStatus ((merged_status demo_alpr_put demo_effective)\<lparr>st_reachable := True\<rparr>), s')"
proof -
  obtain d where w: "write_rows (\<lambda>_ _. False) (alpr_rows demo_alpr_put) (as_store demo_alpr_srv) = (None, d)"
    by (simp add: write_rows_no_faults)
  note effective_after_rows [OF w demo_effective_settings demo_fits]
  with w show ?thesis
    by (simp add: apply_alpr_def demo_settings_call_def probe_check_def demo_alpr_srv_def)
qed

theorem alpr_put_exact_witness:
  "fst (set_alpr demo_settings_call (Some demo_alpr_cfg) (Some demo_alpr_put) demo_alpr_srv)
     = AlprStatus ((merged_status demo_alpr_put demo_effective)\<lparr>st_reachable := True\<rparr>)"
proof -
  have "missing_enable_prerequisites (sc_before demo_settings_call) (Some demo_alpr_cfg) (as_store demo_alpr_srv) = Inr []"
    by (simp add: missing_enable_prerequisites_def disclaimer_satisfied_def setting_readers demo_key demo_ack_time
        demo_settings_call_def demo_alpr_srv_def)
  moreover have "alpr_bounds_error demo_alpr_put = None" "aq_enabled demo_alpr_put = Some True"
    by (simp_all add: alpr_bounds_error_def demo_alpr_put_def)
  ultimately have "set_alpr demo_settings_call (Some demo_alpr_cfg) (Some demo_alpr_put) demo_alpr_srv
      = apply_alpr demo_settings_call (Some demo_alpr_cfg) demo_alpr_put demo_alpr_srv"
    by (simp add: set_alpr_def)
  with demo_put_succeeds obtain st s' where r: "set_alpr demo_settings_call (Some demo_alpr_cfg) (Some demo_alpr_put) demo_alpr_srv = (AlprStatus st, s')"
    and "st_reachable st" by fastforce
  with alpr_put_exact [OF r demo_effective_settings demo_fits] show ?thesis by simp
qed

end
