(* ===== verification/AlprTuning.thy ===== *)
theory AlprTuning imports AlprSettings begin

text \<open>
  The tuning endpoints of \<open>internal/api/settings_alpr_tuning.go\<close>: thirteen knobs, read with a default,
  written in one batch of rows after a validation of the whole proposed configuration, each change
  audited. The rows are those the heuristic worker, the aggregator and the extractor read.
\<close>

section \<open>The knobs\<close>

record tuning =
  tu_fps :: real
  tu_conf :: real
  tu_gap :: real
  tu_turns :: int
  tu_persist :: real
  tu_routes :: int
  tu_areas :: int
  tu_cell :: real
  tu_sev2 :: real
  tu_sev3 :: real
  tu_sev4 :: real
  tu_sev5 :: real
  tu_notify :: int

record tuning_request =
  tr_fps :: "real option"
  tr_conf :: "real option"
  tr_gap :: "real option"
  tr_turns :: "int option"
  tr_persist :: "real option"
  tr_routes :: "int option"
  tr_areas :: "int option"
  tr_cell :: "real option"
  tr_sev2 :: "real option"
  tr_sev3 :: "real option"
  tr_sev4 :: "real option"
  tr_sev5 :: "real option"
  tr_notify :: "int option"

text \<open>The catalogue: key, default, bounds and whether the knob is an integer.\<close>

record knob =
  kn_key :: string
  kn_default :: real
  kn_min :: real
  kn_max :: real
  kn_int :: bool

definition mk_knob :: "string \<Rightarrow> real \<Rightarrow> real \<Rightarrow> real \<Rightarrow> bool \<Rightarrow> knob" where
  "mk_knob k def lo hi i = \<lparr>kn_key = k, kn_default = def, kn_min = lo, kn_max = hi, kn_int = i\<rparr>"

definition tuning_knobs :: "knob list" where
  "tuning_knobs =
     [mk_knob ''alpr_frames_per_second'' (2) (1 / 2) (4) False,
      mk_knob ''alpr_confidence_min'' (3 / 4) (1 / 2) (19 / 20) False,
      mk_knob ''alpr_encounter_gap_seconds'' (60) (15) (300) False,
      mk_knob ''alpr_heuristic_turns_min'' (of_int (th_turns_min default_thresholds)) (1) (8) True,
      mk_knob ''alpr_heuristic_persistence_minutes_mid'' (th_persist_mid default_thresholds) (3) (30) False,
      mk_knob ''alpr_heuristic_distinct_routes_min'' (of_int (th_routes_mid default_thresholds)) (2) (10) True,
      mk_knob ''alpr_heuristic_distinct_areas_min'' (of_int (th_areas_min default_thresholds)) (1) (5) True,
      mk_knob ''alpr_heuristic_area_cell_km'' (th_cell_km default_thresholds) (1) (20) False,
      mk_knob ''alpr_heuristic_severity_bucket_sev2'' (fst default_buckets) (0) (100) False,
      mk_knob ''alpr_heuristic_severity_bucket_sev3'' (fst (snd default_buckets)) (0) (100) False,
      mk_knob ''alpr_heuristic_severity_bucket_sev4'' (fst (snd (snd default_buckets))) (0) (100) False,
      mk_knob ''alpr_heuristic_severity_bucket_sev5'' (snd (snd (snd default_buckets))) (0) (100) False,
      mk_knob ''alpr_notify_min_severity'' (4) (2) (5) True]"

definition default_for :: "string \<Rightarrow> real" where
  "default_for k = (case find (\<lambda>n. kn_key n = k) tuning_knobs of None \<Rightarrow> 0 | Some n \<Rightarrow> kn_default n)"

definition tuning_defaults_map :: "(string \<times> tuned) list" where
  "tuning_defaults_map =
     map (\<lambda>n. (kn_key n, if kn_int n then TunedInt (trunc (kn_default n)) else TunedFloat (kn_default n))) tuning_knobs"

definition default_tuning :: tuning where
  "default_tuning = \<lparr>tu_fps = default_for ''alpr_frames_per_second'',
     tu_conf = default_for ''alpr_confidence_min'',
     tu_gap = default_for ''alpr_encounter_gap_seconds'',
     tu_turns = trunc (default_for ''alpr_heuristic_turns_min''),
     tu_persist = default_for ''alpr_heuristic_persistence_minutes_mid'',
     tu_routes = trunc (default_for ''alpr_heuristic_distinct_routes_min''),
     tu_areas = trunc (default_for ''alpr_heuristic_distinct_areas_min''),
     tu_cell = default_for ''alpr_heuristic_area_cell_km'',
     tu_sev2 = default_for ''alpr_heuristic_severity_bucket_sev2'',
     tu_sev3 = default_for ''alpr_heuristic_severity_bucket_sev3'',
     tu_sev4 = default_for ''alpr_heuristic_severity_bucket_sev4'',
     tu_sev5 = default_for ''alpr_heuristic_severity_bucket_sev5'',
     tu_notify = trunc (default_for ''alpr_notify_min_severity'')\<rparr>"

section \<open>Reading\<close>

definition tuned_float :: "(string \<Rightarrow> setting_query \<Rightarrow> bool) \<Rightarrow> settings_db \<Rightarrow> string \<Rightarrow> real \<times> setting_error option" where
  "tuned_float flt d k = float_or (flt k) k (default_for k) d"

definition tuned_int :: "(string \<Rightarrow> setting_query \<Rightarrow> bool) \<Rightarrow> settings_db \<Rightarrow> string \<Rightarrow> int \<times> setting_error option" where
  "tuned_int flt d k = int_or (flt k) k (trunc (default_for k)) d"

definition load_tuning :: "(string \<Rightarrow> setting_query \<Rightarrow> bool) \<Rightarrow> settings_db \<Rightarrow> setting_error + tuning" where
  "load_tuning flt d =
     or_bind (tuned_float flt d ''alpr_frames_per_second'') (\<lambda>fps.
     or_bind (tuned_float flt d ''alpr_confidence_min'') (\<lambda>conf.
     or_bind (tuned_float flt d ''alpr_encounter_gap_seconds'') (\<lambda>gap.
     or_bind (tuned_int flt d ''alpr_heuristic_turns_min'') (\<lambda>turns.
     or_bind (tuned_float flt d ''alpr_heuristic_persistence_minutes_mid'') (\<lambda>persist.
     or_bind (tuned_int flt d ''alpr_heuristic_distinct_routes_min'') (\<lambda>routes.
     or_bind (tuned_int flt d ''alpr_heuristic_distinct_areas_min'') (\<lambda>areas.
     or_bind (tuned_float flt d ''alpr_heuristic_area_cell_km'') (\<lambda>cell.
     or_bind (tuned_float flt d ''alpr_heuristic_severity_bucket_sev2'') (\<lambda>sev2.
     or_bind (tuned_float flt d ''alpr_heuristic_severity_bucket_sev3'') (\<lambda>sev3.
     or_bind (tuned_float flt d ''alpr_heuristic_severity_bucket_sev4'') (\<lambda>sev4.
     or_bind (tuned_float flt d ''alpr_heuristic_severity_bucket_sev5'') (\<lambda>sev5.
     or_bind (tuned_int flt d ''alpr_notify_min_severity'') (\<lambda>notify.
       Inr \<lparr>tu_fps = fps, tu_conf = conf, tu_gap = gap, tu_turns = turns, tu_persist = persist, tu_routes = routes, tu_areas = areas, tu_cell = cell, tu_sev2 = sev2, tu_sev3 = sev3, tu_sev4 = sev4, tu_sev5 = sev5, tu_notify = notify\<rparr>)))))))))))))"

section \<open>The proposed configuration and its validation\<close>

definition proposed_tuning :: "tuning \<Rightarrow> tuning_request \<Rightarrow> tuning" where
  "proposed_tuning p q = \<lparr>tu_fps = given (tr_fps q) (tu_fps p),
     tu_conf = given (tr_conf q) (tu_conf p),
     tu_gap = given (tr_gap q) (tu_gap p),
     tu_turns = given (tr_turns q) (tu_turns p),
     tu_persist = given (tr_persist q) (tu_persist p),
     tu_routes = given (tr_routes q) (tu_routes p),
     tu_areas = given (tr_areas q) (tu_areas p),
     tu_cell = given (tr_cell q) (tu_cell p),
     tu_sev2 = given (tr_sev2 q) (tu_sev2 p),
     tu_sev3 = given (tr_sev3 q) (tu_sev3 p),
     tu_sev4 = given (tr_sev4 q) (tu_sev4 p),
     tu_sev5 = given (tr_sev5 q) (tu_sev5 p),
     tu_notify = given (tr_notify q) (tu_notify p)\<rparr>"

type_synonym field_errors = "(string \<times> string) list"

definition put_error :: "string \<Rightarrow> string \<Rightarrow> field_errors \<Rightarrow> field_errors" where
  "put_error k msg es = filter (\<lambda>e. fst e \<noteq> k) es @ [(k, msg)]"

definition check_float :: "string \<Rightarrow> real \<Rightarrow> real \<Rightarrow> real \<Rightarrow> field_errors \<Rightarrow> field_errors" where
  "check_float k x lo hi es =
     (if x < lo \<or> hi < x
      then put_error k (''must be between '' @ format_float lo @ '' and '' @ format_float hi) es else es)"

definition check_int :: "string \<Rightarrow> int \<Rightarrow> int \<Rightarrow> int \<Rightarrow> field_errors \<Rightarrow> field_errors" where
  "check_int k n lo hi es =
     (if n < lo \<or> hi < n
      then put_error k (''must be between '' @ show_int lo @ '' and '' @ show_int hi) es else es)"

definition check_order :: "string \<Rightarrow> string \<Rightarrow> real \<Rightarrow> real \<Rightarrow> field_errors \<Rightarrow> field_errors" where
  "check_order k below lo hi es =
     (if \<not> lo \<le> hi then put_error k (''must be greater than or equal to '' @ below) es else es)"

definition validate_tuning :: "tuning \<Rightarrow> field_errors" where
  "validate_tuning p =
     (check_order ''severity_bucket_sev5'' ''severity_bucket_sev4'' (tu_sev4 p) (tu_sev5 p)
      \<circ> check_order ''severity_bucket_sev4'' ''severity_bucket_sev3'' (tu_sev3 p) (tu_sev4 p)
      \<circ> check_order ''severity_bucket_sev3'' ''severity_bucket_sev2'' (tu_sev2 p) (tu_sev3 p)
      \<circ> check_int ''notify_min_severity'' (tu_notify p) 2 5
      \<circ> check_float ''severity_bucket_sev5'' (tu_sev5 p) 0 100
      \<circ> check_float ''severity_bucket_sev4'' (tu_sev4 p) 0 100
      \<circ> check_float ''severity_bucket_sev3'' (tu_sev3 p) 0 100
      \<circ> check_float ''severity_bucket_sev2'' (tu_sev2 p) 0 100
      \<circ> check_float ''alpr_heuristic_area_cell_km'' (tu_cell p) 1 20
      \<circ> check_int ''alpr_heuristic_distinct_areas_min'' (tu_areas p) 1 5
      \<circ> check_int ''alpr_heuristic_distinct_routes_min'' (tu_routes p) 2 10
      \<circ> check_float ''alpr_heuristic_persistence_minutes_min'' (tu_persist p) 3 30
      \<circ> check_int ''alpr_heuristic_turns_min'' (tu_turns p) 1 8
      \<circ> check_float ''encounter_gap_seconds'' (tu_gap p) 15 300
      \<circ> check_float ''confidence_min'' (tu_conf p) (1 / 2) (19 / 20)
      \<circ> check_float ''frame_rate'' (tu_fps p) (1 / 2) 4) []"

section \<open>Writing and auditing\<close>

definition tuning_rows :: "tuning \<Rightarrow> (string \<times> string) list" where
  "tuning_rows p =
     [(''alpr_frames_per_second'', format_float (tu_fps p)),
      (''alpr_confidence_min'', format_float (tu_conf p)),
      (''alpr_encounter_gap_seconds'', format_float (tu_gap p)),
      (''alpr_heuristic_turns_min'', show_int (tu_turns p)),
      (''alpr_heuristic_persistence_minutes_mid'', format_float (tu_persist p)),
      (''alpr_heuristic_distinct_routes_min'', show_int (tu_routes p)),
      (''alpr_heuristic_distinct_areas_min'', show_int (tu_areas p)),
      (''alpr_heuristic_area_cell_km'', format_float (tu_cell p)),
      (''alpr_heuristic_severity_bucket_sev2'', format_float (tu_sev2 p)),
      (''alpr_heuristic_severity_bucket_sev3'', format_float (tu_sev3 p)),
      (''alpr_heuristic_severity_bucket_sev4'', format_float (tu_sev4 p)),
      (''alpr_heuristic_severity_bucket_sev5'', format_float (tu_sev5 p)),
      (''alpr_notify_min_severity'', show_int (tu_notify p))]"

definition diff_float :: "string \<Rightarrow> real \<Rightarrow> real \<Rightarrow> (string \<times> tuned \<times> tuned) list" where
  "diff_float k from to = (if from \<noteq> to then [(k, TunedFloat from, TunedFloat to)] else [])"

definition diff_int :: "string \<Rightarrow> int \<Rightarrow> int \<Rightarrow> (string \<times> tuned \<times> tuned) list" where
  "diff_int k from to = (if from \<noteq> to then [(k, TunedInt from, TunedInt to)] else [])"

definition diff_tuning :: "tuning \<Rightarrow> tuning \<Rightarrow> (string \<times> tuned \<times> tuned) list" where
  "diff_tuning p n =
     diff_float ''alpr_frames_per_second'' (tu_fps p) (tu_fps n)
     @ diff_float ''alpr_confidence_min'' (tu_conf p) (tu_conf n)
     @ diff_float ''alpr_encounter_gap_seconds'' (tu_gap p) (tu_gap n)
     @ diff_int ''alpr_heuristic_turns_min'' (tu_turns p) (tu_turns n)
     @ diff_float ''alpr_heuristic_persistence_minutes_mid'' (tu_persist p) (tu_persist n)
     @ diff_int ''alpr_heuristic_distinct_routes_min'' (tu_routes p) (tu_routes n)
     @ diff_int ''alpr_heuristic_distinct_areas_min'' (tu_areas p) (tu_areas n)
     @ diff_float ''alpr_heuristic_area_cell_km'' (tu_cell p) (tu_cell n)
     @ diff_float ''alpr_heuristic_severity_bucket_sev2'' (tu_sev2 p) (tu_sev2 n)
     @ diff_float ''alpr_heuristic_severity_bucket_sev3'' (tu_sev3 p) (tu_sev3 n)
     @ diff_float ''alpr_heuristic_severity_bucket_sev4'' (tu_sev4 p) (tu_sev4 n)
     @ diff_float ''alpr_heuristic_severity_bucket_sev5'' (tu_sev5 p) (tu_sev5 n)
     @ diff_int ''alpr_notify_min_severity'' (tu_notify p) (tu_notify n)"

section \<open>The endpoints\<close>

datatype tuning_resp = TuningErr nat string | TuningInvalid field_errors | TuningIs tuning

definition get_tuning :: "settings_call \<Rightarrow> alpr_srv \<Rightarrow> tuning_resp" where
  "get_tuning v s =
     (case load_tuning (sc_before v) (as_store s) of
        Inl _ \<Rightarrow> TuningErr 500 ''failed to read alpr tuning'' | Inr t \<Rightarrow> TuningIs t)"

definition audit_tuning ::
  "settings_call \<Rightarrow> (string \<times> tuned \<times> tuned) list \<Rightarrow> bool \<Rightarrow> alpr_srv \<Rightarrow> alpr_srv" where
  "audit_tuning v diff reset s =
     (if diff \<noteq> [] then insert_settings_audit v ''tuning_change'' (PayloadChanges diff reset) s else s)"

definition set_tuning :: "settings_call \<Rightarrow> tuning_request option \<Rightarrow> alpr_srv \<Rightarrow> tuning_resp \<times> alpr_srv" where
  "set_tuning v body s =
     (case body of
        None \<Rightarrow> (TuningErr 400 ''failed to parse request body'', s)
      | Some q \<Rightarrow>
          (case load_tuning (sc_before v) (as_store s) of
             Inl _ \<Rightarrow> (TuningErr 500 ''failed to read prior alpr tuning'', s)
           | Inr prior \<Rightarrow>
               (let proposed = proposed_tuning prior q; errs = validate_tuning proposed in
                if errs \<noteq> [] then (TuningInvalid errs, s)
                else (case write_rows (sc_write v) (tuning_rows proposed) (as_store s) of
                        (Some e, d) \<Rightarrow> (case settings_db_error e of (code, msg) \<Rightarrow> (TuningErr code msg, s\<lparr>as_store := d\<rparr>))
                      | (None, d) \<Rightarrow>
                          (let s1 = audit_tuning v (diff_tuning prior proposed) False (s\<lparr>as_store := d\<rparr>) in
                           (case load_tuning (sc_after v) d of
                              Inl _ \<Rightarrow> (TuningErr 500 ''failed to read alpr tuning after update'', s1)
                            | Inr t \<Rightarrow> (TuningIs t, s1)))))))"

definition reset_tuning :: "settings_call \<Rightarrow> alpr_srv \<Rightarrow> tuning_resp \<times> alpr_srv" where
  "reset_tuning v s =
     (case load_tuning (sc_before v) (as_store s) of
        Inl _ \<Rightarrow> (TuningErr 500 ''failed to read prior alpr tuning'', s)
      | Inr prior \<Rightarrow>
          (case write_rows (sc_write v) (tuning_rows default_tuning) (as_store s) of
             (Some e, d) \<Rightarrow> (case settings_db_error e of (code, msg) \<Rightarrow> (TuningErr code msg, s\<lparr>as_store := d\<rparr>))
           | (None, d) \<Rightarrow>
               (TuningIs default_tuning, audit_tuning v (diff_tuning prior default_tuning) True (s\<lparr>as_store := d\<rparr>))))"

text \<open>The query parameter \<open>limit\<close>, and a failing list statement.\<close>

definition list_tuning_audit :: "string \<Rightarrow> bool \<Rightarrow> alpr_srv \<Rightarrow> (nat \<times> string) + audit_entry list" where
  "list_tuning_audit raw fails s =
     (case as_audit s of
        None \<Rightarrow> Inr []
      | Some rows \<Rightarrow>
          (let limit = (if raw = [] then 10
                        else (case parse_int 64 raw of None \<Rightarrow> 10 | Some n \<Rightarrow> if 0 < n \<and> n \<le> 100 then nat n else 10)) in
           if fails then Inl (500, ''failed to list tuning audit'') else Inr (list_audit ''tuning_change'' limit rows)))"

section \<open>What the validation accepts\<close>

definition tuning_ok :: "tuning \<Rightarrow> bool" where
  "tuning_ok t \<longleftrightarrow>
     1 / 2 \<le> tu_fps t \<and> tu_fps t \<le> 4
     \<and> 1 / 2 \<le> tu_conf t \<and> tu_conf t \<le> 19 / 20
     \<and> 15 \<le> tu_gap t \<and> tu_gap t \<le> 300
     \<and> 1 \<le> tu_turns t \<and> tu_turns t \<le> 8
     \<and> 3 \<le> tu_persist t \<and> tu_persist t \<le> 30
     \<and> 2 \<le> tu_routes t \<and> tu_routes t \<le> 10
     \<and> 1 \<le> tu_areas t \<and> tu_areas t \<le> 5
     \<and> 1 \<le> tu_cell t \<and> tu_cell t \<le> 20
     \<and> 0 \<le> tu_sev2 t \<and> tu_sev2 t \<le> 100
     \<and> 0 \<le> tu_sev3 t \<and> tu_sev3 t \<le> 100
     \<and> 0 \<le> tu_sev4 t \<and> tu_sev4 t \<le> 100
     \<and> 0 \<le> tu_sev5 t \<and> tu_sev5 t \<le> 100
     \<and> 2 \<le> tu_notify t \<and> tu_notify t \<le> 5
     \<and> tu_sev2 t \<le> tu_sev3 t \<and> tu_sev3 t \<le> tu_sev4 t \<and> tu_sev4 t \<le> tu_sev5 t"

lemma put_error_not_empty [simp]: "put_error k m es \<noteq> []"
  by (simp add: put_error_def)

lemma check_empty:
  "check_float k x lo hi es = [] \<longleftrightarrow> es = [] \<and> lo \<le> x \<and> x \<le> hi"
  "check_int k n l h es = [] \<longleftrightarrow> es = [] \<and> l \<le> n \<and> n \<le> h"
  "check_order k b lo hi es = [] \<longleftrightarrow> es = [] \<and> lo \<le> hi"
  by (auto simp: check_float_def check_int_def check_order_def)

lemma validate_tuning_ok: "validate_tuning t = [] \<longleftrightarrow> tuning_ok t"
  by (auto simp: validate_tuning_def tuning_ok_def check_empty)

lemma default_for_simps [simp]:
  "default_for ''alpr_frames_per_second'' = 2"
  "default_for ''alpr_confidence_min'' = 3 / 4"
  "default_for ''alpr_encounter_gap_seconds'' = 60"
  "default_for ''alpr_heuristic_turns_min'' = 2"
  "default_for ''alpr_heuristic_persistence_minutes_mid'' = 8"
  "default_for ''alpr_heuristic_distinct_routes_min'' = 3"
  "default_for ''alpr_heuristic_distinct_areas_min'' = 2"
  "default_for ''alpr_heuristic_area_cell_km'' = 5"
  "default_for ''alpr_heuristic_severity_bucket_sev2'' = 2"
  "default_for ''alpr_heuristic_severity_bucket_sev3'' = 4"
  "default_for ''alpr_heuristic_severity_bucket_sev4'' = 6"
  "default_for ''alpr_heuristic_severity_bucket_sev5'' = 8"
  "default_for ''alpr_notify_min_severity'' = 4"
  by (simp_all add: default_for_def tuning_knobs_def mk_knob_def default_thresholds_def default_buckets_def)

lemma default_tuning_ok: "tuning_ok default_tuning"
  by (simp add: tuning_ok_def default_tuning_def trunc_def)

section \<open>A written configuration is read back\<close>

text \<open>The floats of the configuration are float64 values.\<close>

definition tuning_decimal :: "tuning \<Rightarrow> bool" where
  "tuning_decimal t \<longleftrightarrow> is_decimal (tu_fps t) \<and> is_decimal (tu_conf t) \<and> is_decimal (tu_gap t) \<and> is_decimal (tu_persist t) \<and> is_decimal (tu_cell t) \<and> is_decimal (tu_sev2 t) \<and> is_decimal (tu_sev3 t) \<and> is_decimal (tu_sev4 t) \<and> is_decimal (tu_sev5 t)"

lemma tuning_rows_distinct: "distinct (map fst (tuning_rows t))"
  by (simp add: tuning_rows_def)

lemma tuned_stored:
  "db_get_setting d k = Some (format_float x) \<Longrightarrow> is_decimal x \<Longrightarrow> tuned_float (\<lambda>_ _. False) d k = (x, None)"
  "db_get_setting d k = Some (show_int n) \<Longrightarrow> in_int64 n \<Longrightarrow> tuned_int (\<lambda>_ _. False) d k = (n, None)"
  by (simp_all add: tuned_float_def tuned_int_def float_or_def int_or_def typed_rows float_row.stored_or int_row.stored_or)

lemma bounded_int64: "tuning_ok t \<Longrightarrow> in_int64 (tu_turns t) \<and> in_int64 (tu_routes t) \<and> in_int64 (tu_areas t) \<and> in_int64 (tu_notify t)"
  by (auto simp: tuning_ok_def in_int64_def)

lemma load_stored:
  assumes "\<And>k x. (k, x) \<in> set (tuning_rows t) \<Longrightarrow> db_get_setting d k = Some x"
    and "tuning_ok t" and "tuning_decimal t"
  shows "load_tuning (\<lambda>_ _. False) d = Inr t"
proof -
  note int = bounded_int64 [OF assms(2)]
  have row: "list_all (\<lambda>(k, x). db_get_setting d k = Some x) (tuning_rows t)"
    using assms(1) by (auto simp: list_all_iff)
  show ?thesis
    using row int assms(3)
    by (simp add: tuning_rows_def load_tuning_def tuned_stored tuning_decimal_def or_bind_def)
qed

lemma fault_free_tuned:
  "tuned_float flt d k = (x, None) \<Longrightarrow> tuned_float (\<lambda>_ _. False) d k = (x, None)"
  "tuned_int flt d k = (n, None) \<Longrightarrow> tuned_int (\<lambda>_ _. False) d k = (n, None)"
  by (simp_all add: tuned_float_def tuned_int_def fault_free_reads)

lemma fault_free_load: "load_tuning flt d = Inr t \<Longrightarrow> load_tuning (\<lambda>_ _. False) d = Inr t"
  unfolding load_tuning_def or_bind_Inr by (elim exE conjE) (simp add: fault_free_tuned)

lemma tuning_written:
  assumes "write_rows flt (tuning_rows t) d = (None, d')" and "tuning_ok t" and "tuning_decimal t"
  shows "load_tuning (\<lambda>_ _. False) d' = Inr t"
  by (rule load_stored [OF _ assms(2,3)]) (rule write_rows_done [OF assms(1) tuning_rows_distinct])

section \<open>What the workers see\<close>

text \<open>The heuristic's thresholds with the knobs of the configuration in them.\<close>

definition tuned_thresholds :: "tuning \<Rightarrow> thresholds \<Rightarrow> thresholds" where
  "tuned_thresholds t th = th\<lparr>th_turns_min := tu_turns t, th_persist_mid := tu_persist t, th_routes_mid := tu_routes t,
     th_areas_min := tu_areas t, th_cell_km := tu_cell t, th_buckets := (tu_sev2 t, tu_sev3 t, tu_sev4 t, tu_sev5 t)\<rparr>"

lemma worker_stored:
  "db_get_setting d k = Some (format_float x) \<Longrightarrow> is_decimal x \<Longrightarrow> worker_float_or (\<lambda>_. False) d k r = x"
  "db_get_setting d k = Some (show_int n) \<Longrightarrow> in_int64 n \<Longrightarrow> worker_int_or (\<lambda>_. False) d k i = n"
  by (simp_all add: worker_float_or_def worker_int_or_def float_or_def int_or_def typed_rows float_row.stored_or int_row.stored_or)

lemma worker_same:
  "db_get_setting d' k = db_get_setting d k \<Longrightarrow> worker_float_or f d' k r = worker_float_or f d k r"
  "db_get_setting d' k = db_get_setting d k \<Longrightarrow> worker_int_or f d' k i = worker_int_or f d k i"
  by (simp_all add: worker_float_or_def worker_int_or_def float_or_def int_or_def get_float_setting_def get_int_setting_def get_setting_def)

lemma worker_thresholds:
  assumes w: "write_rows flt (tuning_rows t) d = (None, d')" and "tuning_ok t" and "tuning_decimal t"
  shows "read_thresholds (\<lambda>_. False) (Some d') = tuned_thresholds t (read_thresholds (\<lambda>_. False) (Some d))"
proof -
  note int = bounded_int64 [OF assms(2)]
  have row: "list_all (\<lambda>(k, x). db_get_setting d' k = Some x) (tuning_rows t)"
    using write_rows_done [OF w tuning_rows_distinct] by (auto simp: list_all_iff)
  have other: "list_all (\<lambda>k. db_get_setting d' k = db_get_setting d k)
    [''alpr_heuristic_turns_points_cap'', ''alpr_heuristic_persistence_minutes_high'',
     ''alpr_heuristic_persistence_mid_points'', ''alpr_heuristic_persistence_high_points'',
     ''alpr_heuristic_distinct_routes_mid_points'', ''alpr_heuristic_distinct_routes_high'',
     ''alpr_heuristic_distinct_routes_high_points'', ''alpr_heuristic_distinct_areas_points'',
     ''alpr_heuristic_timing_window_hours'', ''alpr_heuristic_timing_points'']"
    using write_rows_other [OF w] by (simp add: tuning_rows_def)
  obtain b2 b3 b4 b5 where b: "th_buckets default_thresholds = (b2, b3, b4, b5)" by (cases "th_buckets default_thresholds")
  show ?thesis
    using row [unfolded tuning_rows_def list.pred_inject prod.case] other [unfolded list.pred_inject] int
      assms(3) [unfolded tuning_decimal_def]
    by (simp add: read_thresholds_def Let_def tuned_thresholds_def b worker_stored worker_same [of d' _ d])
qed

section \<open>What a request did\<close>

definition request_decimal :: "tuning_request \<Rightarrow> bool" where
  "request_decimal q \<longleftrightarrow> pred_option is_decimal (tr_fps q) \<and> pred_option is_decimal (tr_conf q) \<and> pred_option is_decimal (tr_gap q) \<and> pred_option is_decimal (tr_persist q) \<and> pred_option is_decimal (tr_cell q) \<and> pred_option is_decimal (tr_sev2 q) \<and> pred_option is_decimal (tr_sev3 q) \<and> pred_option is_decimal (tr_sev4 q) \<and> pred_option is_decimal (tr_sev5 q)"

lemma given_pred: "P x \<Longrightarrow> pred_option P v \<Longrightarrow> P (given v x)"
  by (cases v) simp_all

lemma proposed_decimal: "tuning_decimal prior \<Longrightarrow> request_decimal q \<Longrightarrow> tuning_decimal (proposed_tuning prior q)"
  by (simp add: tuning_decimal_def request_decimal_def proposed_tuning_def given_pred)

lemma as_store_audit_tuning [simp]: "as_store (audit_tuning v df b s) = as_store s"
  by (simp add: audit_tuning_def)

lemma set_tuning_cases:
  assumes "set_tuning v (Some q) s = (r, s')" and "load_tuning (\<lambda>_ _. False) (as_store s) = Inr prior"
  shows "s' = s \<and> (\<forall>t. r \<noteq> TuningIs t)
    \<or> tuning_ok (proposed_tuning prior q)
      \<and> (\<exists>e. write_rows (sc_write v) (tuning_rows (proposed_tuning prior q)) (as_store s) = (e, as_store s')
          \<and> (\<forall>t. r = TuningIs t \<longrightarrow> e = None \<and> load_tuning (sc_after v) (as_store s') = Inr t
                \<and> s' = audit_tuning v (diff_tuning prior (proposed_tuning prior q)) False (s\<lparr>as_store := as_store s'\<rparr>)))"
proof (cases "load_tuning (sc_before v) (as_store s)")
  case (Inl e)
  then show ?thesis using assms(1) by (auto simp: set_tuning_def)
next
  case (Inr p)
  then have p: "p = prior" using fault_free_load [OF Inr] assms(2) by simp
  show ?thesis
  proof (cases "tuning_ok (proposed_tuning prior q)")
    case False
    then show ?thesis using assms(1) Inr by (auto simp: set_tuning_def p validate_tuning_ok Let_def)
  next
    case True
    obtain e d where w: "write_rows (sc_write v) (tuning_rows (proposed_tuning prior q)) (as_store s) = (e, d)" by fastforce
    have "as_store s' = d \<and> (\<forall>t. r = TuningIs t \<longrightarrow> e = None \<and> load_tuning (sc_after v) d = Inr t
        \<and> s' = audit_tuning v (diff_tuning prior (proposed_tuning prior q)) False (s\<lparr>as_store := d\<rparr>))"
      using assms(1) Inr True w
      by (auto simp: set_tuning_def p validate_tuning_ok Let_def split: option.splits sum.splits prod.splits)
    with w True show ?thesis by auto
  qed
qed

text \<open>A read of a row that is still the old one or already the requested one.\<close>

lemma partial_float:
  assumes "db_get_setting d' k = db_get_setting d k \<or> db_get_setting d' k = Some (format_float (given o1 x))"
    and "is_decimal (given o1 x)" and "tuned_float (\<lambda>_ _. False) d k = (x, None)"
  obtains z where "tuned_float (\<lambda>_ _. False) d' k = (z, None)" and "given o1 z = given o1 x"
proof (cases "db_get_setting d' k = db_get_setting d k")
  case True
  then have "tuned_float (\<lambda>_ _. False) d' k = (x, None)"
    using assms(3) by (simp add: tuned_float_def float_or_def get_float_setting_def get_setting_def)
  then show ?thesis using that by blast
next
  case False
  then have "tuned_float (\<lambda>_ _. False) d' k = (given o1 x, None)" using assms(1,2) tuned_stored(1) by simp
  moreover have "given o1 (given o1 x) = given o1 x" by (cases o1) simp_all
  ultimately show ?thesis using that by blast
qed

lemma partial_int:
  assumes "db_get_setting d' k = db_get_setting d k \<or> db_get_setting d' k = Some (show_int (given o1 x))"
    and "in_int64 (given o1 x)" and "tuned_int (\<lambda>_ _. False) d k = (x, None)"
  obtains z where "tuned_int (\<lambda>_ _. False) d' k = (z, None)" and "given o1 z = given o1 x"
proof (cases "db_get_setting d' k = db_get_setting d k")
  case True
  then have "tuned_int (\<lambda>_ _. False) d' k = (x, None)"
    using assms(3) by (simp add: tuned_int_def int_or_def get_int_setting_def get_setting_def)
  then show ?thesis using that by blast
next
  case False
  then have "tuned_int (\<lambda>_ _. False) d' k = (given o1 x, None)" using assms(1,2) tuned_stored(2) by simp
  moreover have "given o1 (given o1 x) = given o1 x" by (cases o1) simp_all
  ultimately show ?thesis using that by blast
qed

lemma proposed_after_partial:
  assumes w: "write_rows flt (tuning_rows (proposed_tuning prior q)) d = (e, d')"
    and ok: "tuning_ok (proposed_tuning prior q)" and decp: "tuning_decimal (proposed_tuning prior q)"
    and prior: "load_tuning (\<lambda>_ _. False) d = Inr prior"
  shows "\<exists>t. load_tuning (\<lambda>_ _. False) d' = Inr t \<and> proposed_tuning t q = proposed_tuning prior q"
proof -
  have look: "db_get_setting d' k = db_get_setting d k \<or> db_get_setting d' k = Some x"
    if "(k, x) \<in> set (tuning_rows (proposed_tuning prior q))" for k x
    using write_rows_look [OF w tuning_rows_distinct, of k] eq_key_imp_eq_value [OF tuning_rows_distinct that] by auto
  note int = bounded_int64 [OF ok, unfolded proposed_tuning_def tuning.simps]
  note dec = decp [unfolded tuning_decimal_def proposed_tuning_def tuning.simps]
  have old: "tuned_float (\<lambda>_ _. False) d ''alpr_frames_per_second'' = (tu_fps prior, None)"
      "tuned_float (\<lambda>_ _. False) d ''alpr_confidence_min'' = (tu_conf prior, None)"
      "tuned_float (\<lambda>_ _. False) d ''alpr_encounter_gap_seconds'' = (tu_gap prior, None)"
      "tuned_int (\<lambda>_ _. False) d ''alpr_heuristic_turns_min'' = (tu_turns prior, None)"
      "tuned_float (\<lambda>_ _. False) d ''alpr_heuristic_persistence_minutes_mid'' = (tu_persist prior, None)"
      "tuned_int (\<lambda>_ _. False) d ''alpr_heuristic_distinct_routes_min'' = (tu_routes prior, None)"
      "tuned_int (\<lambda>_ _. False) d ''alpr_heuristic_distinct_areas_min'' = (tu_areas prior, None)"
      "tuned_float (\<lambda>_ _. False) d ''alpr_heuristic_area_cell_km'' = (tu_cell prior, None)"
      "tuned_float (\<lambda>_ _. False) d ''alpr_heuristic_severity_bucket_sev2'' = (tu_sev2 prior, None)"
      "tuned_float (\<lambda>_ _. False) d ''alpr_heuristic_severity_bucket_sev3'' = (tu_sev3 prior, None)"
      "tuned_float (\<lambda>_ _. False) d ''alpr_heuristic_severity_bucket_sev4'' = (tu_sev4 prior, None)"
      "tuned_float (\<lambda>_ _. False) d ''alpr_heuristic_severity_bucket_sev5'' = (tu_sev5 prior, None)"
      "tuned_int (\<lambda>_ _. False) d ''alpr_notify_min_severity'' = (tu_notify prior, None)"
    using prior unfolding load_tuning_def or_bind_Inr by auto
  obtain z0 where z0: "tuned_float (\<lambda>_ _. False) d' ''alpr_frames_per_second'' = (z0, None)" "given (tr_fps q) z0 = given (tr_fps q) (tu_fps prior)"
    by (rule partial_float [OF look [of "''alpr_frames_per_second''" "format_float (given (tr_fps q) (tu_fps prior))"] _ old(1)])
      (use dec in \<open>simp_all add: tuning_rows_def proposed_tuning_def\<close>)
  obtain z1 where z1: "tuned_float (\<lambda>_ _. False) d' ''alpr_confidence_min'' = (z1, None)" "given (tr_conf q) z1 = given (tr_conf q) (tu_conf prior)"
    by (rule partial_float [OF look [of "''alpr_confidence_min''" "format_float (given (tr_conf q) (tu_conf prior))"] _ old(2)])
      (use dec in \<open>simp_all add: tuning_rows_def proposed_tuning_def\<close>)
  obtain z2 where z2: "tuned_float (\<lambda>_ _. False) d' ''alpr_encounter_gap_seconds'' = (z2, None)" "given (tr_gap q) z2 = given (tr_gap q) (tu_gap prior)"
    by (rule partial_float [OF look [of "''alpr_encounter_gap_seconds''" "format_float (given (tr_gap q) (tu_gap prior))"] _ old(3)])
      (use dec in \<open>simp_all add: tuning_rows_def proposed_tuning_def\<close>)
  obtain z3 where z3: "tuned_int (\<lambda>_ _. False) d' ''alpr_heuristic_turns_min'' = (z3, None)" "given (tr_turns q) z3 = given (tr_turns q) (tu_turns prior)"
    by (rule partial_int [OF look [of "''alpr_heuristic_turns_min''" "show_int (given (tr_turns q) (tu_turns prior))"] _ old(4)])
      (use int in \<open>simp_all add: tuning_rows_def proposed_tuning_def\<close>)
  obtain z4 where z4: "tuned_float (\<lambda>_ _. False) d' ''alpr_heuristic_persistence_minutes_mid'' = (z4, None)" "given (tr_persist q) z4 = given (tr_persist q) (tu_persist prior)"
    by (rule partial_float [OF look [of "''alpr_heuristic_persistence_minutes_mid''" "format_float (given (tr_persist q) (tu_persist prior))"] _ old(5)])
      (use dec in \<open>simp_all add: tuning_rows_def proposed_tuning_def\<close>)
  obtain z5 where z5: "tuned_int (\<lambda>_ _. False) d' ''alpr_heuristic_distinct_routes_min'' = (z5, None)" "given (tr_routes q) z5 = given (tr_routes q) (tu_routes prior)"
    by (rule partial_int [OF look [of "''alpr_heuristic_distinct_routes_min''" "show_int (given (tr_routes q) (tu_routes prior))"] _ old(6)])
      (use int in \<open>simp_all add: tuning_rows_def proposed_tuning_def\<close>)
  obtain z6 where z6: "tuned_int (\<lambda>_ _. False) d' ''alpr_heuristic_distinct_areas_min'' = (z6, None)" "given (tr_areas q) z6 = given (tr_areas q) (tu_areas prior)"
    by (rule partial_int [OF look [of "''alpr_heuristic_distinct_areas_min''" "show_int (given (tr_areas q) (tu_areas prior))"] _ old(7)])
      (use int in \<open>simp_all add: tuning_rows_def proposed_tuning_def\<close>)
  obtain z7 where z7: "tuned_float (\<lambda>_ _. False) d' ''alpr_heuristic_area_cell_km'' = (z7, None)" "given (tr_cell q) z7 = given (tr_cell q) (tu_cell prior)"
    by (rule partial_float [OF look [of "''alpr_heuristic_area_cell_km''" "format_float (given (tr_cell q) (tu_cell prior))"] _ old(8)])
      (use dec in \<open>simp_all add: tuning_rows_def proposed_tuning_def\<close>)
  obtain z8 where z8: "tuned_float (\<lambda>_ _. False) d' ''alpr_heuristic_severity_bucket_sev2'' = (z8, None)" "given (tr_sev2 q) z8 = given (tr_sev2 q) (tu_sev2 prior)"
    by (rule partial_float [OF look [of "''alpr_heuristic_severity_bucket_sev2''" "format_float (given (tr_sev2 q) (tu_sev2 prior))"] _ old(9)])
      (use dec in \<open>simp_all add: tuning_rows_def proposed_tuning_def\<close>)
  obtain z9 where z9: "tuned_float (\<lambda>_ _. False) d' ''alpr_heuristic_severity_bucket_sev3'' = (z9, None)" "given (tr_sev3 q) z9 = given (tr_sev3 q) (tu_sev3 prior)"
    by (rule partial_float [OF look [of "''alpr_heuristic_severity_bucket_sev3''" "format_float (given (tr_sev3 q) (tu_sev3 prior))"] _ old(10)])
      (use dec in \<open>simp_all add: tuning_rows_def proposed_tuning_def\<close>)
  obtain z10 where z10: "tuned_float (\<lambda>_ _. False) d' ''alpr_heuristic_severity_bucket_sev4'' = (z10, None)" "given (tr_sev4 q) z10 = given (tr_sev4 q) (tu_sev4 prior)"
    by (rule partial_float [OF look [of "''alpr_heuristic_severity_bucket_sev4''" "format_float (given (tr_sev4 q) (tu_sev4 prior))"] _ old(11)])
      (use dec in \<open>simp_all add: tuning_rows_def proposed_tuning_def\<close>)
  obtain z11 where z11: "tuned_float (\<lambda>_ _. False) d' ''alpr_heuristic_severity_bucket_sev5'' = (z11, None)" "given (tr_sev5 q) z11 = given (tr_sev5 q) (tu_sev5 prior)"
    by (rule partial_float [OF look [of "''alpr_heuristic_severity_bucket_sev5''" "format_float (given (tr_sev5 q) (tu_sev5 prior))"] _ old(12)])
      (use dec in \<open>simp_all add: tuning_rows_def proposed_tuning_def\<close>)
  obtain z12 where z12: "tuned_int (\<lambda>_ _. False) d' ''alpr_notify_min_severity'' = (z12, None)" "given (tr_notify q) z12 = given (tr_notify q) (tu_notify prior)"
    by (rule partial_int [OF look [of "''alpr_notify_min_severity''" "show_int (given (tr_notify q) (tu_notify prior))"] _ old(13)])
      (use int in \<open>simp_all add: tuning_rows_def proposed_tuning_def\<close>)
  show ?thesis
    by (simp add: load_tuning_def or_bind_def z0(1) z1(1) z2(1) z3(1) z4(1) z5(1) z6(1) z7(1) z8(1) z9(1) z10(1) z11(1) z12(1) proposed_tuning_def z0(2) z1(2) z2(2) z3(2) z4(2) z5(2) z6(2) z7(2) z8(2) z9(2) z10(2) z11(2) z12(2))
qed

section \<open>What changed\<close>

definition knob_values :: "tuning \<Rightarrow> (string \<times> tuned) list" where
  "knob_values t =
     [(''alpr_frames_per_second'', TunedFloat (tu_fps t)),
      (''alpr_confidence_min'', TunedFloat (tu_conf t)),
      (''alpr_encounter_gap_seconds'', TunedFloat (tu_gap t)),
      (''alpr_heuristic_turns_min'', TunedInt (tu_turns t)),
      (''alpr_heuristic_persistence_minutes_mid'', TunedFloat (tu_persist t)),
      (''alpr_heuristic_distinct_routes_min'', TunedInt (tu_routes t)),
      (''alpr_heuristic_distinct_areas_min'', TunedInt (tu_areas t)),
      (''alpr_heuristic_area_cell_km'', TunedFloat (tu_cell t)),
      (''alpr_heuristic_severity_bucket_sev2'', TunedFloat (tu_sev2 t)),
      (''alpr_heuristic_severity_bucket_sev3'', TunedFloat (tu_sev3 t)),
      (''alpr_heuristic_severity_bucket_sev4'', TunedFloat (tu_sev4 t)),
      (''alpr_heuristic_severity_bucket_sev5'', TunedFloat (tu_sev5 t)),
      (''alpr_notify_min_severity'', TunedInt (tu_notify t))]"

definition changed_values :: "(string \<times> tuned) list \<Rightarrow> (string \<times> tuned) list \<Rightarrow> (string \<times> tuned \<times> tuned) list" where
  "changed_values ps ns = map (\<lambda>((k, a), (_, b)). (k, a, b)) (filter (\<lambda>((_, a), (_, b)). a \<noteq> b) (zip ps ns))"

definition changed_knobs :: "tuning \<Rightarrow> tuning \<Rightarrow> (string \<times> tuned \<times> tuned) list" where
  "changed_knobs p n = changed_values (knob_values p) (knob_values n)"

lemma changed_values_diff:
  "changed_values ((k, TunedFloat a) # ps) ((j, TunedFloat b) # ns) = diff_float k a b @ changed_values ps ns"
  "changed_values ((k, TunedInt m) # ps) ((j, TunedInt n) # ns) = diff_int k m n @ changed_values ps ns"
  "changed_values [] [] = []"
  by (simp_all add: changed_values_def diff_float_def diff_int_def)

lemma diff_tuning_changed: "diff_tuning p n = changed_knobs p n"
  by (simp only: diff_tuning_def changed_knobs_def knob_values_def changed_values_diff append_Nil2)

lemma knob_values_inj: "knob_values p = knob_values n \<Longrightarrow> p = n"
  by (cases p; cases n) (simp add: knob_values_def)

lemma changed_values_empty:
  "map fst ps = map fst ns \<Longrightarrow> changed_values ps ns = [] \<longleftrightarrow> ps = ns"
proof (induction ps arbitrary: ns)
  case (Cons p ps)
  then obtain n ns' where "ns = n # ns'" by (cases ns) auto
  with Cons show ?case by (cases p; cases n) (auto simp: changed_values_def)
qed (simp add: changed_values_def)

lemma changed_knobs_empty: "changed_knobs p n = [] \<longleftrightarrow> p = n"
  using changed_values_empty [of "knob_values p" "knob_values n"] knob_values_inj [of p n]
  by (auto simp: changed_knobs_def) (simp_all add: knob_values_def)

section \<open>The settings under any sequence of requests\<close>

text \<open>
  One process: its configuration is fixed. A step is one request of any of the endpoints that
  write the settings table, or the seeding at start-up, with any faults and any clock in the years 0 to 9999.
\<close>

inductive settings_step :: "alpr_config option \<Rightarrow> alpr_srv \<Rightarrow> alpr_srv \<Rightarrow> bool" for cfg where
  step_put: "set_alpr v cfg body s = (r, s') \<Longrightarrow> settings_step cfg s s'"
| step_get: "get_alpr v cfg s = (r, s') \<Longrightarrow> settings_step cfg s s'"
| step_ack: "ack_disclaimer v ack s = (r, s') \<Longrightarrow> clock_readable (sc_now v) \<Longrightarrow> settings_step cfg s s'"
| step_tune: "set_tuning v req s = (t, s') \<Longrightarrow> settings_step cfg s s'"
| step_reset: "reset_tuning v s = (t, s') \<Longrightarrow> settings_step cfg s s'"
| step_retention: "set_retention flt days (as_store s) = (x, d) \<Longrightarrow> settings_step cfg s (s\<lparr>as_store := d\<rparr>)"
| step_seed: "settings_step cfg s (s\<lparr>as_store := seed_alpr_defaults flts cfg (as_store s)\<rparr>)"

inductive_cases settings_stepE: "settings_step cfg s s'"

definition never_enabled :: "alpr_srv \<Rightarrow> bool" where
  "never_enabled s \<longleftrightarrow> \<not> alpr_gate (\<lambda>_. False) (Some (as_store s))"

lemma tuning_rows_gated:
  assumes "alpr_gated cfg d" and "write_rows flt (tuning_rows t) d = (e, d')"
  shows "alpr_gated cfg d'"
  using assms(1)
proof (rule gated_frame)
  fix k assume "k \<in> {''alpr_enabled'', ''alpr_disclaimer_version'', ''alpr_disclaimer_acked_at''}"
  then have "k \<notin> fst ` set (tuning_rows t)" by (elim insertE emptyE) (simp_all add: tuning_rows_def)
  then show "db_get_setting d' k = db_get_setting d k" by (rule write_rows_other [OF assms(2)])
qed

lemma set_tuning_gated:
  assumes "set_tuning v req s = (r, s')" and "alpr_gated cfg (as_store s)"
  shows "alpr_gated cfg (as_store s')"
proof (cases req)
  case (Some q)
  show ?thesis
  proof (cases "load_tuning (sc_before v) (as_store s)")
    case (Inr p)
    from set_tuning_cases [OF assms(1) [unfolded Some] fault_free_load [OF Inr]] assms(2) show ?thesis
      by (auto dest: tuning_rows_gated)
  qed (use assms Some in \<open>auto simp: set_tuning_def\<close>)
qed (use assms in \<open>auto simp: set_tuning_def\<close>)

lemma reset_tuning_gated:
  assumes "reset_tuning v s = (r, s')" and "alpr_gated cfg (as_store s)"
  shows "alpr_gated cfg (as_store s')"
  using assms by (auto simp: reset_tuning_def split: sum.splits prod.splits option.splits dest: tuning_rows_gated)

lemma settings_step_gated:
  assumes "settings_step cfg s s'" and "alpr_gated cfg (as_store s)"
  shows "alpr_gated cfg (as_store s')"
  using assms
proof (cases rule: settings_step.cases)
  case (step_get v r)
  then have "as_store s' = as_store s" by (auto simp: get_alpr_def split: sum.splits prod.splits)
  then show ?thesis using assms(2) by simp
next
  case (step_retention flt days x d)
  then have "db_get_setting d k = db_get_setting (as_store s) k" if "k \<noteq> key_retention_days" for k
    using that by (auto simp: set_retention_def set_int_setting_other split: option.splits if_splits prod.splits)
  then have "alpr_gated cfg d"
    by (intro gated_frame [OF assms(2)]) (auto simp: key_retention_days_def)
  then show ?thesis by (simp add: step_retention(1))
qed (auto intro: set_alpr_gated ack_disclaimer_gated set_tuning_gated reset_tuning_gated seed_alpr_gated)

interpretation enable_gate: step_invariant never_enabled "settings_step cfg" "\<lambda>s. alpr_gated cfg (as_store s)" for cfg
  by unfold_locales (auto simp: never_enabled_def alpr_gated_def dest: settings_step_gated [unfolded alpr_gated_def])

section \<open>Properties\<close>

text \<open>C9: ALPR never runs without its prerequisites. Start from a store where it is off and let any
  sequence of requests on any endpoint run, each with any failing statement, and any restarts with the same configuration: whenever the
  gate the workers consult is open, the encryption key is a valid 256-bit key and the stored
  acknowledgement is of the current disclaimer, with a readable time.\<close>

theorem alpr_enable_gate:
  assumes "reach never_enabled (settings_step cfg) s" and "alpr_gate (\<lambda>_. False) (Some (as_store s))"
  shows "encryption_key_configured cfg \<and> disclaimer_stored (as_store s)"
  using enable_gate.reachable [OF assms(1)] assms(2) by (simp add: alpr_gated_def)

text \<open>C10: what the tuning page saves is what the pipeline uses. A successful \<open>PUT\<close> answers the prior
  configuration with the given knobs over it, within all bounds and with ordered severity buckets; a later
  \<open>GET\<close> answers the same; the heuristic worker's thresholds, read by its own code from the same table, carry
  exactly these values and keep the others, the aggregator's gap and the extractor's frame rate too; and no other key is touched.\<close>

theorem tuning_reaches_workers:
  assumes "set_tuning v (Some q) s = (TuningIs t, s')" and "load_tuning (\<lambda>_ _. False) (as_store s) = Inr prior"
    and "tuning_decimal prior" and "request_decimal q"
  shows "t = proposed_tuning prior q \<and> tuning_ok t \<and> load_tuning (\<lambda>_ _. False) (as_store s') = Inr t
    \<and> read_thresholds (\<lambda>_. False) (Some (as_store s')) = tuned_thresholds t (read_thresholds (\<lambda>_. False) (Some (as_store s)))
    \<and> float_or (\<lambda>_. False) ''alpr_encounter_gap_seconds'' def (as_store s') = (tu_gap t, None)
    \<and> float_or (\<lambda>_. False) ''alpr_frames_per_second'' def (as_store s') = (tu_fps t, None)
    \<and> (\<forall>k. k \<notin> set (map kn_key tuning_knobs) \<longrightarrow> db_get_setting (as_store s') k = db_get_setting (as_store s) k)"
proof -
  let ?p = "proposed_tuning prior q"
  have ok: "tuning_ok ?p" and w: "write_rows (sc_write v) (tuning_rows ?p) (as_store s) = (None, as_store s')"
    and load: "load_tuning (sc_after v) (as_store s') = Inr t"
    using set_tuning_cases [OF assms(1,2)] by auto
  note dec = proposed_decimal [OF assms(3,4)]
  have t: "t = ?p" using fault_free_load [OF load] tuning_written [OF w ok dec] by simp
  have keys: "set (map kn_key tuning_knobs) = fst ` set (tuning_rows ?p)"
    by (simp add: tuning_knobs_def mk_knob_def tuning_rows_def)
  have row: "list_all (\<lambda>(k, x). db_get_setting (as_store s') k = Some x) (tuning_rows ?p)"
    using write_rows_done [OF w tuning_rows_distinct] by (auto simp: list_all_iff)
  have "float_or (\<lambda>_. False) ''alpr_encounter_gap_seconds'' def (as_store s') = (tu_gap ?p, None)"
    "float_or (\<lambda>_. False) ''alpr_frames_per_second'' def (as_store s') = (tu_fps ?p, None)"
    using row [unfolded tuning_rows_def list.pred_inject prod.case] dec
    by (simp_all add: float_or_def typed_rows float_row.stored_or tuning_decimal_def)
  with t ok tuning_written [OF w ok dec] worker_thresholds [OF w ok dec] write_rows_other [OF w] show ?thesis
    unfolding keys by simp
qed

text \<open>C15: a save that fails half way is repaired by the next one. Whatever statement of a tuning \<open>PUT\<close>
  failed, and however many rows it had written, sending the same body again without faults leaves the
  table as if the first request had not been sent, and answers the same.\<close>

theorem tuning_save_converges:
  assumes "set_tuning v (Some q) s = (r, s')" and "load_tuning (\<lambda>_ _. False) (as_store s) = Inr prior"
    and "tuning_decimal prior" and "request_decimal q"
    and "sc_before w = (\<lambda>_ _. False)" and "sc_write w = (\<lambda>_ _. False)" and "sc_after w = (\<lambda>_ _. False)"
  shows "as_store (snd (set_tuning w (Some q) s')) = as_store (snd (set_tuning w (Some q) s))
    \<and> fst (set_tuning w (Some q) s') = fst (set_tuning w (Some q) s)"
proof -
  let ?p = "proposed_tuning prior q"
  from set_tuning_cases [OF assms(1,2)] show ?thesis
  proof
    assume "s' = s \<and> (\<forall>t. r \<noteq> TuningIs t)"
    then show ?thesis by simp
  next
    assume "tuning_ok ?p \<and> (\<exists>e. write_rows (sc_write v) (tuning_rows ?p) (as_store s) = (e, as_store s')
        \<and> (\<forall>t. r = TuningIs t \<longrightarrow> e = None \<and> load_tuning (sc_after v) (as_store s') = Inr t
              \<and> s' = audit_tuning v (diff_tuning prior ?p) False (s\<lparr>as_store := as_store s'\<rparr>)))"
    then obtain e where ok: "tuning_ok ?p" and we: "write_rows (sc_write v) (tuning_rows ?p) (as_store s) = (e, as_store s')"
      by blast
    note dec = proposed_decimal [OF assms(3,4)]
    obtain t where t: "load_tuning (\<lambda>_ _. False) (as_store s') = Inr t" "proposed_tuning t q = ?p"
      using proposed_after_partial [OF we ok dec assms(2)] by blast
    obtain d1 d2 where w1: "write_rows (\<lambda>_ _. False) (tuning_rows ?p) (as_store s) = (None, d1)"
      and w2: "write_rows (\<lambda>_ _. False) (tuning_rows ?p) (as_store s') = (None, d2)"
      by (simp add: write_rows_no_faults)
    have "db_get_setting d2 k = db_get_setting d1 k" for k
    proof (cases "k \<in> fst ` set (tuning_rows ?p)")
      case True
      then obtain x where "(k, x) \<in> set (tuning_rows ?p)" by auto
      then show ?thesis using write_rows_done [OF w1 tuning_rows_distinct] write_rows_done [OF w2 tuning_rows_distinct] by simp
    next
      case False
      then show ?thesis using write_rows_other [OF w1] write_rows_other [OF w2] write_rows_other [OF we] by simp
    qed
    then have "d2 = d1" by (simp add: db_get_setting_def ext)
    moreover note tuning_written [OF w1 ok dec]
    ultimately show ?thesis
      using assms(2,5,6,7) t w1 w2 ok by (simp add: set_tuning_def validate_tuning_ok Let_def)
  qed
qed

text \<open>The audit log explains every change of the tuning. A successful save that changes something appends
  exactly one row, with the acting user and the old and the new value of every knob that changed and of no other;
  a save that changes nothing appends none.\<close>

theorem tuning_audit_exact:
  assumes "set_tuning v (Some q) s = (TuningIs t, s')" and "load_tuning (\<lambda>_ _. False) (as_store s) = Inr prior"
    and "tuning_decimal prior" and "request_decimal q"
    and "as_audit s = Some rows" and "\<not> sc_audit_fault v ''tuning_change''"
  shows "as_audit s' = Some (rows @ (if t = prior then []
    else [\<lparr>sa_action = ''tuning_change'', sa_actor = actor_from_context (sc_ctx v),
           sa_payload = PayloadChanges (changed_knobs prior t) False, sa_at = sc_now v\<rparr>]))"
proof -
  let ?p = "proposed_tuning prior q"
  have ok: "tuning_ok ?p" and w: "write_rows (sc_write v) (tuning_rows ?p) (as_store s) = (None, as_store s')"
    and load: "load_tuning (sc_after v) (as_store s') = Inr t"
    and s': "s' = audit_tuning v (diff_tuning prior ?p) False (s\<lparr>as_store := as_store s'\<rparr>)"
    using set_tuning_cases [OF assms(1,2)] by auto
  have "t = ?p" using fault_free_load [OF load] tuning_written [OF w ok proposed_decimal [OF assms(3,4)]] by simp
  moreover have "as_audit s' = as_audit (audit_tuning v (diff_tuning prior ?p) False (s\<lparr>as_store := as_store s'\<rparr>))"
    using s' by (rule arg_cong)
  ultimately show ?thesis
    using assms(5,6) changed_knobs_empty [of prior t]
    by (auto simp: audit_tuning_def insert_settings_audit_def diff_tuning_changed)
qed

section \<open>Witnesses\<close>

lemma set_tuning_succeeds:
  assumes "sc_before w = (\<lambda>_ _. False)" and "sc_write w = (\<lambda>_ _. False)" and "sc_after w = (\<lambda>_ _. False)"
    and "load_tuning (\<lambda>_ _. False) (as_store s) = Inr prior" and "tuning_ok (proposed_tuning prior q)"
    and "tuning_decimal (proposed_tuning prior q)"
  shows "\<exists>s'. set_tuning w (Some q) s = (TuningIs (proposed_tuning prior q), s')"
proof -
  obtain d where d: "write_rows (\<lambda>_ _. False) (tuning_rows (proposed_tuning prior q)) (as_store s) = (None, d)"
    by (simp add: write_rows_no_faults)
  with tuning_written [OF d assms(5,6)] show ?thesis
    using assms by (simp add: set_tuning_def validate_tuning_ok Let_def)
qed

definition demo_tune :: tuning_request where
  "demo_tune = \<lparr>tr_fps = None, tr_conf = None, tr_gap = Some (75 / 2), tr_turns = Some 4, tr_persist = None, tr_routes = None,
     tr_areas = None, tr_cell = None, tr_sev2 = None, tr_sev3 = None, tr_sev4 = None, tr_sev5 = Some 9, tr_notify = None\<rparr>"

definition demo_fresh :: alpr_srv where
  "demo_fresh = \<lparr>as_store = (\<lambda>_. None), as_audit = Some [], as_probe = \<lparr>pr_last = zero_time, pr_ok = False, pr_endpoint = []\<rparr>\<rparr>"

lemma demo_load: "load_tuning (\<lambda>_ _. False) (as_store demo_fresh) = Inr default_tuning"
  by (simp add: load_tuning_def tuned_float_def tuned_int_def setting_readers demo_fresh_def default_tuning_def)

lemma demo_decimals: "is_decimal 2" "is_decimal (3 / 4)" "is_decimal 60" "is_decimal 8" "is_decimal 5" "is_decimal 4"
  "is_decimal 6" "is_decimal (75 / 2)" "is_decimal 9"
  by (simp_all add: is_decimal_def decimal_places.simps)

lemma demo_tune_decimal: "tuning_decimal default_tuning" "request_decimal demo_tune"
  by (simp_all add: tuning_decimal_def default_tuning_def request_decimal_def demo_tune_def demo_decimals)

lemma demo_tune_ok: "tuning_ok (proposed_tuning default_tuning demo_tune)"
  by (simp add: tuning_ok_def proposed_tuning_def default_tuning_def demo_tune_def trunc_def)

lemma demo_tune_saved: "\<exists>s'. set_tuning demo_settings_call (Some demo_tune) demo_fresh = (TuningIs (proposed_tuning default_tuning demo_tune), s')"
  by (rule set_tuning_succeeds [OF _ _ _ demo_load demo_tune_ok proposed_decimal [OF demo_tune_decimal]])
    (simp_all add: demo_settings_call_def)

theorem tuning_reaches_workers_witness:
  "th_turns_min (read_thresholds (\<lambda>_. False) (Some (as_store (snd (set_tuning demo_settings_call (Some demo_tune) demo_fresh))))) = 4
    \<and> float_or (\<lambda>_. False) ''alpr_encounter_gap_seconds'' 60
        (as_store (snd (set_tuning demo_settings_call (Some demo_tune) demo_fresh))) = (75 / 2, None)"
proof -
  obtain s' where r: "set_tuning demo_settings_call (Some demo_tune) demo_fresh = (TuningIs (proposed_tuning default_tuning demo_tune), s')"
    using demo_tune_saved by blast
  from tuning_reaches_workers [OF r demo_load demo_tune_decimal, of 60] r show ?thesis
    by (simp add: tuned_thresholds_def) (simp add: proposed_tuning_def demo_tune_def)
qed

theorem tuning_audit_exact_witness:
  "as_audit (snd (set_tuning demo_settings_call (Some demo_tune) demo_fresh))
     = Some [\<lparr>sa_action = ''tuning_change'', sa_actor = Some ''user:1'',
         sa_payload = PayloadChanges [(''alpr_encounter_gap_seconds'', TunedFloat 60, TunedFloat (75 / 2)),
           (''alpr_heuristic_turns_min'', TunedInt 2, TunedInt 4),
           (''alpr_heuristic_severity_bucket_sev5'', TunedFloat 8, TunedFloat 9)] False,
         sa_at = 1785844805000000000\<rparr>]"
proof -
  obtain s' where r: "set_tuning demo_settings_call (Some demo_tune) demo_fresh = (TuningIs (proposed_tuning default_tuning demo_tune), s')"
    using demo_tune_saved by blast
  have ne: "proposed_tuning default_tuning demo_tune \<noteq> default_tuning"
    by (simp add: proposed_tuning_def default_tuning_def demo_tune_def)
  have diff: "changed_knobs default_tuning (proposed_tuning default_tuning demo_tune)
      = [(''alpr_encounter_gap_seconds'', TunedFloat 60, TunedFloat (75 / 2)), (''alpr_heuristic_turns_min'', TunedInt 2, TunedInt 4),
         (''alpr_heuristic_severity_bucket_sev5'', TunedFloat 8, TunedFloat 9)]"
    by (simp add: changed_knobs_def changed_values_def knob_values_def proposed_tuning_def default_tuning_def demo_tune_def trunc_def)
  have "show_int 1 = ''1''" by code_simp
  then have actor: "actor_from_context (sc_ctx demo_settings_call) = Some ''user:1''"
    by (simp add: actor_from_context_def demo_settings_call_def)
  have call: "\<not> sc_audit_fault demo_settings_call ''tuning_change''" "sc_now demo_settings_call = 1785844805000000000"
    by (simp_all add: demo_settings_call_def)
  have fresh: "as_audit demo_fresh = Some []" by (simp add: demo_fresh_def)
  from tuning_audit_exact [OF r demo_load demo_tune_decimal fresh call(1)] ne
  show ?thesis by (simp add: r diff actor call(2))
qed

theorem tuning_save_converges_witness:
  "let broken = demo_settings_call\<lparr>sc_write := (\<lambda>k _. k = ''alpr_heuristic_turns_min'')\<rparr>;
       r1 = set_tuning broken (Some demo_tune) demo_fresh in
   fst r1 = TuningErr 500 ''failed to update alpr setting''
   \<and> fst (set_tuning demo_settings_call (Some demo_tune) (snd r1)) = TuningIs (proposed_tuning default_tuning demo_tune)"
proof -
  let ?v = "demo_settings_call\<lparr>sc_write := (\<lambda>k _. k = ''alpr_heuristic_turns_min'')\<rparr>"
  obtain r s' where r: "set_tuning ?v (Some demo_tune) demo_fresh = (r, s')" by fastforce
  have before: "sc_before ?v = (\<lambda>_ _. False)" "sc_write ?v = (\<lambda>k _. k = ''alpr_heuristic_turns_min'')"
    by (simp_all add: demo_settings_call_def)
  have "fst (write_rows (\<lambda>k _. k = ''alpr_heuristic_turns_min'') (tuning_rows (proposed_tuning default_tuning demo_tune)) (as_store demo_fresh)) = Some SettingDbError"
    by (simp add: tuning_rows_def set_setting_def)
  then obtain d where "write_rows (\<lambda>k _. k = ''alpr_heuristic_turns_min'') (tuning_rows (proposed_tuning default_tuning demo_tune)) (as_store demo_fresh) = (Some SettingDbError, d)"
    by (metis prod.collapse)
  then have "r = TuningErr 500 ''failed to update alpr setting''"
    using r demo_load demo_tune_ok by (simp add: set_tuning_def before validate_tuning_ok Let_def settings_db_error_def)
  moreover have "fst (set_tuning demo_settings_call (Some demo_tune) s') = fst (set_tuning demo_settings_call (Some demo_tune) demo_fresh)"
    using tuning_save_converges [OF r demo_load demo_tune_decimal, of demo_settings_call] by (simp add: demo_settings_call_def)
  ultimately show ?thesis using demo_tune_saved r by (auto simp: Let_def)
qed

theorem alpr_enable_gate_witness:
  "\<exists>s :: alpr_srv. alpr_gate (\<lambda>_. False) (Some (as_store s)) \<and> encryption_key_configured (Some demo_alpr_cfg) \<and> disclaimer_stored (as_store s)"
proof -
  obtain r s' where r: "set_alpr demo_settings_call (Some demo_alpr_cfg) (Some demo_alpr_put) demo_alpr_srv = (r, s')" by fastforce
  have missing: "missing_enable_prerequisites (sc_before demo_settings_call) (Some demo_alpr_cfg) (as_store demo_alpr_srv) = Inr []"
    by (simp add: missing_enable_prerequisites_def disclaimer_satisfied_def setting_readers demo_key demo_ack_time
        demo_settings_call_def demo_alpr_srv_def)
  have "alpr_bounds_error demo_alpr_put = None" "aq_enabled demo_alpr_put = Some True"
    by (simp_all add: alpr_bounds_error_def demo_alpr_put_def)
  with missing r have "apply_alpr demo_settings_call (Some demo_alpr_cfg) demo_alpr_put demo_alpr_srv = (r, s')"
    by (simp add: set_alpr_def)
  then have w: "write_rows (\<lambda>_ _. False) (alpr_rows demo_alpr_put) (as_store demo_alpr_srv) = (None, as_store s')"
    by (auto simp: apply_alpr_def demo_settings_call_def write_rows_no_faults split: sum.splits prod.splits)
  have "db_get_setting (as_store s') ''alpr_enabled'' = Some ''true''"
    by (rule write_rows_done [OF w alpr_rows_distinct]) (simp add: alpr_rows_def row_of_def demo_alpr_put_def show_bool_def)
  then have gate: "alpr_gate (\<lambda>_. False) (Some (as_store s'))" by (simp add: gate_row parse_bool_def)
  have "never_enabled demo_alpr_srv" by (simp add: never_enabled_def gate_row demo_alpr_srv_def db_get_setting_def)
  then have "reach never_enabled (settings_step (Some demo_alpr_cfg)) s'"
    using step_put [OF r] by (blast intro: reach.intros)
  from alpr_enable_gate [OF this gate] gate show ?thesis by (intro exI [of _ s']) simp
qed

end
