(* ===== verification/Frames.thy ===== *)
theory Frames imports Settings "HOL-Library.Sublist" begin

text \<open>
  The splitting of the MJPEG stream in \<open>internal/worker/alpr_extractor.go\<close>: \<open>extractJPEG\<close> over the
  pending bytes, the reading loop \<open>parseMJPEGStream\<close> over whatever chunks the pipe delivers, and
  the offset of a frame in its segment. The process that writes the stream is not modelled.
\<close>

section \<open>Markers\<close>

definition jpeg_soi :: string where
  "jpeg_soi = [CHR 0xFF, CHR 0xD8]"

definition jpeg_eoi :: string where
  "jpeg_eoi = [CHR 0xFF, CHR 0xD9]"

text \<open>\<open>bytes.Index\<close>.\<close>

fun bytes_index :: "string \<Rightarrow> string \<Rightarrow> nat option" where
  "bytes_index [] pat = (if pat = [] then Some 0 else None)"
| "bytes_index (c # cs) pat = (if prefix pat (c # cs) then Some 0 else map_option Suc (bytes_index cs pat))"

section \<open>One frame\<close>

text \<open>The frame, if a whole one is pending, and the bytes left in the buffer.\<close>

definition extract_jpeg :: "string \<Rightarrow> string option \<times> string" where
  "extract_jpeg data =
     (case bytes_index data jpeg_soi of
        None \<Rightarrow> (None, data)
      | Some i \<Rightarrow>
          (case bytes_index (drop (i + 2) data) jpeg_eoi of
             None \<Rightarrow> (None, if 0 < i then drop i data else data)
           | Some j \<Rightarrow> (Some (take (j + 4) (drop i data)), drop (i + 2 + j + 2) data)))"

definition frame_offset_ms :: "nat \<Rightarrow> real \<Rightarrow> int" where
  "frame_offset_ms k fps = (if fps \<le> 0 then 0 else trunc (real k * 1000 / fps + 1 / 2))"

section \<open>The reading loop\<close>

datatype read_end = ReadEof | ReadFailed
datatype parse_end = ParseDone | ParseCancelled | ParseReadError | ParseBlocked

text \<open>
  A read delivers bytes and may end the stream. The pushes and the loop heads are numbered; the two
  predicates say which of them find the context cancelled. What was pushed is in the order of the channel.
  A read that never returns, because the process neither writes nor exits, ends the list: \<open>ParseBlocked\<close>.
\<close>

lemma bytes_index_bound: "bytes_index s pat = Some i \<Longrightarrow> i + length pat \<le> length s"
proof (induction s arbitrary: i)
  case (Cons c cs)
  show ?case
  proof (cases "prefix pat (c # cs)")
    case True
    then show ?thesis using Cons.prems prefix_length_le [OF True] by simp
  next
    case False
    with Cons show ?thesis by auto
  qed
qed (simp split: if_splits)

lemma extract_shrinks: "extract_jpeg data = (Some f, rest) \<Longrightarrow> length rest < length data"
  using bytes_index_bound [of data jpeg_soi] by (auto simp: extract_jpeg_def jpeg_soi_def split: option.splits)

function drain_frames :: "(nat \<Rightarrow> bool) \<Rightarrow> nat \<Rightarrow> string \<Rightarrow> string list \<times> string \<times> bool" where
  "drain_frames cancelled n data =
     (case extract_jpeg data of
        (None, rest) \<Rightarrow> ([], rest, False)
      | (Some f, rest) \<Rightarrow>
          if cancelled n then ([], rest, True)
          else (case drain_frames cancelled (Suc n) rest of (fs, r, c) \<Rightarrow> (f # fs, r, c)))"
  by pat_completeness auto
termination
  by (relation "measure (\<lambda>(_, _, d). length d)") (auto dest: extract_shrinks [OF sym])

declare drain_frames.simps [simp del]

fun parse_mjpeg ::
  "(nat \<Rightarrow> bool) \<Rightarrow> (nat \<Rightarrow> bool) \<Rightarrow> nat \<Rightarrow> (string \<times> read_end option) list \<Rightarrow> string \<Rightarrow> string list
     \<Rightarrow> string list \<times> parse_end" where
  "parse_mjpeg push_cancelled loop_cancelled k [] pending out =
     (out, if loop_cancelled k then ParseCancelled else ParseBlocked)"
| "parse_mjpeg push_cancelled loop_cancelled k ((bytes, fin) # reads) pending out =
     (if loop_cancelled k then (out, ParseCancelled)
      else (case (if bytes = [] then ([], pending, False)
                  else drain_frames push_cancelled (length out) (pending @ bytes)) of
              (fs, rest, stopped) \<Rightarrow>
                if stopped then (out @ fs, ParseCancelled)
                else (case fin of
                        Some ReadEof \<Rightarrow> (out @ fs, ParseDone)
                      | Some ReadFailed \<Rightarrow> (out @ fs, ParseReadError)
                      | None \<Rightarrow> parse_mjpeg push_cancelled loop_cancelled (Suc k) reads rest (out @ fs))))"

text \<open>The frames with their offsets, as \<open>pushFrame\<close> sends them.\<close>

definition with_offsets :: "real \<Rightarrow> string list \<Rightarrow> (int \<times> string) list" where
  "with_offsets fps fs = map (\<lambda>k. (frame_offset_ms k fps, fs ! k)) [0..<length fs]"

section \<open>Chunks do not matter\<close>

abbreviation drained :: "string \<Rightarrow> string list" where
  "drained data \<equiv> fst (drain_frames (\<lambda>_. False) 0 data)"

abbreviation undrained :: "string \<Rightarrow> string" where
  "undrained data \<equiv> fst (snd (drain_frames (\<lambda>_. False) 0 data))"

lemma drain_step:
  "drain_frames (\<lambda>_. False) n data =
     (case extract_jpeg data of (None, rest) \<Rightarrow> ([], rest, False)
      | (Some f, rest) \<Rightarrow> (f # fst (drain_frames (\<lambda>_. False) (Suc n) rest), fst (snd (drain_frames (\<lambda>_. False) (Suc n) rest)),
                         snd (snd (drain_frames (\<lambda>_. False) (Suc n) rest))))"
  by (subst drain_frames.simps) (simp split: option.split prod.split)

lemma drain_any: "drain_frames (\<lambda>_. False) n data = drain_frames (\<lambda>_. False) m data \<and> \<not> snd (snd (drain_frames (\<lambda>_. False) n data))"
proof (induction data arbitrary: n m rule: length_induct)
  case (1 data)
  obtain o1 rest where e: "extract_jpeg data = (o1, rest)" by fastforce
  show ?case
  proof (cases o1)
    case None
    then show ?thesis by (simp add: drain_step [of _ data] e)
  next
    case (Some f)
    then have "length rest < length data" using extract_shrinks e by simp
    with 1 have "drain_frames (\<lambda>_. False) (Suc n) rest = drain_frames (\<lambda>_. False) (Suc m) rest"
      "\<not> snd (snd (drain_frames (\<lambda>_. False) (Suc n) rest))" by blast+
    then show ?thesis by (simp add: drain_step [of _ data] e Some)
  qed
qed

lemma drain_uncancelled: "drain_frames (\<lambda>_. False) n data = (drained data, undrained data, False)"
  using drain_any [of n data 0] by (metis prod.collapse)

lemma drained_None: "extract_jpeg data = (None, rest) \<Longrightarrow> drained data = [] \<and> undrained data = rest"
  by (simp add: drain_step)

lemma drained_Some:
  "extract_jpeg data = (Some f, rest) \<Longrightarrow> drained data = f # drained rest \<and> undrained data = undrained rest"
  by (simp add: drain_step [of 0 data] drain_uncancelled [of "Suc 0"])

lemma bytes_index_append: "bytes_index s pat = Some i \<Longrightarrow> bytes_index (s @ t) pat = Some i"
proof (induction s arbitrary: i)
  case Nil
  then have "pat = []" "i = 0" by (simp_all split: if_splits)
  then show ?case by (cases t) simp_all
next
  case (Cons c cs)
  show ?case
  proof (cases "prefix pat (c # cs)")
    case True
    then have "prefix pat (c # cs @ t)" using prefix_prefix by fastforce
    with True Cons.prems show ?thesis by simp
  next
    case False
    with Cons.prems obtain j where j: "bytes_index cs pat = Some j" "i = Suc j" by auto
    have "\<not> prefix pat (c # cs @ t)"
    proof
      assume p: "prefix pat (c # cs @ t)"
      have "j + length pat \<le> length cs" by (rule bytes_index_bound [OF j(1)])
      then have "length pat \<le> length (c # cs)" by simp
      with p have "prefix pat (c # cs)"
        by (metis append_Cons prefix_length_prefix prefixI)
      with False show False by simp
    qed
    with Cons.IH [OF j(1)] j(2) show ?thesis by simp
  qed
qed

lemma extract_append: "extract_jpeg a = (Some f, rest) \<Longrightarrow> extract_jpeg (a @ b) = (Some f, rest @ b)"
proof -
  assume e: "extract_jpeg a = (Some f, rest)"
  then obtain i j where i: "bytes_index a jpeg_soi = Some i" and j: "bytes_index (drop (i + 2) a) jpeg_eoi = Some j"
    and fr: "f = take (j + 4) (drop i a)" "rest = drop (i + 2 + j + 2) a"
    by (auto simp: extract_jpeg_def split: option.splits)
  have len: "i + 2 + j + 2 \<le> length a"
    using bytes_index_bound [OF i] bytes_index_bound [OF j] by (simp add: jpeg_soi_def jpeg_eoi_def)
  then have d: "drop (i + 2) (a @ b) = drop (i + 2) a @ b" by simp
  show ?thesis
    using len bytes_index_append [OF i, of b] bytes_index_append [OF j, of b]
    by (simp add: extract_jpeg_def d fr)
qed

lemma index_drop_self: "bytes_index s pat = Some i \<Longrightarrow> bytes_index (drop i s) pat = Some 0"
proof (induction s arbitrary: i)
  case (Cons c cs)
  then show ?case by (auto split: if_splits)
qed (simp split: if_splits)

lemma extract_drop_prefix:
  assumes "bytes_index s jpeg_soi = Some i"
  shows "extract_jpeg (drop i s) = (fst (extract_jpeg s), snd (extract_jpeg s))"
  using index_drop_self [OF assms] assms
  by (auto simp: extract_jpeg_def ac_simps split: option.splits)

text \<open>What is left after draining behaves like what was there before.\<close>

lemma drained_append: "drained (a @ b) = drained a @ drained (undrained a @ b) \<and> undrained (a @ b) = undrained (undrained a @ b)"
proof (induction a rule: length_induct)
  case (1 a)
  obtain o1 rest where e: "extract_jpeg a = (o1, rest)" by fastforce
  show ?case
  proof (cases o1)
    case (Some f)
    then have e: "extract_jpeg a = (Some f, rest)" using e by simp
    from 1 extract_shrinks [OF e]
    have "drained (rest @ b) = drained rest @ drained (undrained rest @ b) \<and> undrained (rest @ b) = undrained (undrained rest @ b)"
      by blast
    then show ?thesis using drained_Some [OF e] drained_Some [OF extract_append [OF e, of b]] by simp
  next
    case None
    then have e: "extract_jpeg a = (None, rest)" using e by simp
    show ?thesis
    proof (cases "rest = a")
      case True
      then show ?thesis using drained_None [OF e] by simp
    next
      case False
      then obtain i where i: "bytes_index a jpeg_soi = Some i" "rest = drop i a"
        using e by (auto simp: extract_jpeg_def split: option.splits if_splits)
      have "i \<le> length a" using bytes_index_bound [OF i(1)] by simp
      then have "rest @ b = drop i (a @ b)" by (simp add: i(2))
      with extract_drop_prefix [OF bytes_index_append [OF i(1), of b]]
      have "extract_jpeg (rest @ b) = extract_jpeg (a @ b)" by simp
      then have "drained (rest @ b) = drained (a @ b) \<and> undrained (rest @ b) = undrained (a @ b)"
        by (simp add: drain_step [of 0])
      then show ?thesis using drained_None [OF e] by simp
    qed
  qed
qed

text \<open>A complete JPEG: the first end marker after its start marker is its end.\<close>

definition is_jpeg :: "string \<Rightarrow> bool" where
  "is_jpeg f \<longleftrightarrow> prefix jpeg_soi f \<and> 4 \<le> length f \<and> bytes_index (drop 2 f) jpeg_eoi = Some (length f - 4)"

lemma extract_whole: "is_jpeg f \<Longrightarrow> extract_jpeg (f @ s) = (Some f, s)"
proof -
  assume f: "is_jpeg f"
  then have "bytes_index f jpeg_soi = Some 0" by (cases f) (auto simp: is_jpeg_def)
  with f have "extract_jpeg f = (Some f, [])"
    by (simp add: extract_jpeg_def is_jpeg_def numeral_2_eq_2)
  from extract_append [OF this, of s] show ?thesis by simp
qed

lemma extract_junk:
  assumes "bytes_index junk jpeg_soi = None" and "prefix jpeg_soi f"
  shows "bytes_index (junk @ f) jpeg_soi = Some (length junk)"
  using assms
proof (induction junk)
  case Nil
  then show ?case by (cases f) (auto simp: jpeg_soi_def)
next
  case (Cons c cs)
  then have n: "\<not> prefix jpeg_soi (c # cs)" "bytes_index cs jpeg_soi = None" by (auto split: if_splits)
  have "\<not> prefix jpeg_soi (c # cs @ f)"
  proof (cases cs)
    case Nil
    with Cons.prems(2) show ?thesis by (cases f) (auto simp: jpeg_soi_def)
  next
    case (Cons d ds)
    with n(1) show ?thesis by (simp add: jpeg_soi_def)
  qed
  with Cons.IH [OF n(2) Cons.prems(2)] show ?case by simp
qed

lemma extract_after_junk:
  assumes junk: "bytes_index junk jpeg_soi = None" and f: "is_jpeg f"
  shows "extract_jpeg (junk @ f @ s) = (Some f, s)"
proof -
  have p: "prefix jpeg_soi (f @ s)" using f by (auto simp: is_jpeg_def)
  have "extract_jpeg (drop (length junk) (junk @ f @ s)) = extract_jpeg (junk @ f @ s)"
    using extract_drop_prefix [OF extract_junk [OF junk p]] by simp
  then show ?thesis using extract_whole [OF f, of s] by simp
qed

lemma drained_pieces:
  assumes "\<forall>(junk, f) \<in> set pieces. bytes_index junk jpeg_soi = None \<and> is_jpeg f" and "fst (extract_jpeg rest) = None"
  shows "drained (concat (map (\<lambda>(junk, f). junk @ f) pieces) @ rest) = map snd pieces"
  using assms
proof (induction pieces)
  case Nil
  then show ?case using drained_None [of rest] by (cases "extract_jpeg rest") simp
next
  case (Cons p ps)
  obtain junk f where p: "p = (junk, f)" by fastforce
  with Cons.prems have "extract_jpeg (junk @ f @ concat (map (\<lambda>(junk, f). junk @ f) ps) @ rest)
      = (Some f, concat (map (\<lambda>(junk, f). junk @ f) ps) @ rest)"
    by (intro extract_after_junk) auto
  from drained_Some [OF this] Cons p show ?case by simp
qed

lemma undrained_idle: "drained (undrained a) = [] \<and> undrained (undrained a) = undrained a"
  using drained_append [of a "[]"] by simp

lemma parse_chunks:
  "fin = Some ReadEof \<and> how = ParseDone \<or> fin = Some ReadFailed \<and> how = ParseReadError \<Longrightarrow> drained pending = [] \<Longrightarrow>
   parse_mjpeg (\<lambda>_. False) (\<lambda>_. False) k (map (\<lambda>c. (c, None)) chunks @ [(end_bytes, fin)]) pending out
     = (out @ drained (pending @ concat chunks @ end_bytes), how)"
proof (induction chunks arbitrary: k pending out)
  case Nil
  then show ?case by (auto simp: drain_uncancelled [of "length out"])
next
  case (Cons c cs)
  show ?case
  proof (cases "c = []")
    case True
    with Cons show ?thesis by simp
  next
    case False
    have "drained ((pending @ c) @ concat cs @ end_bytes)
        = drained (pending @ c) @ drained (undrained (pending @ c) @ concat cs @ end_bytes)"
      by (rule drained_append [THEN conjunct1])
    moreover have "drained (undrained (pending @ c)) = []" by (rule undrained_idle [THEN conjunct1])
    ultimately show ?thesis
      using False Cons.IH [OF Cons.prems(1)] by (simp add: drain_uncancelled [of "length out"])
  qed
qed

text \<open>C40: However the pipe cuts the encoder's output into reads, a stream made of whole JPEGs with noise
  between them (bytes without a start marker) and a truncated frame at its end yields exactly those JPEGs,
  in order and byte for byte: no frame is lost at a chunk boundary, split, merged or padded with noise. A
  stream that ends with a read error yields the same frames and the error.\<close>

theorem frames_any_chunking:
  assumes "concat chunks @ end_bytes = concat (map (\<lambda>(junk, f). junk @ f) pieces) @ rest"
    and "\<forall>(junk, f) \<in> set pieces. bytes_index junk jpeg_soi = None \<and> is_jpeg f"
    and "fst (extract_jpeg rest) = None"
  shows "parse_mjpeg (\<lambda>_. False) (\<lambda>_. False) 0 (map (\<lambda>c. (c, None)) chunks @ [(end_bytes, Some ReadEof)]) [] []
      = (map snd pieces, ParseDone)
    \<and> parse_mjpeg (\<lambda>_. False) (\<lambda>_. False) 0 (map (\<lambda>c. (c, None)) chunks @ [(end_bytes, Some ReadFailed)]) [] []
      = (map snd pieces, ParseReadError)"
proof -
  have "drained [] = []" using drained_None [of "[]"] by (simp add: extract_jpeg_def jpeg_soi_def)
  then show ?thesis using drained_pieces [OF assms(2,3)] assms(1) by (simp add: parse_chunks)
qed

abbreviation tiny_jpeg :: "char \<Rightarrow> string" where
  "tiny_jpeg c \<equiv> jpeg_soi @ [c] @ jpeg_eoi"

lemma tiny_is_jpeg: "c \<noteq> CHR 0xFF \<Longrightarrow> is_jpeg (tiny_jpeg c)"
  by (simp add: is_jpeg_def jpeg_soi_def jpeg_eoi_def)

text \<open>Two frames around noise and a truncated third, cut in the middle of the markers.\<close>

lemma frames_any_chunking_witness:
  "parse_mjpeg (\<lambda>_. False) (\<lambda>_. False) 0
     (map (\<lambda>c. (c, None)) [[CHR 0xFF], [CHR 0xD8, CHR ''a'', CHR 0xFF], [CHR 0xD9, CHR ''w'', CHR 0xFF, CHR 0xD8, CHR ''b'']]
       @ [([CHR 0xFF, CHR 0xD9, CHR 0xFF, CHR 0xD8, CHR ''c''], Some ReadEof)]) [] []
   = ([tiny_jpeg CHR ''a'', tiny_jpeg CHR ''b''], ParseDone)"
  using frames_any_chunking
    [of "[[CHR 0xFF], [CHR 0xD8, CHR ''a'', CHR 0xFF], [CHR 0xD9, CHR ''w'', CHR 0xFF, CHR 0xD8, CHR ''b'']]"
        "[CHR 0xFF, CHR 0xD9, CHR 0xFF, CHR 0xD8, CHR ''c'']"
        "[([], tiny_jpeg CHR ''a''), (''w'', tiny_jpeg CHR ''b'')]" "[CHR 0xFF, CHR 0xD8, CHR ''c'']"]
    tiny_is_jpeg [of "CHR ''a''"] tiny_is_jpeg [of "CHR ''b''"]
  by (simp del: parse_mjpeg.simps add: extract_jpeg_def jpeg_soi_def jpeg_eoi_def)

section \<open>Offsets\<close>

lemma frame_offset_mono: "k \<le> l \<Longrightarrow> frame_offset_ms k fps \<le> frame_offset_ms l fps"
  by (auto simp: frame_offset_ms_def trunc_def intro!: floor_mono divide_right_mono)

lemma frame_offset_nearest:
  "0 < fps \<Longrightarrow> \<bar>real_of_int (frame_offset_ms k fps) - real k * 1000 / fps\<bar> \<le> 1 / 2"
proof -
  assume f: "0 < fps"
  then have n: "0 \<le> real k * 1000 / fps + 1 / 2" by (simp add: add_nonneg_pos less_imp_le)
  have "frame_offset_ms k fps = \<lfloor>real k * 1000 / fps + 1 / 2\<rfloor>" using f n by (simp add: frame_offset_ms_def trunc_def)
  then show ?thesis by linarith
qed

end
