(* ===== verification/Geo.thy ===== *)
theory Geo imports GoFloat GoStrings begin

text \<open>
  Geometry of a route as the workers compute it: the initial bearing of \<open>bearingDeg\<close> and
  \<open>bearingHaversineDeg\<close>, the wrap of a bearing difference, and the WKT of a track written by
  \<open>buildLineStringWKT\<close> (\<open>internal/worker/route_metadata.go\<close>) and read by \<open>parseLineStringWKT\<close>
  (\<open>internal/worker/turn_detector.go\<close>). Coordinates are exact reals.
\<close>

record latlng =
  ll_lat :: real
  ll_lng :: real

section \<open>Angles\<close>

text \<open>\<open>math.Atan2\<close> and \<open>math.Mod\<close>, without the signed zeros.\<close>

definition atan2 :: "real \<Rightarrow> real \<Rightarrow> real" where
  "atan2 y x =
     (if 0 < x then arctan (y / x)
      else if x < 0 then (if 0 \<le> y then arctan (y / x) + pi else arctan (y / x) - pi)
      else if 0 < y then pi / 2 else if y < 0 then - (pi / 2) else 0)"

definition go_fmod :: "real \<Rightarrow> real \<Rightarrow> real" where
  "go_fmod x y = x - y * of_int (trunc (x / y))"

definition positive_degrees :: "real \<Rightarrow> real" where
  "positive_degrees deg = (if deg < 0 then deg + 360 else deg)"

definition bearing_deg :: "real \<Rightarrow> real \<Rightarrow> real \<Rightarrow> real \<Rightarrow> real" where
  "bearing_deg lat1 lng1 lat2 lng2 =
     (let phi1 = lat1 * pi / 180; phi2 = lat2 * pi / 180; dlambda = (lng2 - lng1) * pi / 180;
          y = sin dlambda * cos phi2;
          x = cos phi1 * sin phi2 - sin phi1 * cos phi2 * cos dlambda
      in positive_degrees (atan2 y x * 180 / pi))"

definition wrap_180 :: "real \<Rightarrow> real" where
  "wrap_180 deg = go_fmod (deg + 540) 360 - 180"

lemma sqrt_scale: "0 < x \<Longrightarrow> sqrt (x\<^sup>2 + y\<^sup>2) = x * sqrt (1 + (y / x)\<^sup>2)" for x :: real
proof -
  assume x: "0 < x"
  then have "x\<^sup>2 + y\<^sup>2 = x\<^sup>2 * (1 + (y / x)\<^sup>2)" by (simp add: field_simps)
  then show ?thesis using x by (simp add: real_sqrt_mult)
qed

text \<open>The polar form of a point, from the arcus tangent of its slope.\<close>

lemma polar_right:
  assumes "0 < x"
  shows "sqrt (x\<^sup>2 + y\<^sup>2) * cos (arctan (y / x)) = x" and "sqrt (x\<^sup>2 + y\<^sup>2) * sin (arctan (y / x)) = y"
proof -
  have s: "0 < sqrt (1 + (y / x)\<^sup>2)" by (simp add: add_pos_nonneg)
  show "sqrt (x\<^sup>2 + y\<^sup>2) * cos (arctan (y / x)) = x"
    using s by (simp add: sqrt_scale [OF assms] cos_arctan)
  show "sqrt (x\<^sup>2 + y\<^sup>2) * sin (arctan (y / x)) = y"
    using s assms by (simp add: sqrt_scale [OF assms] sin_arctan)
qed

lemma atan2_polar: "sqrt (x\<^sup>2 + y\<^sup>2) * cos (atan2 y x) = x" "sqrt (x\<^sup>2 + y\<^sup>2) * sin (atan2 y x) = y"
proof -
  consider "0 < x" | "x < 0" | "x = 0" by linarith
  then have "sqrt (x\<^sup>2 + y\<^sup>2) * cos (atan2 y x) = x \<and> sqrt (x\<^sup>2 + y\<^sup>2) * sin (atan2 y x) = y"
  proof cases
    case 1
    then show ?thesis using polar_right [of x y] by (simp add: atan2_def)
  next
    case 2
    then have "0 < - x" by simp
    from polar_right [OF this, of "- y"]
    have "sqrt (x\<^sup>2 + y\<^sup>2) * cos (arctan (y / x)) = - x" "sqrt (x\<^sup>2 + y\<^sup>2) * sin (arctan (y / x)) = - y" by simp_all
    with 2 show ?thesis by (simp add: atan2_def)
  next
    case 3
    then show ?thesis by (cases "0 < y"; cases "y < 0") (auto simp: atan2_def)
  qed
  then show "sqrt (x\<^sup>2 + y\<^sup>2) * cos (atan2 y x) = x" "sqrt (x\<^sup>2 + y\<^sup>2) * sin (atan2 y x) = y" by blast+
qed

lemma atan2_bounds: "- pi < atan2 y x \<and> atan2 y x \<le> pi"
proof -
  have a: "- (pi / 2) < arctan (y / x)" "arctan (y / x) < pi / 2" by (rule arctan_lbound, rule arctan_ubound)
  have s: "x < 0 \<Longrightarrow> 0 \<le> y \<Longrightarrow> arctan (y / x) \<le> 0" "x < 0 \<Longrightarrow> y < 0 \<Longrightarrow> 0 < arctan (y / x)"
    by (simp_all add: divide_nonneg_neg divide_neg_neg)
  from a s show ?thesis using pi_gt_zero by (auto simp: atan2_def)
qed

lemma positive_degrees_range: "- pi < a \<Longrightarrow> a \<le> pi \<Longrightarrow> 0 \<le> positive_degrees (a * 180 / pi) \<and> positive_degrees (a * 180 / pi) < 360"
  by (auto simp: positive_degrees_def field_simps)

lemma positive_degrees_angle:
  "cos (positive_degrees (a * 180 / pi) * pi / 180) = cos a" "sin (positive_degrees (a * 180 / pi) * pi / 180) = sin a"
proof -
  have "positive_degrees (a * 180 / pi) * pi / 180 = a \<or> positive_degrees (a * 180 / pi) * pi / 180 = a + 2 * pi"
    by (auto simp: positive_degrees_def field_simps)
  then show "cos (positive_degrees (a * 180 / pi) * pi / 180) = cos a" "sin (positive_degrees (a * 180 / pi) * pi / 180) = sin a"
    by (elim disjE; simp only: cos_periodic sin_periodic)+
qed

text \<open>
  The reference: on the unit sphere, the direction from one point towards another is the
  projection of the second on the tangent plane of the first, spanned by its east and its north.
\<close>

type_synonym vec3 = "real \<times> real \<times> real"

definition dot3 :: "vec3 \<Rightarrow> vec3 \<Rightarrow> real" where
  "dot3 u v = fst u * fst v + fst (snd u) * fst (snd v) + snd (snd u) * snd (snd v)"

definition on_sphere :: "real \<Rightarrow> real \<Rightarrow> vec3" where
  "on_sphere lat lng = (let p = lat * pi / 180; l = lng * pi / 180 in (cos p * cos l, cos p * sin l, sin p))"

definition north_at :: "real \<Rightarrow> real \<Rightarrow> vec3" where
  "north_at lat lng = (let p = lat * pi / 180; l = lng * pi / 180 in (- sin p * cos l, - sin p * sin l, cos p))"

definition east_at :: "real \<Rightarrow> real \<Rightarrow> vec3" where
  "east_at lat lng = (let l = lng * pi / 180 in (- sin l, cos l, 0))"

definition north_part :: "real \<Rightarrow> real \<Rightarrow> real \<Rightarrow> real \<Rightarrow> real" where
  "north_part lat1 lng1 lat2 lng2 = dot3 (north_at lat1 lng1) (on_sphere lat2 lng2)"

definition east_part :: "real \<Rightarrow> real \<Rightarrow> real \<Rightarrow> real \<Rightarrow> real" where
  "east_part lat1 lng1 lat2 lng2 = dot3 (east_at lat1 lng1) (on_sphere lat2 lng2)"

lemma angle_diff: "(b - a) * pi / 180 = b * pi / 180 - a * pi / 180" for a b :: real
  by (simp add: left_diff_distrib diff_divide_distrib)

lemma towards_east:
  "east_part lat1 lng1 lat2 lng2 = sin ((lng2 - lng1) * pi / 180) * cos (lat2 * pi / 180)"
  unfolding angle_diff sin_diff by (simp add: east_part_def dot3_def east_at_def on_sphere_def Let_def algebra_simps)

lemma towards_north:
  "north_part lat1 lng1 lat2 lng2
     = cos (lat1 * pi / 180) * sin (lat2 * pi / 180)
       - sin (lat1 * pi / 180) * cos (lat2 * pi / 180) * cos ((lng2 - lng1) * pi / 180)"
  unfolding angle_diff cos_diff by (simp add: north_part_def dot3_def north_at_def on_sphere_def Let_def algebra_simps)

text \<open>C35: The bearing between two points is the azimuth: it lies in \<open>[0, 360)\<close>, and turning clockwise from
  north by it gives the direction, in the tangent plane of the first point, of the second.\<close>

theorem bearing_is_azimuth:
  "0 \<le> bearing_deg lat1 lng1 lat2 lng2 \<and> bearing_deg lat1 lng1 lat2 lng2 < 360
   \<and> sqrt ((north_part lat1 lng1 lat2 lng2)\<^sup>2 + (east_part lat1 lng1 lat2 lng2)\<^sup>2) * cos (bearing_deg lat1 lng1 lat2 lng2 * pi / 180)
       = north_part lat1 lng1 lat2 lng2
   \<and> sqrt ((north_part lat1 lng1 lat2 lng2)\<^sup>2 + (east_part lat1 lng1 lat2 lng2)\<^sup>2) * sin (bearing_deg lat1 lng1 lat2 lng2 * pi / 180)
       = east_part lat1 lng1 lat2 lng2"
proof -
  let ?y = "east_part lat1 lng1 lat2 lng2" and ?x = "north_part lat1 lng1 lat2 lng2"
  have b: "bearing_deg lat1 lng1 lat2 lng2 = positive_degrees (atan2 ?y ?x * 180 / pi)"
    by (simp add: bearing_deg_def Let_def towards_east towards_north)
  show ?thesis
    using atan2_bounds [of ?y ?x] positive_degrees_range [of "atan2 ?y ?x"]
    by (simp add: b positive_degrees_angle atan2_polar)
qed

lemma trunc_nonneg: "0 \<le> x \<Longrightarrow> trunc x = \<lfloor>x\<rfloor>"
  by (simp add: trunc_def)

lemma wrap_180_range:
  assumes "- 540 \<le> d"
  shows "- 180 \<le> wrap_180 d \<and> wrap_180 d < 180 \<and> (\<exists>k :: int. wrap_180 d = d + 360 * of_int k)"
proof -
  let ?f = "\<lfloor>(d + 540) / 360\<rfloor>"
  have w: "wrap_180 d = d + 360 - 360 * of_int ?f"
    using assms by (simp add: wrap_180_def go_fmod_def trunc_nonneg)
  have "of_int ?f \<le> (d + 540) / 360" "(d + 540) / 360 < of_int ?f + 1" by linarith+
  then have "- 180 \<le> wrap_180 d" "wrap_180 d < 180" by (simp_all add: w field_simps)
  moreover have "wrap_180 d = d + 360 * of_int (1 - ?f)" by (simp add: w algebra_simps)
  ultimately show ?thesis by blast
qed

text \<open>The comment promises \<open>(-180, 180]\<close>, so that a U-turn has a positive delta; it has a negative one.\<close>

lemma uturn_is_negative: "wrap_180 180 = - 180"
  by (simp add: wrap_180_def go_fmod_def trunc_def)

section \<open>Fields\<close>

text \<open>The number of bytes of the white space a string begins with; \<open>strings.Fields\<close> cuts at them.\<close>

definition lead_space :: "string \<Rightarrow> nat" where
  "lead_space s =
     (case s of [] \<Rightarrow> 0
      | a # t \<Rightarrow>
          if ascii_space a then 1
          else (case t of [] \<Rightarrow> 0
                | b # u \<Rightarrow> if space2 a b then 2 else (case u of [] \<Rightarrow> 0 | c # _ \<Rightarrow> if space3 a b c then 3 else 0)))"

function fields_from :: "string \<Rightarrow> string \<Rightarrow> string list" where
  "fields_from acc s =
     (if s = [] then (if acc = [] then [] else [rev acc])
      else if lead_space s = 0 then fields_from (hd s # acc) (tl s)
      else (if acc = [] then [] else [rev acc]) @ fields_from [] (drop (lead_space s) s))"
  by pat_completeness auto
termination
  by (relation "measure (\<lambda>(_, s). length s)") auto

declare fields_from.simps [simp del]

definition string_fields :: "string \<Rightarrow> string list" where
  "string_fields s = fields_from [] s"

section \<open>Well-known text\<close>

datatype geo_error = NotLineString | BadVertex string | BadNumber string | ArrayMismatch nat nat

definition wkt_open :: string where
  "wkt_open = ''LINESTRING(''"

definition parse_vertex :: "string \<Rightarrow> geo_error + latlng" where
  "parse_vertex p =
     (case string_fields (trim_space p) of
        [x, y] \<Rightarrow>
          (case parse_float x of
             None \<Rightarrow> Inl (BadNumber x)
           | Some lng \<Rightarrow>
               (case parse_float y of
                  None \<Rightarrow> Inl (BadNumber y)
                | Some lat \<Rightarrow> Inr \<lparr>ll_lat = lat, ll_lng = lng\<rparr>))
      | _ \<Rightarrow> Inl (BadVertex p))"

fun parse_vertices :: "string list \<Rightarrow> geo_error + latlng list" where
  "parse_vertices [] = Inr []"
| "parse_vertices (p # ps) =
     (case parse_vertex p of
        Inl e \<Rightarrow> Inl e
      | Inr v \<Rightarrow> (case parse_vertices ps of Inl e \<Rightarrow> Inl e | Inr vs \<Rightarrow> Inr (v # vs)))"

definition parse_wkt :: "string \<Rightarrow> geo_error + latlng list" where
  "parse_wkt wkt =
     (if take (length wkt_open) wkt \<noteq> wkt_open \<or> drop (length wkt - 1) wkt \<noteq> '')'' then Inl NotLineString
      else (let body = drop (length wkt_open) (take (length wkt - 1) wkt) in
            if body = [] then Inr [] else parse_vertices (split_on (CHR '','') body)))"

text \<open>\<open>%g\<close> prints the shortest form, longitude first.\<close>

definition show_vertex :: "latlng \<Rightarrow> string" where
  "show_vertex v = format_float (ll_lng v) @ '' '' @ format_float (ll_lat v)"

fun join_vertices :: "latlng list \<Rightarrow> string" where
  "join_vertices [] = []"
| "join_vertices [v] = show_vertex v"
| "join_vertices (v # vs) = show_vertex v @ '', '' @ join_vertices vs"

definition build_wkt :: "latlng list \<Rightarrow> string" where
  "build_wkt track = (if length track < 2 then [] else wkt_open @ join_vertices track @ '')'')"

text \<open>A printed number has neither white space nor commas.\<close>

definition num_char :: "char \<Rightarrow> bool" where
  "num_char c \<longleftrightarrow> is_digit c \<or> c \<in> {CHR ''+'', CHR ''-'', CHR ''.'', CHR ''e''}"

lemma num_char_byte: "num_char c \<Longrightarrow> 43 \<le> byte c \<and> byte c \<le> 101 \<and> byte c \<noteq> 44"
  by (auto simp: num_char_def is_digit_def digit_val_def byte_def Let_def split: if_splits)

lemma num_char_space [simp]:
  assumes "num_char c"
  shows "\<not> ascii_space c" "\<not> space2 c b" "\<not> space2 b c" "\<not> space3 c a b" "\<not> space3 a b c" "c \<noteq> CHR '',''"
  using num_char_byte [OF assms] by (auto simp: ascii_space_def space2_def space3_def byte_def)

lemma pad_num: "c \<in> set (pad_zeros k (show_nat n)) \<Longrightarrow> is_digit c"
  using pad_digits by blast

lemma show_num: "c \<in> set (show_nat n) \<Longrightarrow> is_digit c"
  using show_nat_digits by blast

lemma exponent_form_chars: "c \<in> set (exponent_form (show_nat m) e) \<Longrightarrow> num_char c"
  by (auto simp: exponent_form_def num_char_def dest: pad_num show_num in_set_takeD in_set_dropD split: if_splits)

lemma decimal_form_chars: "c \<in> set (decimal_form m q) \<Longrightarrow> num_char c"
  by (auto simp: decimal_form_def num_char_def is_digit_def digit_val_def dest: pad_num show_num split: if_splits)

lemma format_float_form:
  "format_float x = ''0'' \<or> (\<exists>m e q. format_float x = (if x < 0 then ''-'' else []) @ exponent_form (show_nat m) e
    \<or> format_float x = (if x < 0 then ''-'' else []) @ decimal_form m q)"
proof -
  obtain m q where "shortest_decimal \<bar>x\<bar> = (m, q)" by fastforce
  then show ?thesis by (simp add: format_float_def Let_def) blast
qed

lemma format_float_chars: "c \<in> set (format_float x) \<Longrightarrow> num_char c"
proof -
  assume c: "c \<in> set (format_float x)"
  have "num_char (CHR ''0'')" "num_char (CHR ''-'')" by (simp_all add: num_char_def is_digit_def digit_val_def)
  with c format_float_form [of x] exponent_form_chars decimal_form_chars show ?thesis
    by (elim disjE exE) (simp_all split: if_splits, blast+)
qed

lemma format_float_nonempty: "format_float x \<noteq> []"
  using format_float_form [of x] by (elim disjE exE) (simp_all add: exponent_form_def decimal_form_def)

lemma show_vertex_chars: "c \<in> set (show_vertex v) \<Longrightarrow> num_char c \<or> c = CHR '' ''"
  using format_float_chars by (auto simp: show_vertex_def)

lemma comma_free: "CHR '','' \<notin> set (show_vertex v)"
  using show_vertex_chars num_char_space(6) by fastforce

lemma lead_space_num: "num_char c \<Longrightarrow> lead_space (c # s) = 0"
  by (simp add: lead_space_def split: list.split)

lemma fields_word: "\<forall>c \<in> set w. num_char c \<Longrightarrow> fields_from acc (w @ s) = fields_from (rev w @ acc) s"
  by (induction w arbitrary: acc) (simp_all add: fields_from.simps [of _ "_ # _"] lead_space_num)

lemma fields_pair:
  assumes "\<forall>c \<in> set x. num_char c" and "x \<noteq> []" and "\<forall>c \<in> set y. num_char c" and "y \<noteq> []"
  shows "string_fields (x @ '' '' @ y) = [x, y]"
proof -
  have sp: "lead_space (CHR '' '' # y) = 1" by (simp add: lead_space_def ascii_space_def)
  have "string_fields (x @ '' '' @ y) = fields_from (rev x) ('' '' @ y)"
    using fields_word [OF assms(1), of "[]"] by (simp add: string_fields_def)
  also have "\<dots> = x # fields_from [] y" using assms(2) by (simp add: fields_from.simps [of _ "_ # _"] sp)
  also have "\<dots> = [x, y]" using fields_word [OF assms(3), of "[]" "[]"] assms(4) by (simp add: fields_from.simps [of _ "[]"])
  finally show ?thesis .
qed

lemma trim_vertex: "trim_space (show_vertex v) = show_vertex v" "trim_space (CHR '' '' # show_vertex v) = show_vertex v"
proof -
  let ?x = "format_float (ll_lng v)" and ?y = "format_float (ll_lat v)"
  have h: "num_char (hd (show_vertex v))" and l: "num_char (last (show_vertex v))"
    using format_float_chars [OF hd_in_set [OF format_float_nonempty, of "ll_lng v"]]
      format_float_chars [OF last_in_set [OF format_float_nonempty, of "ll_lat v"]]
    by (simp_all add: show_vertex_def hd_append format_float_nonempty)
  then show id: "trim_space (show_vertex v) = show_vertex v"
    using num_char_byte by (intro trim_space_id) (simp_all, fastforce+)
  obtain c s where "show_vertex v = c # s" by (cases "show_vertex v") (auto simp: show_vertex_def)
  then have "trim_left (CHR '' '' # show_vertex v) = trim_left (show_vertex v)"
    by (cases s) (auto simp: ascii_space_def)
  then show "trim_space (CHR '' '' # show_vertex v) = show_vertex v" using id by (simp add: trim_space_def)
qed

definition decimal_vertex :: "latlng \<Rightarrow> bool" where
  "decimal_vertex v \<longleftrightarrow> is_decimal (ll_lat v) \<and> is_decimal (ll_lng v)"

lemma is_decimal_int: "is_decimal (of_int n)"
proof -
  have "decimal_places 400 \<bar>real_of_int n\<bar> = 0" by (subst decimal_places.simps) simp
  then show ?thesis by (simp add: is_decimal_def flip: of_int_abs)
qed

lemma parse_show_vertex:
  assumes "decimal_vertex v"
  shows "parse_vertex (show_vertex v) = Inr v" and "parse_vertex (CHR '' '' # show_vertex v) = Inr v"
proof -
  have f: "string_fields (show_vertex v) = [format_float (ll_lng v), format_float (ll_lat v)]"
    unfolding show_vertex_def by (rule fields_pair) (simp_all add: format_float_chars format_float_nonempty)
  from assms show "parse_vertex (show_vertex v) = Inr v" "parse_vertex (CHR '' '' # show_vertex v) = Inr v"
    by (simp_all add: parse_vertex_def trim_vertex f format_float_reads_back decimal_vertex_def)
qed

lemma split_joined: "split_on (CHR '','') (join_vertices (v # vs)) = show_vertex v # map (\<lambda>u. CHR '' '' # show_vertex u) vs"
proof (induction vs arbitrary: v)
  case Nil
  then show ?case by (simp add: split_on_none comma_free)
next
  case (Cons u us)
  have "split_on (CHR '','') (CHR '' '' # join_vertices (u # us)) = map (\<lambda>w. CHR '' '' # show_vertex w) (u # us)"
    using Cons.IH [of u] by simp
  then show ?case by (simp add: split_on_append comma_free)
qed

lemma parse_spaced: "\<forall>v \<in> set vs. decimal_vertex v \<Longrightarrow> parse_vertices (map (\<lambda>u. CHR '' '' # show_vertex u) vs) = Inr vs"
  by (induction vs) (simp_all add: parse_show_vertex)

lemma wkt_round_trip:
  assumes "2 \<le> length track" and "\<forall>v \<in> set track. decimal_vertex v"
  shows "parse_wkt (build_wkt track) = Inr track"
proof -
  obtain v vs where t: "track = v # vs" using assms(1) by (cases track) auto
  have "join_vertices track \<noteq> []" by (cases vs) (simp_all add: t show_vertex_def)
  moreover have "parse_vertices (split_on (CHR '','') (join_vertices track)) = Inr track"
    using assms(2) unfolding t split_joined by (simp add: parse_show_vertex parse_spaced)
  ultimately show ?thesis using assms(1) by (simp add: parse_wkt_def build_wkt_def wkt_open_def)
qed

text \<open>C39: The track that the metadata worker prints as WKT is the track the turn detector and the plate
  detector read from it: every vertex, in order, the latitude and the longitude in their own fields.\<close>

theorem wkt_reads_back:
  assumes "2 \<le> length track" and "\<forall>v \<in> set track. decimal_vertex v"
  shows "parse_wkt (build_wkt track) = Inr track"
  using assms by (rule wkt_round_trip)

lemma wkt_reads_back_witness:
  "parse_wkt (build_wkt [\<lparr>ll_lat = 37, ll_lng = - 122\<rparr>, \<lparr>ll_lat = 38, ll_lng = 0\<rparr>])
     = Inr [\<lparr>ll_lat = 37, ll_lng = - 122\<rparr>, \<lparr>ll_lat = 38, ll_lng = 0\<rparr>]"
  using is_decimal_int [of 37] is_decimal_int [of "- 122"] is_decimal_int [of 38] is_decimal_int [of 0]
  by (intro wkt_reads_back) (simp_all add: decimal_vertex_def)

end
