(* ===== verification/GeoTable.thy ===== *)
theory GeoTable imports Geo RouteTable "HOL-Library.Product_Lexorder" begin

text \<open>
  The routes with their geometry as the metadata, turn and trip workers see them: the hand-written
  statements of \<open>internal/db/routes_custom.go\<close> and \<open>route_turns_custom.go\<close> that pick the routes to work
  on, \<open>UpdateRouteMetadata\<close> of \<open>routes.sql.go\<close>, and the turn statements of \<open>route_turns.sql.go\<close>.
  PostGIS is outside: the column holds a list of points, and \<open>ST_GeomFromText\<close> and \<open>ST_AsText\<close> are
  arguments of the statements that call them.
\<close>

record geo_route = route +
  gr_geometry :: "latlng list option"
  gr_times :: "int list option"

record seg_stat =
  sm_route :: int
  sm_number :: int
  sm_created :: gotime
  sm_fcamera :: bool

record turn_row =
  tw_dongle :: string
  tw_route :: string
  tw_ts :: gotime
  tw_offset :: int
  tw_before :: real
  tw_after :: real
  tw_delta :: real
  tw_lat :: real
  tw_lng :: real

record geo_db =
  gd_routes :: "geo_route list"
  gd_segments :: "seg_stat list"
  gd_turns :: "turn_row list"

section \<open>The routes a worker picks\<close>

text \<open>The lateral join: when the newest segment of the route arrived, if it has any.\<close>

definition latest_segment_at :: "geo_db \<Rightarrow> geo_route \<Rightarrow> gotime option" where
  "latest_segment_at d r =
     (case map sm_created (filter (\<lambda>s. sm_route s = r_id r) (gd_segments d)) of
        [] \<Rightarrow> None
      | t # ts \<Rightarrow> Some (foldl max t ts))"

definition finalized_before :: "geo_db \<Rightarrow> gotime \<Rightarrow> geo_route \<Rightarrow> bool" where
  "finalized_before d cutoff r = (case latest_segment_at d r of None \<Rightarrow> False | Some t \<Rightarrow> t < cutoff)"

definition has_turns :: "geo_db \<Rightarrow> geo_route \<Rightarrow> bool" where
  "has_turns d r = list_ex (\<lambda>t. tw_dongle t = r_dongle r \<and> tw_route t = r_name r) (gd_turns d)"

definition by_created :: "geo_route list \<Rightarrow> geo_route list" where
  "by_created rs = sort_key (\<lambda>r. (r_created r, r_id r)) rs"

definition needing_metadata :: "gotime \<Rightarrow> geo_db \<Rightarrow> geo_route list" where
  "needing_metadata cutoff d =
     by_created (filter (\<lambda>r. finalized_before d cutoff r
       \<and> (r_start r = None \<or> gr_geometry r = None \<or> gr_geometry r \<noteq> None \<and> gr_times r = None)) (gd_routes d))"

definition list_routes_needing_metadata :: "gotime \<Rightarrow> nat \<Rightarrow> geo_db \<Rightarrow> geo_route list" where
  "list_routes_needing_metadata cutoff limit d = take limit (needing_metadata cutoff d)"

definition locatable :: "geo_route \<Rightarrow> bool" where
  "locatable r \<longleftrightarrow> r_start r \<noteq> None \<and> gr_geometry r \<noteq> None \<and> gr_times r \<noteq> None"

definition needing_turns :: "gotime \<Rightarrow> geo_db \<Rightarrow> geo_route list" where
  "needing_turns cutoff d =
     by_created (filter (\<lambda>r. finalized_before d cutoff r \<and> locatable r \<and> \<not> has_turns d r) (gd_routes d))"

definition list_routes_for_turn_detection :: "gotime \<Rightarrow> nat \<Rightarrow> geo_db \<Rightarrow> geo_route list" where
  "list_routes_for_turn_detection cutoff limit d = take limit (needing_turns cutoff d)"

definition list_recent_for_turn_backfill :: "nat \<Rightarrow> geo_db \<Rightarrow> geo_route list" where
  "list_recent_for_turn_backfill limit d =
     take limit (rev (by_created (filter (\<lambda>r. locatable r \<and> \<not> has_turns d r) (gd_routes d))))"

section \<open>Reading and writing a route\<close>

definition find_route :: "geo_db \<Rightarrow> string \<Rightarrow> string \<Rightarrow> geo_route option" where
  "find_route d dongle name = find (\<lambda>r. r_dongle r = dongle \<and> r_name r = name) (gd_routes d)"

text \<open>\<open>ST_AsText(geometry), geometry_times\<close>: the outer option is the missing row.\<close>

definition geometry_and_times ::
  "(latlng list \<Rightarrow> string) \<Rightarrow> geo_db \<Rightarrow> string \<Rightarrow> string \<Rightarrow> (string option \<times> int list) option" where
  "geometry_and_times as_text d dongle name =
     (case find_route d dongle name of
        None \<Rightarrow> None
      | Some r \<Rightarrow> Some (map_option as_text (gr_geometry r), case gr_times r of None \<Rightarrow> [] | Some ts \<Rightarrow> ts))"

record meta_params =
  mp_id :: int
  mp_start :: "gotime option"
  mp_end :: "gotime option"
  mp_wkt :: "string option"
  mp_times :: "int list option"

definition new_times ::
  "(string \<Rightarrow> latlng list) \<Rightarrow> meta_params \<Rightarrow> latlng list option \<Rightarrow> int list option \<Rightarrow> int list option" where
  "new_times geom p old_geom old =
     (case mp_times p of
        None \<Rightarrow> old
      | Some ts \<Rightarrow>
          (case mp_wkt p of
             Some w \<Rightarrow>
               if length (geom w) < 2 then old
               else if length (geom w) \<noteq> length ts then old
               else Some ts
           | None \<Rightarrow>
               (case old_geom of
                  Some g \<Rightarrow> if length g \<noteq> length ts then old else Some ts
                | None \<Rightarrow> old)))"

definition new_geometry ::
  "(string \<Rightarrow> latlng list) \<Rightarrow> meta_params \<Rightarrow> latlng list option \<Rightarrow> latlng list option" where
  "new_geometry geom p old = (case mp_wkt p of None \<Rightarrow> old | Some w \<Rightarrow> if length (geom w) < 2 then old else Some (geom w))"

definition update_metadata_row :: "(string \<Rightarrow> latlng list) \<Rightarrow> meta_params \<Rightarrow> geo_route \<Rightarrow> geo_route" where
  "update_metadata_row geom p r =
     r\<lparr>r_start := sql_coalesce (mp_start p) (r_start r),
       r_end := sql_coalesce (mp_end p) (r_end r),
       gr_geometry := new_geometry geom p (gr_geometry r),
       gr_times := new_times geom p (gr_geometry r) (gr_times r)\<rparr>"

text \<open>\<open>ST_GeomFromText\<close> raises on a text it cannot read; then the statement fails.\<close>

definition update_route_metadata ::
  "(string \<Rightarrow> latlng list option) \<Rightarrow> meta_params \<Rightarrow> geo_db \<Rightarrow> geo_db option" where
  "update_route_metadata from_text p d =
     (if (case mp_wkt p of None \<Rightarrow> False | Some w \<Rightarrow> from_text w = None)
         \<and> list_ex (\<lambda>r. r_id r = mp_id p) (gd_routes d)
      then None
      else Some (d\<lparr>gd_routes := map (\<lambda>r. if r_id r = mp_id p then update_metadata_row (\<lambda>w. the (from_text w)) p r else r)
                                   (gd_routes d)\<rparr>))"

section \<open>Turn rows\<close>

definition is_turn_of :: "string \<Rightarrow> string \<Rightarrow> turn_row \<Rightarrow> bool" where
  "is_turn_of dongle name t \<longleftrightarrow> tw_dongle t = dongle \<and> tw_route t = name"

definition delete_turns :: "string \<Rightarrow> string \<Rightarrow> geo_db \<Rightarrow> geo_db" where
  "delete_turns dongle name d = d\<lparr>gd_turns := filter (\<lambda>t. \<not> is_turn_of dongle name t) (gd_turns d)\<rparr>"

text \<open>\<open>ON CONFLICT (dongle_id, route, turn_offset_ms) DO NOTHING\<close>, row by row.\<close>

definition insert_turn :: "turn_row \<Rightarrow> turn_row list \<Rightarrow> turn_row list" where
  "insert_turn t ts =
     (if list_ex (\<lambda>u. tw_dongle u = tw_dongle t \<and> tw_route u = tw_route t \<and> tw_offset u = tw_offset t) ts then ts
      else ts @ [t])"

definition insert_turns :: "turn_row list \<Rightarrow> geo_db \<Rightarrow> geo_db" where
  "insert_turns new d = d\<lparr>gd_turns := fold insert_turn new (gd_turns d)\<rparr>"

definition list_turns :: "string \<Rightarrow> string \<Rightarrow> geo_db \<Rightarrow> turn_row list" where
  "list_turns dongle name d = sort_key tw_ts (filter (is_turn_of dongle name) (gd_turns d))"

definition count_route_turns :: "string \<Rightarrow> string \<Rightarrow> geo_db \<Rightarrow> nat" where
  "count_route_turns dongle name d = length (filter (is_turn_of dongle name) (gd_turns d))"

section \<open>The parallel arrays\<close>

text \<open>The invariant the comments of the statement promise: times only beside a geometry, one per point.\<close>

definition times_parallel :: "geo_route \<Rightarrow> bool" where
  "times_parallel r =
     (case gr_times r of None \<Rightarrow> True
      | Some ts \<Rightarrow> (case gr_geometry r of None \<Rightarrow> False | Some g \<Rightarrow> length g = length ts))"

definition params_parallel :: "(string \<Rightarrow> latlng list) \<Rightarrow> meta_params \<Rightarrow> bool" where
  "params_parallel geom p =
     (case mp_wkt p of None \<Rightarrow> True
      | Some w \<Rightarrow> length (geom w) < 2 \<or> (case mp_times p of None \<Rightarrow> False | Some ts \<Rightarrow> length ts = length (geom w)))"

lemma update_keeps_parallel:
  assumes "times_parallel r" and "params_parallel geom p"
  shows "times_parallel (update_metadata_row geom p r)"
proof (cases "mp_wkt p")
  case None
  with assms(1) show ?thesis
    by (cases "mp_times p"; cases "gr_geometry r"; cases "gr_times r")
      (simp_all add: times_parallel_def update_metadata_row_def new_times_def new_geometry_def)
next
  case (Some w)
  with assms show ?thesis
    by (cases "length (geom w) < 2"; cases "mp_times p"; cases "gr_times r")
      (simp_all add: times_parallel_def params_parallel_def update_metadata_row_def new_times_def new_geometry_def)
qed

text \<open>
  It is not enforced \<open>regardless of caller bugs\<close>: when times of another length come with a new
  geometry, the geometry is replaced and the times of the old one stay.
\<close>

lemma mismatch_leaves_stale_times:
  assumes "geom w = [a, b, c]" and "gr_geometry r = Some [x, y]" and "gr_times r = Some [0, 1000]"
  shows "times_parallel r"
    and "\<not> times_parallel (update_metadata_row geom \<lparr>mp_id = 1, mp_start = None, mp_end = None, mp_wkt = Some w, mp_times = Some [0, 500]\<rparr> r)"
  using assms by (simp_all add: times_parallel_def update_metadata_row_def new_times_def new_geometry_def)

section \<open>A batch of the oldest\<close>

text \<open>
  The three workers share a shape: each pass takes the oldest routes that qualify, at most a limit, and
  works on them one by one. What becomes of a route is up to the worker; when the ones at the head of the
  queue are left as they are, the batch of the next pass is the same, and no route behind them is reached.
\<close>

definition batch_pass ::
  "('c \<Rightarrow> 'db \<Rightarrow> 'r list) \<Rightarrow> ('r \<Rightarrow> 'db \<Rightarrow> 'db) \<Rightarrow> nat \<Rightarrow> 'c \<Rightarrow> 'db \<Rightarrow> 'db" where
  "batch_pass queue work limit c d = fold work (take limit (queue c d)) d"

lemma fold_barren: "\<forall>r \<in> set rs. work r d = d \<Longrightarrow> fold work rs d = d"
  by (induction rs) simp_all

lemma barren_forever:
  "\<forall>c \<in> set cs. \<forall>r \<in> set (take limit (queue c d)). work r d = d \<Longrightarrow> fold (batch_pass queue work limit) cs d = d"
  by (induction cs) (simp_all add: batch_pass_def fold_barren)

end
