(* ===== verification/Turns.thy ===== *)
theory Turns imports GeoTable Settings "HOL-Library.Sublist" begin

text \<open>
  The turn detector (\<open>internal/worker/turn_detector.go\<close>): the sliding-window algorithm of
  \<open>DetectTurns\<close>, the tunables, the writing of a route's turns in one transaction, and the pass over
  the routes that wait for turns. Times are milliseconds, far from the bounds of \<open>int64\<close>.
\<close>

section \<open>The algorithm\<close>

record turn_config =
  tc_window :: real
  tc_delta :: real
  tc_dedup :: real

definition normalized :: "turn_config \<Rightarrow> turn_config" where
  "normalized c =
     \<lparr>tc_window = (if tc_window c \<le> 0 then 4 else tc_window c),
      tc_delta = (if tc_delta c \<le> 0 then 35 else tc_delta c),
      tc_dedup = (if tc_dedup c < 0 then 5 else tc_dedup c)\<rparr>"

record detected_turn =
  dt_offset :: int
  dt_before :: real
  dt_after :: real
  dt_delta :: real
  dt_lat :: real
  dt_lng :: real

fun edge_bearings :: "latlng list \<Rightarrow> real list" where
  "edge_bearings (p # q # ps) = bearing_deg (ll_lat p) (ll_lng p) (ll_lat q) (ll_lng q) # edge_bearings (q # ps)"
| "edge_bearings _ = []"

fun edge_mids :: "int list \<Rightarrow> int list" where
  "edge_mids (s # t # ts) = go_div (s + t) 2 # edge_mids (t # ts)"
| "edge_mids _ = []"

text \<open>The bearings of the edges whose midpoint lies in the window, and the direction of the sum of their unit vectors.\<close>

definition window_edges :: "real list \<Rightarrow> int list \<Rightarrow> int \<Rightarrow> int \<Rightarrow> real list" where
  "window_edges bearings mids lo hi = map fst (filter (\<lambda>(b, m). lo < m \<and> m \<le> hi) (zip bearings mids))"

definition windowed_bearing :: "real list \<Rightarrow> int list \<Rightarrow> int \<Rightarrow> int \<Rightarrow> real option" where
  "windowed_bearing bearings mids lo hi =
     (let rads = map (\<lambda>b. b * pi / 180) (window_edges bearings mids lo hi);
          sum_cos = foldl (\<lambda>a r. a + cos r) 0 rads; sum_sin = foldl (\<lambda>a r. a + sin r) 0 rads
      in if rads = [] then None else Some (positive_degrees (atan2 sum_sin sum_cos * 180 / pi)))"

definition half_window_ms :: "turn_config \<Rightarrow> int" where
  "half_window_ms c = (let h = trunc (tc_window c * 1000 / 2) in if h \<le> 0 then 2000 else h)"

definition dedup_ms :: "turn_config \<Rightarrow> int" where
  "dedup_ms c = trunc (tc_dedup c * 1000)"

text \<open>The body of the loop up to the suppression: the turn at an interior vertex, if there is one.\<close>

definition turn_at :: "turn_config \<Rightarrow> latlng list \<Rightarrow> int list \<Rightarrow> nat \<Rightarrow> detected_turn option" where
  "turn_at c verts tms i =
     (let t = tms ! i; h = half_window_ms c; bearings = edge_bearings verts; mids = edge_mids tms in
      case windowed_bearing bearings mids (t - h) t of
        None \<Rightarrow> None
      | Some before \<Rightarrow>
          (case windowed_bearing bearings mids t (t + h) of
             None \<Rightarrow> None
           | Some after \<Rightarrow>
               (let delta = wrap_180 (after - before) in
                if \<bar>delta\<bar> < tc_delta c then None
                else Some \<lparr>dt_offset = t - hd tms, dt_before = before, dt_after = after, dt_delta = delta,
                           dt_lat = ll_lat (verts ! i), dt_lng = ll_lng (verts ! i)\<rparr>)))"

text \<open>The suppression: the state is the time of the last turn emitted, if any.\<close>

fun emit_turns :: "int \<Rightarrow> int option \<Rightarrow> (int \<times> detected_turn option) list \<Rightarrow> detected_turn list" where
  "emit_turns dedup prev [] = []"
| "emit_turns dedup prev ((t, cand) # cs) =
     (case cand of
        None \<Rightarrow> emit_turns dedup prev cs
      | Some d \<Rightarrow>
          if (case prev of None \<Rightarrow> False | Some l \<Rightarrow> t - l < dedup) then emit_turns dedup prev cs
          else d # emit_turns dedup (Some t) cs)"

definition turn_candidates :: "turn_config \<Rightarrow> latlng list \<Rightarrow> int list \<Rightarrow> (int \<times> detected_turn option) list" where
  "turn_candidates c verts tms = map (\<lambda>i. (tms ! i, turn_at c verts tms i)) [1..<length verts - 1]"

definition detect_turns :: "turn_config \<Rightarrow> latlng list \<Rightarrow> int list \<Rightarrow> detected_turn list" where
  "detect_turns cfg verts tms =
     (let c = normalized cfg in
      if length verts < 3 \<or> length verts \<noteq> length tms then []
      else emit_turns (dedup_ms c) None (turn_candidates c verts tms))"

section \<open>What is detected\<close>

lemma foldl_sum: "foldl (\<lambda>a x. a + f x) (z :: real) xs = z + sum_list (map f xs)"
  by (induction xs arbitrary: z) (simp_all add: add.assoc)

text \<open>The mean bearing points along the sum of the unit vectors of the edges in the window.\<close>

lemma windowed_mean:
  assumes "windowed_bearing bearings mids lo hi = Some b"
  defines "es \<equiv> window_edges bearings mids lo hi"
  shows "0 \<le> b \<and> b < 360"
    and "sqrt ((\<Sum>e \<leftarrow> es. cos (e * pi / 180))\<^sup>2 + (\<Sum>e \<leftarrow> es. sin (e * pi / 180))\<^sup>2) * cos (b * pi / 180) = (\<Sum>e \<leftarrow> es. cos (e * pi / 180))"
    and "sqrt ((\<Sum>e \<leftarrow> es. cos (e * pi / 180))\<^sup>2 + (\<Sum>e \<leftarrow> es. sin (e * pi / 180))\<^sup>2) * sin (b * pi / 180) = (\<Sum>e \<leftarrow> es. sin (e * pi / 180))"
proof -
  let ?x = "\<Sum>e \<leftarrow> es. cos (e * pi / 180)" and ?y = "\<Sum>e \<leftarrow> es. sin (e * pi / 180)"
  have b: "b = positive_degrees (atan2 ?y ?x * 180 / pi)"
    using assms(1) by (simp add: windowed_bearing_def Let_def foldl_sum es_def comp_def split: if_splits)
  show "0 \<le> b \<and> b < 360" using atan2_bounds [of ?y ?x] positive_degrees_range [of "atan2 ?y ?x"] by (simp add: b)
  show "sqrt (?x\<^sup>2 + ?y\<^sup>2) * cos (b * pi / 180) = ?x" "sqrt (?x\<^sup>2 + ?y\<^sup>2) * sin (b * pi / 180) = ?y"
    by (simp_all add: b positive_degrees_angle atan2_polar)
qed

lemma degrees_unique:
  assumes "0 \<le> a" "a < 360" "0 \<le> b" "b < 360"
    and "cos (a * pi / 180) = cos (b * pi / 180)" and "sin (a * pi / 180) = sin (b * pi / 180)"
  shows "a = b"
proof -
  obtain n :: int where "a * pi / 180 = b * pi / 180 + 2 * pi * of_int n"
    using assms(5,6) sin_cos_eq_iff [of "a * pi / 180" "b * pi / 180"] by blast
  then have "a * pi = (b + 360 * of_int n) * pi" by (simp add: field_simps)
  then have e: "a = b + 360 * of_int n" by simp
  with assms(1-4) have "of_int n < (1 :: real)" "(- 1 :: real) < of_int n" by linarith+
  then have "n = 0" by linarith
  with e show ?thesis by simp
qed

lemma mean_of_equal:
  assumes "windowed_bearing bearings mids lo hi = Some b" and "\<forall>e \<in> set bearings. e = c" and "0 \<le> c" and "c < 360"
  shows "b = c"
proof -
  let ?es = "window_edges bearings mids lo hi"
  have es: "\<forall>e \<in> set ?es. e = c" using assms(2) by (auto simp: window_edges_def dest: set_zip_leftD)
  then have "map f ?es = replicate (length ?es) (f c)" for f :: "real \<Rightarrow> real"
    by (simp add: map_replicate_const [symmetric] cong: map_cong)
  then have s: "(\<Sum>e \<leftarrow> ?es. f e) = real (length ?es) * f c" for f :: "real \<Rightarrow> real"
    by (metis sum_list_replicate)
  have n: "0 < real (length ?es)" using assms(1) by (auto simp: windowed_bearing_def Let_def split: if_splits)
  have "(real (length ?es) * cos (c * pi / 180))\<^sup>2 + (real (length ?es) * sin (c * pi / 180))\<^sup>2
      = (real (length ?es))\<^sup>2 * ((cos (c * pi / 180))\<^sup>2 + (sin (c * pi / 180))\<^sup>2)"
    by (simp only: power_mult_distrib distrib_left)
  then have r: "sqrt ((real (length ?es) * cos (c * pi / 180))\<^sup>2 + (real (length ?es) * sin (c * pi / 180))\<^sup>2) = real (length ?es)"
    by (simp only: sin_cos_squared_add2 mult_1_right real_sqrt_abs abs_of_nat)
  have nz: "real (length ?es) \<noteq> 0" using n by (rule less_imp_neq [symmetric])
  have "real (length ?es) * cos (b * pi / 180) = real (length ?es) * cos (c * pi / 180)"
    using windowed_mean(2) [OF assms(1)] by (simp only: s r)
  then have ce: "cos (b * pi / 180) = cos (c * pi / 180)" by (rule mult_left_cancel [OF nz, THEN iffD1])
  have "real (length ?es) * sin (b * pi / 180) = real (length ?es) * sin (c * pi / 180)"
    using windowed_mean(3) [OF assms(1)] by (simp only: s r)
  then have se: "sin (b * pi / 180) = sin (c * pi / 180)" by (rule mult_left_cancel [OF nz, THEN iffD1])
  have "0 \<le> b" "b < 360" using windowed_mean(1) [OF assms(1)] by blast+
  then show ?thesis using assms(3,4) ce se by (rule degrees_unique)
qed

lemma bearing_range: "0 \<le> bearing_deg a b c d \<and> bearing_deg a b c d < 360"
  using atan2_bounds positive_degrees_range by (simp add: bearing_deg_def Let_def)

lemma turn_at_Some:
  assumes "turn_at c verts tms i = Some x"
  shows "dt_offset x = tms ! i - hd tms" and "tc_delta c \<le> \<bar>dt_delta x\<bar>" and "dt_delta x = wrap_180 (dt_after x - dt_before x)"
    and "windowed_bearing (edge_bearings verts) (edge_mids tms) (tms ! i - half_window_ms c) (tms ! i) = Some (dt_before x)"
    and "windowed_bearing (edge_bearings verts) (edge_mids tms) (tms ! i) (tms ! i + half_window_ms c) = Some (dt_after x)"
  using assms by (auto simp: turn_at_def Let_def split: option.splits if_splits)

lemma turn_delta_range:
  assumes "turn_at c verts tms i = Some x"
  shows "- 180 \<le> dt_delta x \<and> dt_delta x < 180 \<and> (\<exists>k :: int. dt_delta x = dt_after x - dt_before x + 360 * of_int k)"
  using wrap_180_range [of "dt_after x - dt_before x"] turn_at_Some [OF assms]
    windowed_mean(1) [OF turn_at_Some(4) [OF assms]] windowed_mean(1) [OF turn_at_Some(5) [OF assms]] by simp

lemma emit_subseq: "subseq (emit_turns d prev cs) (List.map_filter snd cs)"
  by (induction d prev cs rule: emit_turns.induct) (auto simp: map_filter_simps split: option.splits)

lemma emit_spaced:
  assumes "0 \<le> d" and "sorted (map fst cs)" and "\<forall>(t, c) \<in> set cs. \<forall>x. c = Some x \<longrightarrow> dt_offset x = t - t0"
  shows "sorted_wrt (\<lambda>a b. dt_offset a + d \<le> dt_offset b) (emit_turns d prev cs)
    \<and> (\<forall>l. prev = Some l \<longrightarrow> (\<forall>x \<in> set (emit_turns d prev cs). l + d \<le> dt_offset x + t0))"
  using assms
proof (induction cs arbitrary: prev)
  case (Cons p cs)
  obtain t c where p: "p = (t, c)" by fastforce
  from Cons have IH: "sorted_wrt (\<lambda>a b. dt_offset a + d \<le> dt_offset b) (emit_turns d q cs)
    \<and> (\<forall>l. q = Some l \<longrightarrow> (\<forall>x \<in> set (emit_turns d q cs). l + d \<le> dt_offset x + t0))" for q by simp
  show ?case
  proof (cases c)
    case None
    then show ?thesis using IH [of prev] p by simp
  next
    case (Some x)
    then have x: "dt_offset x = t - t0" using Cons.prems(3) p by auto
    show ?thesis
    proof (cases "case prev of None \<Rightarrow> False | Some l \<Rightarrow> t - l < d")
      case True
      then have e: "emit_turns d prev (p # cs) = emit_turns d prev cs" using Some p by simp
      show ?thesis unfolding e by (rule IH)
    next
      case False
      then have e: "emit_turns d prev (p # cs) = x # emit_turns d (Some t) cs" using Some p by simp
      have l: "l + d \<le> t" if "prev = Some l" for l using False that by simp
      have far: "\<forall>y \<in> set (emit_turns d (Some t) cs). t + d \<le> dt_offset y + t0" using IH [of "Some t"] by blast
      have "sorted_wrt (\<lambda>a b. dt_offset a + d \<le> dt_offset b) (emit_turns d (Some t) cs)" using IH [of "Some t"] by blast
      moreover have "\<forall>y \<in> set (emit_turns d (Some t) cs). dt_offset x + d \<le> dt_offset y" using far x by fastforce
      moreover have "\<forall>y \<in> set (emit_turns d (Some t) cs). l + d \<le> dt_offset y + t0" if "prev = Some l" for l
        using far l [OF that] Cons.prems(1) by fastforce
      ultimately show ?thesis using l x unfolding e by simp
    qed
  qed
qed simp

lemma emit_complete:
  assumes "sorted (map fst cs)" and "\<forall>(t, c) \<in> set cs. \<forall>x. c = Some x \<longrightarrow> dt_offset x = t - t0"
    and "(t, Some x) \<in> set cs" and "\<forall>l. prev = Some l \<longrightarrow> (\<forall>(t, c) \<in> set cs. l \<le> t)"
  shows "x \<in> set (emit_turns d prev cs)
    \<or> (\<exists>y \<in> set (emit_turns d prev cs). dt_offset y \<le> dt_offset x \<and> dt_offset x < dt_offset y + d)
    \<or> (\<exists>l. prev = Some l \<and> l \<le> t \<and> t - l < d)"
  using assms
proof (induction cs arbitrary: prev)
  case (Cons p cs)
  obtain u c where p: "p = (u, c)" by fastforce
  have later: "\<forall>(t, c) \<in> set cs. u \<le> t" using Cons.prems(1) p by auto
  show ?case
  proof (cases c)
    case None
    with Cons.prems p have "(t, Some x) \<in> set cs" by auto
    with Cons None p show ?thesis by simp
  next
    case (Some y)
    then have y: "dt_offset y = u - t0" using Cons.prems(2) p by auto
    show ?thesis
    proof (cases "case prev of None \<Rightarrow> False | Some l \<Rightarrow> u - l < d")
      case True
      then obtain l where l: "prev = Some l" "u - l < d" by (auto split: option.splits)
      have "l \<le> u" using Cons.prems(4) l p by auto
      moreover have "(t, Some x) \<in> set cs \<or> (t = u)" using Cons.prems(3) p by auto
      moreover have e: "emit_turns d prev (p # cs) = emit_turns d prev cs" using True Some p by simp
      moreover have "\<forall>l. prev = Some l \<longrightarrow> (\<forall>(t, c) \<in> set cs. l \<le> t)" using Cons.prems(4) by auto
      ultimately show ?thesis using Cons.IH [of prev] Cons.prems(1,2) l unfolding e by auto
    next
      case False
      have e: "emit_turns d prev (p # cs) = y # emit_turns d (Some u) cs" using False Some p by simp
      show ?thesis
      proof (cases "(t, Some x) \<in> set cs")
        case True
        then have "u \<le> t" "dt_offset x = t - t0" using later Cons.prems(2) by auto
        moreover have "x \<in> set (emit_turns d (Some u) cs)
          \<or> (\<exists>y \<in> set (emit_turns d (Some u) cs). dt_offset y \<le> dt_offset x \<and> dt_offset x < dt_offset y + d)
          \<or> (\<exists>l. Some u = Some l \<and> l \<le> t \<and> t - l < d)"
          using Cons.prems(1,2) True later by (intro Cons.IH) auto
        ultimately show ?thesis using y unfolding e by auto
      next
        case False
        with Cons.prems(3) p Some have "x = y" by auto
        then show ?thesis unfolding e by simp
      qed
    qed
  qed
qed simp

lemma dedup_nonneg: "0 \<le> dedup_ms (normalized c)"
  by (simp add: dedup_ms_def normalized_def trunc_def)

lemma candidates_sorted:
  assumes "sorted tms" and "length verts = length tms"
  shows "sorted (map fst (turn_candidates c verts tms))"
proof -
  have "sorted (map (\<lambda>i. tms ! i) [1..<length verts - 1])"
    using assms by (auto simp: sorted_iff_nth_mono intro!: sorted_nth_mono)
  then show ?thesis by (simp add: turn_candidates_def comp_def)
qed

lemma map_filter_map: "List.map_filter f (map g xs) = List.map_filter (\<lambda>x. f (g x)) xs"
  by (induction xs) (simp_all add: map_filter_simps split: option.split)

lemma map_filter_mem: "x \<in> set (List.map_filter f xs) \<longleftrightarrow> (\<exists>y \<in> set xs. f y = Some x)"
  by (induction xs) (auto simp: map_filter_simps split: option.splits)

definition all_turns :: "turn_config \<Rightarrow> latlng list \<Rightarrow> int list \<Rightarrow> detected_turn list" where
  "all_turns cfg verts tms = List.map_filter (turn_at (normalized cfg) verts tms) [1..<length verts - 1]"

lemma turns_order:
  assumes "sorted tms" and "length verts = length tms"
  shows "subseq (detect_turns cfg verts tms) (all_turns cfg verts tms)"
    and "sorted_wrt (\<lambda>a b. dt_offset a + dedup_ms (normalized cfg) \<le> dt_offset b) (detect_turns cfg verts tms)"
    and "\<And>x. x \<in> set (all_turns cfg verts tms) \<Longrightarrow> x \<in> set (detect_turns cfg verts tms)
      \<or> (\<exists>y \<in> set (detect_turns cfg verts tms). dt_offset y \<le> dt_offset x \<and> dt_offset x < dt_offset y + dedup_ms (normalized cfg))"
proof -
  let ?c = "normalized cfg"
  let ?cs = "turn_candidates ?c verts tms"
  have d: "detect_turns cfg verts tms = emit_turns (dedup_ms ?c) None ?cs"
  proof (cases "length verts < 3")
    case True
    then have "[1..<length verts - 1] = []" by simp
    with True show ?thesis by (simp add: detect_turns_def turn_candidates_def)
  next
    case False
    with assms(2) show ?thesis by (simp add: detect_turns_def Let_def)
  qed
  have a: "all_turns cfg verts tms = List.map_filter snd ?cs" by (simp add: all_turns_def turn_candidates_def map_filter_map)
  have off: "\<forall>(t, c) \<in> set ?cs. \<forall>x. c = Some x \<longrightarrow> dt_offset x = t - hd tms"
    by (auto simp: turn_candidates_def dest: turn_at_Some(1))
  show "subseq (detect_turns cfg verts tms) (all_turns cfg verts tms)" unfolding d a by (rule emit_subseq)
  show "sorted_wrt (\<lambda>a b. dt_offset a + dedup_ms ?c \<le> dt_offset b) (detect_turns cfg verts tms)"
    using emit_spaced [OF dedup_nonneg candidates_sorted [OF assms] off, where prev = None] unfolding d by blast
  fix x
  assume "x \<in> set (all_turns cfg verts tms)"
  then obtain t where "(t, Some x) \<in> set ?cs" unfolding a by (auto simp: map_filter_mem)
  from emit_complete [OF candidates_sorted [OF assms] off this, where prev = None]
  show "x \<in> set (detect_turns cfg verts tms)
      \<or> (\<exists>y \<in> set (detect_turns cfg verts tms). dt_offset y \<le> dt_offset x \<and> dt_offset x < dt_offset y + dedup_ms ?c)"
    unfolding d by simp
qed


lemma straight_no_turns:
  assumes "\<forall>b \<in> set (edge_bearings verts). b = c" and "0 \<le> c" and "c < 360"
  shows "detect_turns cfg verts tms = []"
proof -
  have "turn_at (normalized cfg) verts tms i = None" for i
  proof (rule ccontr)
    assume "turn_at (normalized cfg) verts tms i \<noteq> None"
    then obtain x where x: "turn_at (normalized cfg) verts tms i = Some x" by blast
    have "dt_before x = c" "dt_after x = c"
      using mean_of_equal [OF turn_at_Some(4) [OF x] assms] mean_of_equal [OF turn_at_Some(5) [OF x] assms] by blast+
    then have "dt_delta x = 0" using turn_at_Some(3) [OF x] by (simp add: wrap_180_def go_fmod_def trunc_def)
    moreover have "0 < tc_delta (normalized cfg)" by (simp add: normalized_def)
    ultimately show False using turn_at_Some(2) [OF x] by simp
  qed
  then have "subseq (emit_turns d prev (turn_candidates (normalized cfg) verts tms)) []" for d prev
    using emit_subseq [of d prev "turn_candidates (normalized cfg) verts tms"]
    by (simp add: turn_candidates_def map_filter_map) (simp add: List.map_filter_def)
  then show ?thesis using list_emb_Nil2 by (fastforce simp: detect_turns_def Let_def)
qed

section \<open>The worker\<close>

datatype turn_query = TqGeometry | TqRoute | TqBegin | TqDelete | TqInsert | TqCommit

text \<open>What a run is counted as.\<close>

datatype turn_run = TurnsEmitted | TurnsEmpty | TurnsSkipped | TurnsFailed

text \<open>A tunable: the row of the settings table, the default when there is none, an error otherwise.\<close>

definition tunable :: "(string \<Rightarrow> bool) \<Rightarrow> string \<Rightarrow> real \<Rightarrow> settings_db \<Rightarrow> setting_error + real" where
  "tunable flt k def d =
     (case get_float_setting (\<lambda>_. flt k) k d of
        Inr v \<Rightarrow> Inr v
      | Inl e \<Rightarrow> if e = SettingNotFound then Inr def else Inl e)"

definition load_tunables :: "(string \<Rightarrow> bool) \<Rightarrow> turn_config \<Rightarrow> settings_db option \<Rightarrow> setting_error + turn_config" where
  "load_tunables flt def store =
     (case store of
        None \<Rightarrow> Inr (normalized def)
      | Some d \<Rightarrow>
          (case tunable flt ''turn_window_seconds'' (tc_window def) d of
             Inl e \<Rightarrow> Inl e
           | Inr w \<Rightarrow>
               (case tunable flt ''turn_delta_deg_min'' (tc_delta def) d of
                  Inl e \<Rightarrow> Inl e
                | Inr g \<Rightarrow>
                    (case tunable flt ''turn_dedup_seconds'' (tc_dedup def) d of
                       Inl e \<Rightarrow> Inl e
                     | Inr s \<Rightarrow> Inr (normalized \<lparr>tc_window = w, tc_delta = g, tc_dedup = s\<rparr>)))))"

definition turn_insert_row :: "string \<Rightarrow> string \<Rightarrow> gotime \<Rightarrow> detected_turn \<Rightarrow> turn_row" where
  "turn_insert_row dongle name start t =
     \<lparr>tw_dongle = dongle, tw_route = name, tw_ts = start + dt_offset t * 1000000, tw_offset = to_int32 (dt_offset t),
      tw_before = dt_before t, tw_after = dt_after t, tw_delta = dt_delta t, tw_lat = dt_lat t, tw_lng = dt_lng t\<rparr>"

definition persist_turns ::
  "bool \<Rightarrow> (turn_query \<Rightarrow> bool) \<Rightarrow> string \<Rightarrow> string \<Rightarrow> gotime \<Rightarrow> detected_turn list \<Rightarrow> geo_db \<Rightarrow> bool \<times> geo_db" where
  "persist_turns pool flt dongle name start turns d =
     (let wiped = delete_turns dongle name d;
          stored = (if turns = [] then wiped else insert_turns (map (turn_insert_row dongle name start) turns) wiped) in
      if pool then
        (if flt TqBegin \<or> flt TqDelete \<or> turns \<noteq> [] \<and> flt TqInsert \<or> flt TqCommit then (False, d) else (True, stored))
      else if flt TqDelete then (False, d)
      else if turns \<noteq> [] \<and> flt TqInsert then (False, wiped)
      else (True, stored))"

definition process_turns ::
  "bool \<Rightarrow> (turn_query \<Rightarrow> bool) \<Rightarrow> setting_error + turn_config \<Rightarrow> (latlng list \<Rightarrow> string) \<Rightarrow> string \<Rightarrow> string \<Rightarrow> geo_db
     \<Rightarrow> turn_run \<times> geo_db" where
  "process_turns pool flt tunables as_text dongle name d =
     (case tunables of
        Inl e \<Rightarrow> (TurnsFailed, d)
      | Inr cfg \<Rightarrow>
          if flt TqGeometry then (TurnsFailed, d)
          else (case geometry_and_times as_text d dongle name of
            None \<Rightarrow> (TurnsSkipped, d)
          | Some (None, _) \<Rightarrow> (TurnsSkipped, d)
          | Some (Some wkt, tms) \<Rightarrow>
              if tms = [] then (TurnsSkipped, d)
              else if flt TqRoute then (TurnsFailed, d)
              else (case find_route d dongle name of
                None \<Rightarrow> (TurnsSkipped, d)
              | Some r \<Rightarrow>
                  (case r_start r of
                     None \<Rightarrow> (TurnsSkipped, d)
                   | Some start \<Rightarrow>
                       (case parse_wkt wkt of
                          Inl e \<Rightarrow> (TurnsFailed, d)
                        | Inr verts \<Rightarrow>
                            if length verts \<noteq> length tms \<or> length verts < 30
                               \<or> real_of_int (List.last tms - hd tms) / 1000 < 30 then (TurnsSkipped, d)
                            else (let turns = detect_turns cfg verts tms in
                              (case persist_turns pool flt dongle name start turns d of
                                 (False, d') \<Rightarrow> (TurnsFailed, d')
                               | (True, d') \<Rightarrow> (if turns = [] then TurnsEmpty else TurnsEmitted, d'))))))))"

text \<open>One pass: the faults and the settings may differ from route to route; it stops when cancelled.\<close>

fun turn_pass ::
  "(nat \<Rightarrow> bool) \<Rightarrow> nat \<Rightarrow> bool \<Rightarrow> (geo_route \<Rightarrow> turn_query \<Rightarrow> bool) \<Rightarrow> (geo_route \<Rightarrow> setting_error + turn_config)
     \<Rightarrow> (latlng list \<Rightarrow> string) \<Rightarrow> geo_route list \<Rightarrow> geo_db \<Rightarrow> geo_db" where
  "turn_pass cancelled k pool flt tun as_text [] d = d"
| "turn_pass cancelled k pool flt tun as_text (r # rs) d =
     (if cancelled k then d
      else turn_pass cancelled (Suc k) pool flt tun as_text rs
             (snd (process_turns pool (flt r) (tun r) as_text (r_dongle r) (r_name r) d)))"

definition turn_run_once ::
  "bool \<Rightarrow> (nat \<Rightarrow> bool) \<Rightarrow> int \<Rightarrow> gotime \<Rightarrow> bool \<Rightarrow> (geo_route \<Rightarrow> turn_query \<Rightarrow> bool)
     \<Rightarrow> (geo_route \<Rightarrow> setting_error + turn_config) \<Rightarrow> (latlng list \<Rightarrow> string) \<Rightarrow> geo_db \<Rightarrow> geo_db" where
  "turn_run_once list_fails cancelled limit cutoff pool flt tun as_text d =
     (if list_fails then d
      else turn_pass cancelled 0 pool flt tun as_text
             (list_routes_for_turn_detection cutoff (nat (if limit \<le> 0 then 50 else limit)) d) d)"

definition turn_backfill ::
  "bool \<Rightarrow> (nat \<Rightarrow> bool) \<Rightarrow> int \<Rightarrow> bool \<Rightarrow> (geo_route \<Rightarrow> turn_query \<Rightarrow> bool)
     \<Rightarrow> (geo_route \<Rightarrow> setting_error + turn_config) \<Rightarrow> (latlng list \<Rightarrow> string) \<Rightarrow> geo_db \<Rightarrow> geo_db" where
  "turn_backfill list_fails cancelled limit pool flt tun as_text d =
     (if list_fails then d
      else turn_pass cancelled 0 pool flt tun as_text
             (list_recent_for_turn_backfill (nat (if limit \<le> 0 then 200 else limit)) d) d)"

section \<open>The timeline of a route\<close>

lemma insert_turns_fresh:
  assumes "distinct (map tw_offset new)" and "\<forall>t \<in> set new. is_turn_of dongle name t"
    and "\<forall>u \<in> set old. is_turn_of dongle name u \<longrightarrow> tw_offset u \<notin> tw_offset ` set new"
  shows "fold insert_turn new old = old @ new"
  using assms
proof (induction new arbitrary: old)
  case (Cons t ts)
  then have "insert_turn t old = old @ [t]" by (auto simp: insert_turn_def list_ex_iff is_turn_of_def)
  with Cons show ?case by (auto simp: is_turn_of_def)
qed simp

lemma subseq_mem: "subseq xs ys \<Longrightarrow> x \<in> set xs \<Longrightarrow> x \<in> set ys"
  by (induction rule: list_emb.induct) auto

lemma turn_rows_distinct:
  assumes "sorted_wrt (\<lambda>a b. dt_offset a + w \<le> dt_offset b) turns" and "0 < w"
    and "\<forall>t \<in> set turns. 0 \<le> dt_offset t \<and> dt_offset t < 2147483648"
  shows "distinct (map tw_offset (map (turn_insert_row dongle name start) turns))"
  using assms
proof (induction turns)
  case (Cons t ts)
  have "to_int32 (dt_offset u) = dt_offset u" if "u \<in> set (t # ts)" for u
    using Cons.prems(3) that by (intro to_int32_id) auto
  with Cons show ?case by (force simp: turn_insert_row_def)
qed simp


definition east_track :: "latlng list" where
  "east_track = map (\<lambda>i. \<lparr>ll_lat = 0, ll_lng = of_int i\<rparr>) [0..29]"

definition east_times :: "int list" where
  "east_times = map (\<lambda>i. i * 1100) [0..29]"

definition east_db :: geo_db where
  "east_db = \<lparr>gd_routes = [\<lparr>r_id = 1, r_dongle = ''d'', r_name = ''r'', r_start = Some 0, r_end = None, r_created = 0,
       r_preserved = False, gr_geometry = Some east_track, gr_times = Some east_times\<rparr>],
     gd_segments = [\<lparr>sm_route = 1, sm_number = 0, sm_created = 5, sm_fcamera = True\<rparr>], gd_turns = []\<rparr>"

lemma east_shape: "[0..29 :: int] = [0, 1, 2, 3, 4, 5, 6, 7, 8, 9, 10, 11, 12, 13, 14, 15, 16, 17, 18, 19, 20, 21, 22, 23, 24, 25, 26, 27, 28, 29]"
  by (simp add: upto.simps)

lemma east_wkt: "parse_wkt (build_wkt east_track) = Inr east_track"
  using is_decimal_int [of 0] by (intro wkt_round_trip) (auto simp: east_track_def decimal_vertex_def is_decimal_int)

definition usual_turns :: turn_config where
  "usual_turns = \<lparr>tc_window = 4, tc_delta = 35, tc_dedup = 5\<rparr>"



section \<open>The queue of routes that wait\<close>

text \<open>
  A route stays in the queue until it has a turn row, and the queue is served from its oldest end. A route on
  which nothing is detected, or which is skipped, keeps its place: as many of them as fit in a batch hold up
  every route that is younger, whatever the number of passes.
\<close>

lemma turnless_unchanged:
  assumes "fst (process_turns True flt tun as_text dongle name d) \<noteq> TurnsEmitted"
    and "\<forall>t \<in> set (gd_turns d). \<not> is_turn_of dongle name t"
  shows "snd (process_turns True flt tun as_text dongle name d) = d"
proof -
  have "delete_turns dongle name d = d" using assms(2) by (simp add: delete_turns_def filter_id_conv)
  then show ?thesis
    using assms(1)
    by (auto simp: process_turns_def persist_turns_def Let_def split: sum.splits option.splits if_splits prod.splits)
qed

lemma waiting_turnless: "r \<in> set (needing_turns cutoff d) \<Longrightarrow> \<forall>t \<in> set (gd_turns d). \<not> is_turn_of (r_dongle r) (r_name r) t"
  by (auto simp: needing_turns_def by_created_def has_turns_def list_ex_iff is_turn_of_def)

lemma turn_pass_fold:
  "turn_pass (\<lambda>_. False) k pool flt tun as_text rs d
     = fold (\<lambda>r d. snd (process_turns pool (flt r) (tun r) as_text (r_dongle r) (r_name r) d)) rs d"
  by (induction rs arbitrary: k d) simp_all

lemma turn_queue_starves:
  assumes "\<forall>cutoff \<in> set cutoffs. \<forall>r \<in> set (list_routes_for_turn_detection cutoff (nat limit) d).
      fst (process_turns True (flt r) (tun r) as_text (r_dongle r) (r_name r) d) \<noteq> TurnsEmitted"
    and "0 < limit"
  shows "fold (\<lambda>cutoff. turn_run_once False (\<lambda>_. False) limit cutoff True flt tun as_text) cutoffs d = d"
proof -
  let ?work = "\<lambda>r d. snd (process_turns True (flt r) (tun r) as_text (r_dongle r) (r_name r) d)"
  have "\<forall>c \<in> set cutoffs. \<forall>r \<in> set (take (nat limit) (needing_turns c d)). ?work r d = d"
    using assms(1) waiting_turnless in_set_takeD
    by (intro ballI turnless_unchanged) (fastforce simp: list_routes_for_turn_detection_def)+
  then have "fold (batch_pass needing_turns ?work (nat limit)) cutoffs d = d" by (rule barren_forever)
  moreover have "turn_run_once False (\<lambda>_. False) limit cutoff True flt tun as_text = batch_pass needing_turns ?work (nat limit) cutoff" for cutoff
    using assms(2)
    by (intro ext) (simp add: batch_pass_def turn_run_once_def turn_pass_fold list_routes_for_turn_detection_def)
  ultimately show ?thesis by simp
qed

text \<open>An example: a route due east along the equator, on which nothing is detected.\<close>

lemma east_bearing:
  assumes "a < b" and "b < a + 180"
  shows "bearing_deg 0 a 0 b = 90"
proof -
  have "0 < (b - a) * pi / 180" "(b - a) * pi / 180 < pi" using assms by simp_all
  then have "0 < sin ((b - a) * pi / 180)" by (rule sin_gt_zero)
  then show ?thesis by (simp add: bearing_deg_def Let_def atan2_def positive_degrees_def)
qed

lemma east_empty: "detect_turns cfg east_track east_times = []"
  by (rule straight_no_turns [where c = 90]) (simp_all add: east_track_def east_shape east_bearing)

lemma east_route_starves:
  assumes "\<forall>c \<in> set cutoffs. 5 < c"
  shows "list_routes_for_turn_detection 6 1 east_db = gd_routes east_db"
    and "fold (\<lambda>cutoff. turn_run_once False (\<lambda>_. False) 1 cutoff True (\<lambda>_ _. False) (\<lambda>_. Inr usual_turns) build_wkt) cutoffs east_db = east_db"
proof -
  have sub: "set (list_routes_for_turn_detection c 1 east_db) \<subseteq> set (gd_routes east_db)" for c
    by (auto simp: list_routes_for_turn_detection_def needing_turns_def by_created_def dest!: in_set_takeD)
  show "list_routes_for_turn_detection 6 1 east_db = gd_routes east_db"
    by (simp add: list_routes_for_turn_detection_def needing_turns_def by_created_def east_db_def finalized_before_def
        latest_segment_at_def locatable_def has_turns_def)
  have "fst (process_turns True (\<lambda>_. False) (Inr usual_turns) build_wkt ''d'' ''r'' east_db) \<noteq> TurnsEmitted"
    using east_wkt
    by (simp add: process_turns_def geometry_and_times_def find_route_def east_db_def persist_turns_def Let_def east_empty
        split: sum.splits)
  moreover have "r_dongle r = ''d'' \<and> r_name r = ''r''" if "r \<in> set (gd_routes east_db)" for r
    using that by (simp add: east_db_def)
  ultimately show "fold (\<lambda>cutoff. turn_run_once False (\<lambda>_. False) 1 cutoff True (\<lambda>_ _. False) (\<lambda>_. Inr usual_turns) build_wkt) cutoffs east_db = east_db"
    using sub by (intro turn_queue_starves ballI) fastforce+
qed

end
