(* ===== verification/RouteMeta.thy ===== *)
theory RouteMeta imports GeoTable "HOL-Library.Sublist" begin

text \<open>
  The route metadata worker (\<open>internal/worker/route_metadata.go\<close>) and the extraction it calls
  (\<open>internal/cereal/route_metadata.go\<close>): start and end time and GPS track of a route from the events of
  its logs, and their writing to the routes row. The log parser and the generated readers are outside:
  the extraction is a fold over the events they deliver.
\<close>

section \<open>Extraction\<close>

text \<open>
  The events the extractor looks at, with what it reads of them; \<open>EvBroken\<close> is an event whose reader
  fails. The zero \<open>time.Time\<close> is \<open>None\<close>.
\<close>

datatype log_event =
    EvInitData int
  | EvGps bool real real int
  | EvGpsExternal bool real real int
  | EvKalman bool bool bool "real list" int
  | EvCarState
  | EvOther
  | EvBroken

record gps_point =
  gp_lat :: real
  gp_lng :: real
  gp_time :: "gotime option"

record route_meta =
  rm_start :: "gotime option"
  rm_end :: "gotime option"
  rm_track :: "gps_point list"

definition plausible_wall_clock :: "gotime \<Rightarrow> bool" where
  "plausible_wall_clock t \<longleftrightarrow> 1262304000000000000 < t \<and> t < 4102444800000000000"

definition gps_time :: "int \<Rightarrow> gotime option" where
  "gps_time ms =
     (if ms \<le> 0 then None
      else (let t = to_int64 (ms * 1000000) in if plausible_wall_clock t then Some t else None))"

definition gps_lat_lon_valid :: "real \<Rightarrow> real \<Rightarrow> bool" where
  "gps_lat_lon_valid lat lon \<longleftrightarrow>
     \<not> (lat = 0 \<and> lon = 0) \<and> \<not> (lat < - 90 \<or> 90 < lat) \<and> \<not> (lon < - 180 \<or> 180 < lon)"

record extract_state =
  es_init :: "gotime option"
  es_first :: "gotime option"
  es_last :: "gotime option"
  es_prev :: "(real \<times> real) option"
  es_track :: "gps_point list"

definition start_extract :: extract_state where
  "start_extract = \<lparr>es_init = None, es_first = None, es_last = None, es_prev = None, es_track = []\<rparr>"

definition note_fallback :: "gotime option \<Rightarrow> extract_state \<Rightarrow> extract_state" where
  "note_fallback t s =
     (case t of
        None \<Rightarrow> s
      | Some x \<Rightarrow>
          s\<lparr>es_first := (case es_first s of None \<Rightarrow> Some x | Some f \<Rightarrow> if x < f then Some x else Some f),
            es_last := (case es_last s of None \<Rightarrow> Some x | Some l \<Rightarrow> if l < x then Some x else Some l)\<rparr>)"

definition near_point :: "real \<times> real \<Rightarrow> gps_point \<Rightarrow> bool" where
  "near_point p q \<longleftrightarrow> \<bar>gp_lat q - fst p\<bar> < 1 / 1000000 \<and> \<bar>gp_lng q - snd p\<bar> < 1 / 1000000"

definition emit_point :: "gps_point \<Rightarrow> extract_state \<Rightarrow> extract_state" where
  "emit_point q s =
     (if (case es_prev s of None \<Rightarrow> False | Some p \<Rightarrow> near_point p q) then s
      else s\<lparr>es_track := es_track s @ [q], es_prev := Some (gp_lat q, gp_lng q)\<rparr>)"

definition take_fix :: "real \<Rightarrow> real \<Rightarrow> int \<Rightarrow> extract_state \<Rightarrow> extract_state" where
  "take_fix lat lng ms s =
     (if \<not> gps_lat_lon_valid lat lng then s
      else (let t = gps_time ms in
            emit_point \<lparr>gp_lat = lat, gp_lng = lng, gp_time = t\<rparr> (note_fallback t s)))"

fun extract_event :: "log_event \<Rightarrow> extract_state \<Rightarrow> extract_state option" where
  "extract_event (EvInitData ns) s =
     Some (if es_init s \<noteq> None then s
           else if ns = 0 then s
           else (let t = to_int64 ns in if plausible_wall_clock t then s\<lparr>es_init := Some t\<rparr> else s))"
| "extract_event (EvGps fix lat lng ms) s = Some (if \<not> fix then s else take_fix lat lng ms s)"
| "extract_event (EvGpsExternal fix lat lng ms) s = Some (if \<not> fix then s else take_fix lat lng ms s)"
| "extract_event (EvKalman status_valid gps_ok pos_valid vals ms) s =
     Some (if \<not> status_valid \<or> \<not> gps_ok then s
           else if \<not> pos_valid then s
           else (case vals of lat # lng # _ \<Rightarrow> take_fix lat lng ms s | _ \<Rightarrow> s))"
| "extract_event EvCarState s = Some s"
| "extract_event EvOther s = Some s"
| "extract_event EvBroken s = None"

fun extract_events :: "log_event list \<Rightarrow> extract_state \<Rightarrow> extract_state option" where
  "extract_events [] s = Some s"
| "extract_events (e # es) s = (case extract_event e s of None \<Rightarrow> None | Some s' \<Rightarrow> extract_events es s')"

text \<open>24 hours: a larger gap between the boot clock and the GPS discredits the boot clock.\<close>

definition max_drift :: duration where
  "max_drift = 86400000000000"

definition abs_duration :: "duration \<Rightarrow> duration" where
  "abs_duration d = (if d < 0 then - d else d)"

definition finish_extract :: "extract_state \<Rightarrow> route_meta" where
  "finish_extract s =
     (case (es_init s, es_first s) of
        (Some i, Some f) \<Rightarrow>
          if max_drift < abs_duration (time_sub f i)
          then \<lparr>rm_start = Some f, rm_end = es_last s, rm_track = es_track s\<rparr>
          else \<lparr>rm_start = Some i,
                rm_end = (case es_last s of None \<Rightarrow> Some i | Some l \<Rightarrow> if i < l then Some l else Some i),
                rm_track = es_track s\<rparr>
      | (Some i, None) \<Rightarrow> \<lparr>rm_start = Some i, rm_end = Some i, rm_track = es_track s\<rparr>
      | (None, _) \<Rightarrow> \<lparr>rm_start = es_first s, rm_end = es_last s, rm_track = es_track s\<rparr>)"

text \<open>\<open>ExtractRouteMetadata\<close>: the events up to where the parser stops, and whether it stops with an error.\<close>

definition extract_route_metadata :: "log_event list \<times> bool \<Rightarrow> route_meta option" where
  "extract_route_metadata stream =
     (case extract_events (fst stream) start_extract of
        None \<Rightarrow> None
      | Some s \<Rightarrow> if snd stream then None else Some (finish_extract s))"

section \<open>The worker\<close>

definition build_track_times :: "gps_point list \<Rightarrow> gotime option \<Rightarrow> int list option" where
  "build_track_times track start =
     (if length track < 2 then None
      else (case start of
              None \<Rightarrow> Some (replicate (length track) 0)
            | Some st \<Rightarrow>
                Some (map (\<lambda>p. case gp_time p of None \<Rightarrow> 0 | Some t \<Rightarrow> max (go_div (time_sub t st) 1000000) 0) track)))"

definition track_points :: "gps_point list \<Rightarrow> latlng list" where
  "track_points track = map (\<lambda>p. \<lparr>ll_lat = gp_lat p, ll_lng = gp_lng p\<rparr>) track"

definition qlog_picker_order :: "string list" where
  "qlog_picker_order = [''qlog.zst'', ''qlog.bz2'', ''qlog'']"

text \<open>The first log of each segment that is stored; opening it may fail.\<close>

fun pick_qlogs :: "(int \<Rightarrow> string \<Rightarrow> bool) \<Rightarrow> (int \<Rightarrow> string \<Rightarrow> bool) \<Rightarrow> int list \<Rightarrow> (int \<times> string) list option" where
  "pick_qlogs stored opens [] = Some []"
| "pick_qlogs stored opens (n # ns) =
     (case find (stored n) qlog_picker_order of
        None \<Rightarrow> pick_qlogs stored opens ns
      | Some q \<Rightarrow> if opens n q then map_option ((#) (n, q)) (pick_qlogs stored opens ns) else None)"

record log_world =
  lw_segments :: "int list option"
  lw_stored :: "int \<Rightarrow> string \<Rightarrow> bool"
  lw_opens :: "int \<Rightarrow> string \<Rightarrow> bool"
  lw_stream :: "(int \<times> string) list \<Rightarrow> log_event list \<times> bool"

definition extract_route :: "log_world \<Rightarrow> route_meta option" where
  "extract_route w =
     (case lw_segments w of
        None \<Rightarrow> None
      | Some ns \<Rightarrow>
          (case pick_qlogs (lw_stored w) (lw_opens w) ns of
             None \<Rightarrow> None
           | Some [] \<Rightarrow> Some \<lparr>rm_start = None, rm_end = None, rm_track = []\<rparr>
           | Some logs \<Rightarrow> extract_route_metadata (lw_stream w logs)))"

definition meta_update :: "int \<Rightarrow> route_meta \<Rightarrow> meta_params" where
  "meta_update i m =
     (let wkt = build_wkt (track_points (rm_track m)) in
      \<lparr>mp_id = i, mp_start = rm_start m, mp_end = rm_end m,
       mp_wkt = (if wkt \<noteq> [] then Some wkt else None),
       mp_times = (if wkt \<noteq> [] then build_track_times (rm_track m) (rm_start m) else None)\<rparr>)"

text \<open>Whether the pass over the route succeeded, and the tables.\<close>

definition process_metadata ::
  "bool \<Rightarrow> (string \<Rightarrow> latlng list option) \<Rightarrow> log_world \<Rightarrow> geo_route \<Rightarrow> geo_db \<Rightarrow> bool \<times> geo_db" where
  "process_metadata update_fails from_text w r d =
     (case extract_route w of
        None \<Rightarrow> (False, d)
      | Some m \<Rightarrow>
          (let p = meta_update (r_id r) m in
           if mp_start p = None \<and> mp_end p = None \<and> mp_wkt p = None then (True, d)
           else if update_fails then (False, d)
           else (case update_route_metadata from_text p d of None \<Rightarrow> (False, d) | Some d' \<Rightarrow> (True, d'))))"

fun metadata_pass ::
  "(nat \<Rightarrow> bool) \<Rightarrow> nat \<Rightarrow> (geo_route \<Rightarrow> bool) \<Rightarrow> (string \<Rightarrow> latlng list option) \<Rightarrow> (geo_route \<Rightarrow> log_world)
     \<Rightarrow> geo_route list \<Rightarrow> geo_db \<Rightarrow> geo_db" where
  "metadata_pass cancelled k flt from_text w [] d = d"
| "metadata_pass cancelled k flt from_text w (r # rs) d =
     (if cancelled k then d
      else metadata_pass cancelled (Suc k) flt from_text w rs (snd (process_metadata (flt r) from_text (w r) r d)))"

definition metadata_run_once ::
  "bool \<Rightarrow> (nat \<Rightarrow> bool) \<Rightarrow> int \<Rightarrow> gotime \<Rightarrow> (geo_route \<Rightarrow> bool) \<Rightarrow> (string \<Rightarrow> latlng list option)
     \<Rightarrow> (geo_route \<Rightarrow> log_world) \<Rightarrow> geo_db \<Rightarrow> geo_db" where
  "metadata_run_once list_fails cancelled limit cutoff flt from_text w d =
     (if list_fails then d
      else metadata_pass cancelled 0 flt from_text w
             (list_routes_needing_metadata cutoff (nat (if limit \<le> 0 then 50 else limit)) d) d)"

section \<open>The extracted track and times\<close>

text \<open>The reference: the valid fixes of the events, in order.\<close>

definition fix_of :: "real \<Rightarrow> real \<Rightarrow> int \<Rightarrow> gps_point list" where
  "fix_of lat lng ms = (if gps_lat_lon_valid lat lng then [\<lparr>gp_lat = lat, gp_lng = lng, gp_time = gps_time ms\<rparr>] else [])"

fun fixes_of :: "log_event \<Rightarrow> gps_point list" where
  "fixes_of (EvGps fix lat lng ms) = (if fix then fix_of lat lng ms else [])"
| "fixes_of (EvGpsExternal fix lat lng ms) = (if fix then fix_of lat lng ms else [])"
| "fixes_of (EvKalman sv ok pv vals ms) =
     (if sv \<and> ok \<and> pv then (case vals of lat # lng # _ \<Rightarrow> fix_of lat lng ms | _ \<Rightarrow> []) else [])"
| "fixes_of _ = []"

definition point_at :: "gps_point \<Rightarrow> real \<times> real" where
  "point_at q = (gp_lat q, gp_lng q)"

definition between :: "gotime option \<Rightarrow> gotime option \<Rightarrow> gotime option \<Rightarrow> bool" where
  "between a b t \<longleftrightarrow> (case t of None \<Rightarrow> True | Some x \<Rightarrow> (\<exists>f l. a = Some f \<and> b = Some l \<and> f \<le> x \<and> x \<le> l))"

text \<open>The state after the events whose fixes are \<open>seen\<close>.\<close>

definition extract_wf :: "gps_point list \<Rightarrow> extract_state \<Rightarrow> bool" where
  "extract_wf seen s \<longleftrightarrow>
     pred_option plausible_wall_clock (es_init s)
     \<and> (es_first s = None \<longleftrightarrow> es_last s = None)
     \<and> (\<forall>f l. es_first s = Some f \<longrightarrow> es_last s = Some l \<longrightarrow> f \<le> l \<and> plausible_wall_clock f \<and> plausible_wall_clock l)
     \<and> (\<forall>q \<in> set seen. between (es_first s) (es_last s) (gp_time q))
     \<and> es_prev s = (if es_track s = [] then None else Some (point_at (List.last (es_track s))))
     \<and> subseq (es_track s) seen
     \<and> successively (\<lambda>p q. \<not> near_point (point_at p) q) (es_track s)
     \<and> (\<forall>q \<in> set seen. \<exists>p \<in> set (es_track s). near_point (point_at p) q)"

lemma gps_time_plausible: "gps_time ms = Some t \<Longrightarrow> plausible_wall_clock t"
  by (auto simp: gps_time_def Let_def split: if_splits)

lemma near_self: "near_point (point_at q) q"
  by (simp add: near_point_def point_at_def)

lemma note_wf:
  assumes "extract_wf seen s" and "pred_option plausible_wall_clock t"
  shows "extract_wf seen (note_fallback t s) \<and> between (es_first (note_fallback t s)) (es_last (note_fallback t s)) t
    \<and> es_track (note_fallback t s) = es_track s \<and> es_prev (note_fallback t s) = es_prev s"
proof (cases t)
  case None
  with assms(1) show ?thesis by (simp add: note_fallback_def between_def)
next
  case (Some x)
  with assms(2) have x: "plausible_wall_clock x" by simp
  show ?thesis
  proof (cases "es_first s")
    case None
    moreover have "es_last s = None" using assms(1) None by (simp add: extract_wf_def)
    moreover have "\<forall>q \<in> set seen. gp_time q = None"
      using assms(1) None by (fastforce simp: extract_wf_def between_def split: option.splits)
    ultimately show ?thesis using assms(1) x Some by (simp add: note_fallback_def extract_wf_def between_def)
  next
    case (Some f)
    then obtain l where l: "es_last s = Some l" using assms(1) by (auto simp: extract_wf_def)
    have fl: "f \<le> l" "plausible_wall_clock f" "plausible_wall_clock l" using assms(1) Some l by (auto simp: extract_wf_def)
    let ?f = "if x < f then x else f" and ?l = "if l < x then x else l"
    have n: "note_fallback t s = s\<lparr>es_first := Some ?f, es_last := Some ?l\<rparr>"
      using Some l \<open>t = Some x\<close> by (auto simp: note_fallback_def)
    have "between (Some ?f) (Some ?l) (gp_time q)" if "q \<in> set seen" for q
      using assms(1) that Some l by (force simp: extract_wf_def between_def split: option.splits)
    then show ?thesis using assms(1) fl x \<open>t = Some x\<close> unfolding n by (auto simp: extract_wf_def between_def)
  qed
qed

lemma successively_snoc:
  "successively P (xs @ [y]) \<longleftrightarrow> successively P xs \<and> (xs = [] \<or> P (List.last xs) y)"
  by (induction xs rule: induct_list012) auto

lemma emit_wf:
  assumes "extract_wf seen s" and "between (es_first s) (es_last s) (gp_time q)"
  shows "extract_wf (seen @ [q]) (emit_point q s)"
proof (cases "es_prev s")
  case None
  then have "es_track s = []" using assms(1) by (simp add: extract_wf_def split: if_splits)
  then show ?thesis
    using assms None near_self [of q] by (auto simp: extract_wf_def emit_point_def point_at_def)
next
  case (Some p)
  then have t: "es_track s \<noteq> []" "p = point_at (List.last (es_track s))" using assms(1) by (auto simp: extract_wf_def split: if_splits)
  show ?thesis
  proof (cases "near_point p q")
    case True
    have "List.last (es_track s) \<in> set (es_track s)" using t(1) by simp
    moreover have "subseq (es_track s) (seen @ [q])" using assms(1) by (auto simp: extract_wf_def intro: subseq_order.trans)
    moreover have e: "emit_point q s = s" using True Some by (simp add: emit_point_def)
    ultimately show ?thesis
      using assms True t unfolding e extract_wf_def by auto
  next
    case False
    then have e: "emit_point q s = s\<lparr>es_track := es_track s @ [q], es_prev := Some (point_at q)\<rparr>"
      by (simp add: emit_point_def Some point_at_def)
    have "successively (\<lambda>p q. \<not> near_point (point_at p) q) (es_track s @ [q])"
      using assms(1) False t by (simp add: extract_wf_def successively_snoc)
    moreover have "subseq (es_track s @ [q]) (seen @ [q])" using assms(1) by (simp add: extract_wf_def)
    moreover have "\<forall>r \<in> set (seen @ [q]). \<exists>p \<in> set (es_track s @ [q]). near_point (point_at p) r"
      using assms(1) near_self [of q] by (auto simp: extract_wf_def)
    ultimately show ?thesis using assms unfolding e by (simp add: extract_wf_def)
  qed
qed

lemma take_fix_wf: "extract_wf seen s \<Longrightarrow> extract_wf (seen @ fix_of lat lng ms) (take_fix lat lng ms s)"
proof -
  assume wf: "extract_wf seen s"
  have "pred_option plausible_wall_clock (gps_time ms)" by (cases "gps_time ms") (auto dest: gps_time_plausible)
  from note_wf [OF wf this] show ?thesis
    by (auto simp: take_fix_def fix_of_def Let_def wf intro!: emit_wf)
qed

lemma event_wf:
  assumes "extract_wf seen s" and "extract_event e s = Some s'"
  shows "extract_wf (seen @ fixes_of e) s'"
proof (cases e)
  case (EvInitData ns)
  with assms show ?thesis by (auto simp: extract_wf_def Let_def split: if_splits)
qed (use assms take_fix_wf in \<open>auto split: if_splits list.splits\<close>)

lemma events_wf:
  "extract_events es s = Some s' \<Longrightarrow> extract_wf seen s \<Longrightarrow> extract_wf (seen @ concat (map fixes_of es)) s'"
proof (induction es arbitrary: seen s)
  case (Cons e es)
  then obtain s1 where "extract_event e s = Some s1" "extract_events es s1 = Some s'" by (auto split: option.splits)
  with Cons.IH [OF this(2) event_wf [OF Cons.prems(2) this(1)]] show ?case by simp
qed simp

lemma start_extract_wf: "extract_wf [] start_extract"
  by (simp add: extract_wf_def start_extract_def)

lemma finish_times:
  assumes "extract_wf seen s"
  shows "rm_start (finish_extract s) = None \<longleftrightarrow> rm_end (finish_extract s) = None"
    and "rm_start (finish_extract s) = Some a \<Longrightarrow> rm_end (finish_extract s) = Some b
      \<Longrightarrow> a \<le> b \<and> plausible_wall_clock a \<and> plausible_wall_clock b"
    and "rm_track (finish_extract s) = es_track s"
proof -
  have "rm_start (finish_extract s) = None \<and> rm_end (finish_extract s) = None
    \<or> (\<exists>a b. rm_start (finish_extract s) = Some a \<and> rm_end (finish_extract s) = Some b
        \<and> a \<le> b \<and> plausible_wall_clock a \<and> plausible_wall_clock b)"
  proof (cases "es_first s")
    case None
    with assms have "es_last s = None" by (simp add: extract_wf_def)
    with None assms show ?thesis by (cases "es_init s") (simp_all add: finish_extract_def extract_wf_def)
  next
    case (Some f)
    with assms obtain l where "es_last s = Some l" "f \<le> l" "plausible_wall_clock f" "plausible_wall_clock l"
      by (auto simp: extract_wf_def)
    with Some assms show ?thesis by (cases "es_init s") (simp_all add: finish_extract_def extract_wf_def)
  qed
  then show "rm_start (finish_extract s) = None \<longleftrightarrow> rm_end (finish_extract s) = None"
    and "rm_start (finish_extract s) = Some a \<Longrightarrow> rm_end (finish_extract s) = Some b
      \<Longrightarrow> a \<le> b \<and> plausible_wall_clock a \<and> plausible_wall_clock b" by auto
  show "rm_track (finish_extract s) = es_track s" by (simp add: finish_extract_def split: option.split)
qed

text \<open>C29: The metadata extracted from a log is sound: start and end are known together, plausible and in
  order; the track consists of valid fixes in their order, no two neighbours on the same spot, and every valid fix of the log
  is on the spot of one of them.\<close>

theorem metadata_sound:
  assumes "extract_route_metadata stream = Some m"
  shows "(rm_start m = None \<longleftrightarrow> rm_end m = None)
    \<and> (\<forall>a b. rm_start m = Some a \<and> rm_end m = Some b \<longrightarrow> a \<le> b \<and> plausible_wall_clock a \<and> plausible_wall_clock b)
    \<and> subseq (rm_track m) (concat (map fixes_of (fst stream)))
    \<and> successively (\<lambda>p q. \<not> near_point (point_at p) q) (rm_track m)
    \<and> (\<forall>q \<in> set (concat (map fixes_of (fst stream))). \<exists>p \<in> set (rm_track m). near_point (point_at p) q)"
proof -
  from assms obtain s where s: "extract_events (fst stream) start_extract = Some s" and m: "m = finish_extract s"
    by (auto simp: extract_route_metadata_def split: option.splits if_splits)
  from events_wf [OF s start_extract_wf] have wf: "extract_wf (concat (map fixes_of (fst stream))) s" by simp
  from finish_times [OF wf] wf show ?thesis unfolding m by (simp add: extract_wf_def)
qed

definition demo_log :: "log_event list" where
  "demo_log = [EvInitData 1600000000000000000, EvGps True 37 (- 122) 1600000001000, EvCarState,
     EvGpsExternal True 37 (- 122) 1600000002000, EvGps True 0 0 1600000003000, EvKalman True True True [38, - 122] 1600000004000]"

lemma demo_metadata:
  "extract_route_metadata (demo_log, False) = Some
     \<lparr>rm_start = Some 1600000000000000000, rm_end = Some 1600000004000000000,
      rm_track = [\<lparr>gp_lat = 37, gp_lng = - 122, gp_time = Some 1600000001000000000\<rparr>,
        \<lparr>gp_lat = 38, gp_lng = - 122, gp_time = Some 1600000004000000000\<rparr>]\<rparr>"
  by (simp add: extract_route_metadata_def demo_log_def start_extract_def take_fix_def gps_lat_lon_valid_def gps_time_def
      to_int64_def plausible_wall_clock_def note_fallback_def emit_point_def near_point_def finish_extract_def
      time_sub_def max_duration_def min_duration_def abs_duration_def max_drift_def Let_def)

lemma metadata_sound_witness:
  "successively (\<lambda>p q. \<not> near_point (point_at p) q)
     [\<lparr>gp_lat = 37, gp_lng = - 122, gp_time = Some 1600000001000000000\<rparr>, \<lparr>gp_lat = 38, gp_lng = - 122, gp_time = Some 1600000004000000000\<rparr>]"
  using metadata_sound [OF demo_metadata] by simp

section \<open>Times beside the track\<close>

lemma track_times_shape:
  assumes "build_track_times track start = Some ts"
  shows "length ts = length track \<and> 2 \<le> length track \<and> (\<forall>t \<in> set ts. 0 \<le> t)"
  using assms by (auto simp: build_track_times_def split: if_splits option.splits)

text \<open>
  A fix without a time of its own is written as offset 0, wherever it stands in the track: the times need not
  increase, and the readers that search them by bisection can miss a vertex.
\<close>

lemma untimed_fix_is_zero:
  "build_track_times [\<lparr>gp_lat = 1, gp_lng = 1, gp_time = Some 5000000000\<rparr>, \<lparr>gp_lat = 2, gp_lng = 1, gp_time = None\<rparr>,
     \<lparr>gp_lat = 3, gp_lng = 1, gp_time = Some 7000000000\<rparr>] (Some 4000000000) = Some [1000, 0, 3000]"
  by (simp add: build_track_times_def time_sub_def max_duration_def min_duration_def go_div_def)

lemma meta_update_wkt:
  "mp_wkt (meta_update i m) = (if length (rm_track m) < 2 then None else Some (build_wkt (track_points (rm_track m))))"
  "mp_times (meta_update i m) = (if length (rm_track m) < 2 then None else build_track_times (rm_track m) (rm_start m))"
  by (simp_all add: meta_update_def Let_def build_wkt_def track_points_def wkt_open_def)

lemma meta_update_parallel:
  assumes "\<And>g. 2 \<le> length g \<Longrightarrow> \<exists>h. from_text (build_wkt g) = Some h \<and> length h = length g"
  shows "params_parallel (\<lambda>w. the (from_text w)) (meta_update i m)"
proof (cases "length (rm_track m) < 2")
  case True
  then show ?thesis by (simp add: params_parallel_def meta_update_wkt)
next
  case False
  then obtain h where "from_text (build_wkt (track_points (rm_track m))) = Some h" "length h = length (rm_track m)"
    using assms [of "track_points (rm_track m)"] by (auto simp: track_points_def)
  moreover from False obtain ts where "build_track_times (rm_track m) (rm_start m) = Some ts"
    by (cases "rm_start m") (simp_all add: build_track_times_def)
  ultimately show ?thesis
    using False track_times_shape by (simp add: params_parallel_def meta_update_wkt)
qed

lemma process_keeps_parallel:
  assumes "\<And>g. 2 \<le> length g \<Longrightarrow> \<exists>h. from_text (build_wkt g) = Some h \<and> length h = length g"
    and "\<forall>r \<in> set (gd_routes d). times_parallel r"
  shows "\<forall>q \<in> set (gd_routes (snd (process_metadata flt from_text w r d))). times_parallel q"
  using assms(2) update_keeps_parallel [OF _ meta_update_parallel [OF assms(1)]]
  by (auto simp: process_metadata_def update_route_metadata_def Let_def split: option.splits)

lemma pass_keeps_parallel:
  assumes "\<And>g. 2 \<le> length g \<Longrightarrow> \<exists>h. from_text (build_wkt g) = Some h \<and> length h = length g"
    and "\<forall>r \<in> set (gd_routes d). times_parallel r"
  shows "\<forall>q \<in> set (gd_routes (metadata_pass cancelled k flt from_text w rs d)). times_parallel q"
  using assms(2)
proof (induction rs arbitrary: k d)
  case (Cons r rs)
  have "\<forall>q \<in> set (gd_routes (snd (process_metadata (flt r) from_text (w r) r d))). times_parallel q"
    using assms(1) Cons.prems by (rule process_keeps_parallel)
  from Cons.IH [OF this] Cons.prems show ?case by simp
qed simp

text \<open>C38: However its passes go, with whatever logs, faults and cancellations, the worker keeps the
  geometry of every route and its times parallel, provided only that PostGIS reads back as many points as it was
  given: the readers may index both by the same vertex.\<close>

theorem metadata_parallel:
  assumes "\<And>g. 2 \<le> length g \<Longrightarrow> \<exists>h. from_text (build_wkt g) = Some h \<and> length h = length g"
    and "\<forall>r \<in> set (gd_routes d). times_parallel r"
  shows "\<forall>r \<in> set (gd_routes (fold (\<lambda>(fails, cancelled, cutoff, flt, w). metadata_run_once fails cancelled limit cutoff flt from_text w)
           passes d)). times_parallel r"
  using assms(2)
proof (induction passes arbitrary: d)
  case (Cons p ps)
  obtain fails cancelled cutoff flt w where p: "p = (fails, cancelled, cutoff, flt, w)" by (metis prod_cases5)
  have "\<forall>r \<in> set (gd_routes (metadata_run_once fails cancelled limit cutoff flt from_text w d)). times_parallel r"
    using pass_keeps_parallel [OF assms(1) Cons.prems] Cons.prems by (simp add: metadata_run_once_def)
  from Cons.IH [OF this] show ?case unfolding p by simp
qed simp

text \<open>A reader of WKT that only counts the points.\<close>

definition wkt_points :: "string \<Rightarrow> latlng list option" where
  "wkt_points w = Some (replicate (Suc (length (filter (\<lambda>c. c = CHR '','') w))) \<lparr>ll_lat = 0, ll_lng = 0\<rparr>)"

lemma no_commas: "filter (\<lambda>c. c = CHR '','') (show_vertex v) = []"
  using comma_free [of v] by (simp add: filter_empty_conv) blast

lemma join_commas: "length (filter (\<lambda>c. c = CHR '','') (join_vertices (v # vs))) = length vs"
  by (induction vs arbitrary: v) (simp_all add: no_commas)

lemma wkt_points_build: "2 \<le> length g \<Longrightarrow> \<exists>h. wkt_points (build_wkt g) = Some h \<and> length h = length g"
proof -
  assume g: "2 \<le> length g"
  then obtain v vs where v: "g = v # vs" by (cases g) auto
  show ?thesis using g join_commas [of v vs] by (simp add: wkt_points_def build_wkt_def wkt_open_def v)
qed

definition demo_logs :: log_world where
  "demo_logs = \<lparr>lw_segments = Some [0], lw_stored = (\<lambda>n q. q = ''qlog''), lw_opens = (\<lambda>n q. True), lw_stream = (\<lambda>_. (demo_log, False))\<rparr>"

definition bare_db :: geo_db where
  "bare_db = \<lparr>gd_routes = [\<lparr>r_id = 1, r_dongle = ''d'', r_name = ''r'', r_start = None, r_end = None, r_created = 0,
       r_preserved = False, gr_geometry = None, gr_times = None\<rparr>],
     gd_segments = [\<lparr>sm_route = 1, sm_number = 0, sm_created = 5, sm_fcamera = True\<rparr>], gd_turns = []\<rparr>"

lemma metadata_parallel_witness:
  "list_all times_parallel (gd_routes (fold (\<lambda>(fails, cancelled, cutoff, flt, w). metadata_run_once fails cancelled 50 cutoff flt wkt_points w)
     [(False, \<lambda>_. False, 9, \<lambda>_. False, \<lambda>_. demo_logs)] bare_db))"
  unfolding list_all_iff by (rule metadata_parallel) (simp_all add: wkt_points_build bare_db_def times_parallel_def)

text \<open>On that database the pass does write: the route has a start, a geometry of two points and their times.\<close>

lemma demo_pass_writes:
  "map (\<lambda>r. (r_start r, gr_times r)) (gd_routes (metadata_run_once False (\<lambda>_. False) 50 9 (\<lambda>_. False) wkt_points (\<lambda>_. demo_logs) bare_db))
     = [(Some 1600000000000000000, Some [1000, 4000])]"
proof -
  have l: "list_routes_needing_metadata 9 50 bare_db = gd_routes bare_db"
    by (simp add: list_routes_needing_metadata_def needing_metadata_def by_created_def bare_db_def finalized_before_def latest_segment_at_def)
  let ?track = "[\<lparr>gp_lat = 37, gp_lng = - 122, gp_time = Some 1600000001000000000\<rparr>,
    \<lparr>gp_lat = 38, gp_lng = - 122, gp_time = Some 1600000004000000000\<rparr>] :: gps_point list"
  have e: "extract_route demo_logs = Some \<lparr>rm_start = Some 1600000000000000000, rm_end = Some 1600000004000000000, rm_track = ?track\<rparr>"
    using demo_metadata by (simp add: extract_route_def demo_logs_def qlog_picker_order_def)
  obtain h where h: "wkt_points (build_wkt (track_points ?track)) = Some h" "length h = 2"
    using wkt_points_build [of "track_points ?track"] by (auto simp: track_points_def)
  have t: "build_track_times ?track (Some 1600000000000000000) = Some [1000, 4000]"
    by (simp add: build_track_times_def time_sub_def max_duration_def min_duration_def go_div_def)
  obtain r where r: "gd_routes bare_db = [r]" "r_id r = 1" "gr_geometry r = None" by (simp add: bare_db_def)
  have "metadata_run_once False (\<lambda>_. False) 50 9 (\<lambda>_. False) wkt_points (\<lambda>_. demo_logs) bare_db
      = snd (process_metadata False wkt_points demo_logs r bare_db)"
    using l by (simp add: metadata_run_once_def r)
  also have "\<dots> = bare_db\<lparr>gd_routes := [update_metadata_row (\<lambda>w. the (wkt_points w))
      (meta_update 1 \<lparr>rm_start = Some 1600000000000000000, rm_end = Some 1600000004000000000, rm_track = ?track\<rparr>) r]\<rparr>"
    by (simp add: process_metadata_def e Let_def update_route_metadata_def r meta_update_wkt h) (simp add: meta_update_def Let_def r)
  finally show ?thesis
    using h t by (simp add: update_metadata_row_def new_times_def meta_update_wkt) (simp add: meta_update_def Let_def sql_coalesce_def)
qed

section \<open>The queue of routes without metadata\<close>

text \<open>
  A route of whose logs nothing can be read stays at the head of the queue, as in the turn detector: a batch of
  them holds up every younger route.
\<close>

definition unreadable :: "log_world \<Rightarrow> bool" where
  "unreadable w = (case extract_route w of None \<Rightarrow> True | Some m \<Rightarrow> rm_start m = None \<and> rm_end m = None \<and> length (rm_track m) < 2)"

lemma unreadable_unchanged: "unreadable w \<Longrightarrow> snd (process_metadata flt from_text w r d) = d"
  by (auto simp: unreadable_def process_metadata_def Let_def meta_update_wkt split: option.splits)
    (auto simp: meta_update_def Let_def)

lemma metadata_pass_fold:
  "metadata_pass (\<lambda>_. False) k flt from_text w rs d = fold (\<lambda>r d. snd (process_metadata (flt r) from_text (w r) r d)) rs d"
  by (induction rs arbitrary: k d) simp_all

lemma metadata_queue_starves:
  assumes "\<forall>cutoff \<in> set cutoffs. \<forall>r \<in> set (list_routes_needing_metadata cutoff (nat limit) d). unreadable (w r)" and "0 < limit"
  shows "fold (\<lambda>cutoff. metadata_run_once False (\<lambda>_. False) limit cutoff flt from_text w) cutoffs d = d"
proof -
  let ?work = "\<lambda>r d. snd (process_metadata (flt r) from_text (w r) r d)"
  have "\<forall>c \<in> set cutoffs. \<forall>r \<in> set (take (nat limit) (needing_metadata c d)). ?work r d = d"
    using assms(1) unreadable_unchanged by (simp add: list_routes_needing_metadata_def)
  then have "fold (batch_pass needing_metadata ?work (nat limit)) cutoffs d = d" by (rule barren_forever)
  moreover have "metadata_run_once False (\<lambda>_. False) limit cutoff flt from_text w = batch_pass needing_metadata ?work (nat limit) cutoff" for cutoff
    using assms(2)
    by (intro ext) (simp add: batch_pass_def metadata_run_once_def metadata_pass_fold list_routes_needing_metadata_def)
  ultimately show ?thesis by simp
qed

lemma no_logs_unreadable: "lw_segments w = Some ns \<Longrightarrow> (\<And>n q. \<not> lw_stored w n q) \<Longrightarrow> unreadable w"
proof -
  assume "lw_segments w = Some ns" and none: "\<And>n q. \<not> lw_stored w n q"
  moreover have "pick_qlogs (lw_stored w) (lw_opens w) ns = Some []"
    using none by (induction ns) (simp_all add: qlog_picker_order_def)
  ultimately show ?thesis by (simp add: unreadable_def extract_route_def)
qed

end
