(* ===== verification/Trips.thy ===== *)
theory Trips imports GeoTable GoFloat begin

text \<open>
  The trip aggregator (\<open>internal/worker/trip_aggregator.go\<close>) with the statements it uses
  (\<open>internal/db/routes_custom.go\<close>, \<open>trips.sql.go\<close>): which routes it picks, the summary of a route, and the
  row it writes. The geodesic distance of PostGIS and the geocoder are arguments.
\<close>

record trip_row =
  tp_route :: int
  tp_distance :: "real option"
  tp_duration :: "int option"
  tp_max_speed :: "real option"
  tp_avg_speed :: "real option"
  tp_engaged :: "int option"
  tp_start_address :: "string option"
  tp_end_address :: "string option"
  tp_start_point :: "latlng option"
  tp_end_point :: "latlng option"
  tp_computed :: "gotime option"
  tp_events_computed :: "gotime option"

record trip_db =
  td_geo :: geo_db
  td_trips :: "trip_row list"

section \<open>Statements\<close>

definition trip_of :: "trip_db \<Rightarrow> int \<Rightarrow> trip_row option" where
  "trip_of d i = find (\<lambda>t. tp_route t = i) (td_trips d)"

definition trip_due :: "gotime \<Rightarrow> trip_db \<Rightarrow> geo_route \<Rightarrow> bool" where
  "trip_due cutoff d r =
     (case latest_segment_at (td_geo d) r of
        None \<Rightarrow> False
      | Some latest \<Rightarrow>
          latest < cutoff
          \<and> (case trip_of d (r_id r) of
               None \<Rightarrow> True
             | Some t \<Rightarrow>
                 (case tp_computed t of None \<Rightarrow> True | Some c \<Rightarrow> c < latest)
                 \<or> tp_distance t = None \<and> gr_geometry r \<noteq> None
                 \<or> tp_duration t = None \<and> r_start r \<noteq> None \<and> r_end r \<noteq> None))"

definition needing_trips :: "gotime \<Rightarrow> trip_db \<Rightarrow> geo_route list" where
  "needing_trips cutoff d = by_created (filter (trip_due cutoff d) (gd_routes (td_geo d)))"

definition list_routes_for_trip_aggregation :: "gotime \<Rightarrow> nat \<Rightarrow> trip_db \<Rightarrow> geo_route list" where
  "list_routes_for_trip_aggregation cutoff limit d = take limit (needing_trips cutoff d)"

fun edge_lengths :: "(latlng \<Rightarrow> latlng \<Rightarrow> real) \<Rightarrow> latlng list \<Rightarrow> real list" where
  "edge_lengths metres (p # q # ps) = metres p q # edge_lengths metres (q # ps)"
| "edge_lengths metres _ = []"

record geometry_stats =
  gs_points :: int
  gs_distance :: real
  gs_first :: latlng
  gs_final :: latlng

definition usable_geometry :: "geo_db \<Rightarrow> int \<Rightarrow> latlng list option" where
  "usable_geometry d i =
     (case find (\<lambda>r. r_id r = i) (gd_routes d) of
        None \<Rightarrow> None
      | Some r \<Rightarrow> (case gr_geometry r of None \<Rightarrow> None | Some g \<Rightarrow> if 1 < length g then Some g else None))"

definition route_geometry_stats :: "(latlng \<Rightarrow> latlng \<Rightarrow> real) \<Rightarrow> geo_db \<Rightarrow> int \<Rightarrow> geometry_stats option" where
  "route_geometry_stats metres d i =
     map_option (\<lambda>g. \<lparr>gs_points = int (length g), gs_distance = sum_list (edge_lengths metres g),
                     gs_first = hd g, gs_final = List.last g\<rparr>) (usable_geometry d i)"

text \<open>\<open>COALESCE(MAX(...), 0)\<close>.\<close>

definition segment_max_length :: "(latlng \<Rightarrow> latlng \<Rightarrow> real) \<Rightarrow> geo_db \<Rightarrow> int \<Rightarrow> real option" where
  "segment_max_length metres d i =
     map_option (\<lambda>g. case edge_lengths metres g of [] \<Rightarrow> 0 | e # es \<Rightarrow> foldl max e es) (usable_geometry d i)"

text \<open>\<open>ON CONFLICT (route_id) DO UPDATE\<close> leaves \<open>events_computed_at\<close> alone.\<close>

definition upsert_trip :: "trip_row \<Rightarrow> trip_db \<Rightarrow> trip_db" where
  "upsert_trip t d =
     (if list_ex (\<lambda>u. tp_route u = tp_route t) (td_trips d)
      then d\<lparr>td_trips := map (\<lambda>u. if tp_route u = tp_route t then t\<lparr>tp_events_computed := tp_events_computed u\<rparr> else u) (td_trips d)\<rparr>
      else d\<lparr>td_trips := td_trips d @ [t\<lparr>tp_events_computed := None\<rparr>]\<rparr>)"

section \<open>The summary of a route\<close>

datatype trip_query = TpStats | TpMaxLength | TpUpsert

definition trip_seconds :: "geo_route \<Rightarrow> real" where
  "trip_seconds r =
     (case (r_start r, r_end r) of
        (Some s, Some e) \<Rightarrow> (let x = to_seconds (time_sub e s) in if 0 < x then x else 0)
      | _ \<Rightarrow> 0)"

definition empty_trip :: "gotime \<Rightarrow> geo_route \<Rightarrow> trip_row" where
  "empty_trip now r =
     \<lparr>tp_route = r_id r, tp_distance = None,
      tp_duration = (if 0 < trip_seconds r then Some (to_int32 (go_round (trip_seconds r))) else None),
      tp_max_speed = None, tp_avg_speed = None, tp_engaged = None, tp_start_address = None, tp_end_address = None,
      tp_start_point = None, tp_end_point = None, tp_computed = Some now, tp_events_computed = None\<rparr>"

text \<open>The maximal speed: the duration spread evenly over the edges. \<open>Inl\<close> is a failed query.\<close>

definition max_speed ::
  "(trip_query \<Rightarrow> bool) \<Rightarrow> (latlng \<Rightarrow> latlng \<Rightarrow> real) \<Rightarrow> geo_db \<Rightarrow> geo_route \<Rightarrow> geometry_stats \<Rightarrow> unit + real option" where
  "max_speed flt metres d r s =
     (if gs_points s \<le> 1 then Inr None
      else if flt TpMaxLength then Inl ()
      else (case segment_max_length metres d (r_id r) of
              None \<Rightarrow> Inr None
            | Some m \<Rightarrow>
                (let dt = trip_seconds r / of_int (gs_points s - 1) in
                 Inr (if 0 < dt then Some (m / dt) else None))))"

definition trip_summary ::
  "(trip_query \<Rightarrow> bool) \<Rightarrow> (latlng \<Rightarrow> latlng \<Rightarrow> real) \<Rightarrow> (latlng \<Rightarrow> string option) option \<Rightarrow> gotime \<Rightarrow> geo_db \<Rightarrow> geo_route
     \<Rightarrow> unit + trip_row" where
  "trip_summary flt metres geocoder now d r =
     (if flt TpStats then Inl ()
      else (case route_geometry_stats metres d (r_id r) of
              None \<Rightarrow> Inr (empty_trip now r)
            | Some s \<Rightarrow>
                (case (if 0 < trip_seconds r then max_speed flt metres d r s else Inr None) of
                   Inl e \<Rightarrow> Inl e
                 | Inr fastest \<Rightarrow>
                     Inr ((empty_trip now r)
                       \<lparr>tp_distance := Some (gs_distance s), tp_start_point := Some (gs_first s), tp_end_point := Some (gs_final s),
                        tp_avg_speed := (if 0 < trip_seconds r \<and> 0 \<le> gs_distance s / trip_seconds r
                                         then Some (gs_distance s / trip_seconds r) else None),
                        tp_max_speed := fastest,
                        tp_start_address := (case geocoder of None \<Rightarrow> None | Some g \<Rightarrow> g (gs_first s)),
                        tp_end_address := (case geocoder of None \<Rightarrow> None | Some g \<Rightarrow> g (gs_final s))\<rparr>))))"

definition aggregate_route ::
  "(trip_query \<Rightarrow> bool) \<Rightarrow> (latlng \<Rightarrow> latlng \<Rightarrow> real) \<Rightarrow> (latlng \<Rightarrow> string option) option \<Rightarrow> gotime \<Rightarrow> geo_route
     \<Rightarrow> trip_db \<Rightarrow> trip_db" where
  "aggregate_route flt metres geocoder now r d =
     (case trip_summary flt metres geocoder now (td_geo d) r of
        Inl e \<Rightarrow> d
      | Inr t \<Rightarrow> if flt TpUpsert then d else upsert_trip t d)"

fun trip_pass ::
  "(nat \<Rightarrow> bool) \<Rightarrow> nat \<Rightarrow> (geo_route \<Rightarrow> trip_query \<Rightarrow> bool) \<Rightarrow> (latlng \<Rightarrow> latlng \<Rightarrow> real) \<Rightarrow> (latlng \<Rightarrow> string option) option
     \<Rightarrow> gotime \<Rightarrow> geo_route list \<Rightarrow> trip_db \<Rightarrow> trip_db" where
  "trip_pass cancelled k flt metres geocoder now [] d = d"
| "trip_pass cancelled k flt metres geocoder now (r # rs) d =
     (if cancelled k then d
      else trip_pass cancelled (Suc k) flt metres geocoder now rs (aggregate_route (flt r) metres geocoder now r d))"

definition trip_run_once ::
  "bool \<Rightarrow> (nat \<Rightarrow> bool) \<Rightarrow> int \<Rightarrow> gotime \<Rightarrow> (geo_route \<Rightarrow> trip_query \<Rightarrow> bool) \<Rightarrow> (latlng \<Rightarrow> latlng \<Rightarrow> real)
     \<Rightarrow> (latlng \<Rightarrow> string option) option \<Rightarrow> gotime \<Rightarrow> trip_db \<Rightarrow> trip_db" where
  "trip_run_once list_fails cancelled limit cutoff flt metres geocoder now d =
     (if list_fails then d
      else trip_pass cancelled 0 flt metres geocoder now
             (list_routes_for_trip_aggregation cutoff (nat (if limit \<le> 0 then 50 else limit)) d) d)"

section \<open>Speeds\<close>

lemma foldl_max_ge: "(m :: real) \<le> foldl max m xs \<and> (\<forall>x \<in> set xs. x \<le> foldl max m xs)"
proof (induction xs arbitrary: m)
  case (Cons y ys)
  from Cons [of "max m y"] show ?case by auto
qed simp

lemma sum_le_length: "\<forall>x \<in> set xs. x \<le> (m :: real) \<Longrightarrow> sum_list xs \<le> real (length xs) * m"
  by (induction xs) (simp_all add: algebra_simps)

lemma length_edges: "length (edge_lengths metres g) = length g - 1"
  by (induction metres g rule: edge_lengths.induct) auto

lemma edges_nonneg: "(\<And>p q. 0 \<le> metres p q) \<Longrightarrow> \<forall>x \<in> set (edge_lengths metres g). 0 \<le> x"
  by (induction metres g rule: edge_lengths.induct) auto

text \<open>C31: The speeds of a trip are consistent: when the distance of two points is never negative, the average
  is not negative and at most the maximum, and the average times the duration is the length of the track.\<close>

theorem trip_speeds:
  assumes "\<And>p q. 0 \<le> metres p q" and "trip_summary flt metres geocoder now d r = Inr t"
    and "usable_geometry d (r_id r) = Some g" and "0 < trip_seconds r"
  shows "\<exists>avg fastest. tp_avg_speed t = Some avg \<and> tp_max_speed t = Some fastest \<and> 0 \<le> avg \<and> avg \<le> fastest
    \<and> avg * trip_seconds r = sum_list (edge_lengths metres g) \<and> tp_distance t = Some (sum_list (edge_lengths metres g))"
proof -
  let ?T = "trip_seconds r" and ?D = "sum_list (edge_lengths metres g)" and ?n = "real (length g - 1)"
  have g: "1 < length g" using assms(3) by (auto simp: usable_geometry_def split: option.splits if_splits)
  then obtain e es where es: "edge_lengths metres g = e # es" using length_edges [of metres g] by (cases "edge_lengths metres g") auto
  let ?m = "foldl max e es"
  have D: "0 \<le> ?D" using edges_nonneg [OF assms(1)] by (intro sum_list_nonneg) simp
  have n: "real_of_int (int (length g) - 1) = ?n" "0 < ?n" using g by simp_all
  have "?D \<le> real (length (edge_lengths metres g)) * ?m"
    using foldl_max_ge [of e es] by (intro sum_le_length) (simp add: es)
  then have "?D \<le> ?n * ?m" by (simp only: length_edges)
  then have le: "?D / ?T \<le> ?m / (?T / ?n)" using assms(4) n by (simp add: field_simps)
  have "0 < ?T / ?n" using assms(4) n by simp
  then have "\<not> flt TpStats" "\<not> flt TpMaxLength" and t: "tp_avg_speed t = Some (?D / ?T)" "tp_max_speed t = Some (?m / (?T / ?n))" "tp_distance t = Some ?D"
    using assms(2-4) g n D es
    by (auto simp: trip_summary_def route_geometry_stats_def max_speed_def segment_max_length_def Let_def split: if_splits)
  then show ?thesis using le D assms(4) by (intro exI [of _ "?D / ?T"] exI [of _ "?m / (?T / ?n)"]) simp
qed

definition flat_metres :: "latlng \<Rightarrow> latlng \<Rightarrow> real" where
  "flat_metres p q = \<bar>ll_lat p - ll_lat q\<bar> + \<bar>ll_lng p - ll_lng q\<bar>"

definition demo_trip_route :: geo_route where
  "demo_trip_route = \<lparr>r_id = 1, r_dongle = ''d'', r_name = ''r'', r_start = Some 0, r_end = Some 4000000000, r_created = 0,
     r_preserved = False,
     gr_geometry = Some [\<lparr>ll_lat = 0, ll_lng = 0\<rparr>, \<lparr>ll_lat = 0, ll_lng = 10\<rparr>, \<lparr>ll_lat = 0, ll_lng = 40\<rparr>], gr_times = Some [0, 1000, 4000]\<rparr>"

definition demo_trip_geo :: geo_db where
  "demo_trip_geo = \<lparr>gd_routes = [demo_trip_route], gd_segments = [\<lparr>sm_route = 1, sm_number = 0, sm_created = 5, sm_fcamera = True\<rparr>],
     gd_turns = []\<rparr>"

lemma demo_summary: "\<exists>t. trip_summary (\<lambda>_. False) flat_metres None 9 demo_trip_geo demo_trip_route = Inr t"
  by (simp add: trip_summary_def max_speed_def segment_max_length_def route_geometry_stats_def demo_trip_geo_def demo_trip_route_def
      usable_geometry_def Let_def)

lemma trip_speeds_witness:
  "\<exists>t avg fastest. trip_summary (\<lambda>_. False) flat_metres None 9 demo_trip_geo demo_trip_route = Inr t
     \<and> tp_avg_speed t = Some avg \<and> tp_max_speed t = Some fastest \<and> 0 \<le> avg \<and> avg \<le> fastest \<and> avg * 4 = 40"
proof -
  obtain t where t: "trip_summary (\<lambda>_. False) flat_metres None 9 demo_trip_geo demo_trip_route = Inr t" using demo_summary by blast
  have s: "trip_seconds demo_trip_route = 4"
    by (simp add: trip_seconds_def demo_trip_route_def to_seconds_def time_sub_def max_duration_def min_duration_def)
  have g: "usable_geometry demo_trip_geo (r_id demo_trip_route) = gr_geometry demo_trip_route"
    by (simp add: usable_geometry_def demo_trip_geo_def demo_trip_route_def)
  have "gr_geometry demo_trip_route = Some [\<lparr>ll_lat = 0, ll_lng = 0\<rparr>, \<lparr>ll_lat = 0, ll_lng = 10\<rparr>, \<lparr>ll_lat = 0, ll_lng = 40\<rparr>]"
    by (simp add: demo_trip_route_def)
  from trip_speeds [OF _ t trans [OF g this]] s t show ?thesis by (auto simp: flat_metres_def)
qed

section \<open>The queue of routes without a trip\<close>

text \<open>
  Of a route that starts and ends at the same instant, as one has whose logs carry the boot clock but no fix, the
  duration is written as NULL; the statement takes that for a trip to be refreshed, so the route never leaves
  the queue, and a batch of such routes holds up the others.
\<close>

definition instant :: "geo_route \<Rightarrow> bool" where
  "instant r = (case r_start r of None \<Rightarrow> False | Some s \<Rightarrow> r_end r = Some s)"

lemma instant_duration: "instant r \<Longrightarrow> trip_summary flt metres geocoder now d r = Inr t \<Longrightarrow> tp_duration t = None \<and> tp_route t = r_id r"
proof -
  assume i: "instant r" and t: "trip_summary flt metres geocoder now d r = Inr t"
  have "trip_seconds r = 0" using i by (auto simp: instant_def trip_seconds_def to_seconds_def split: option.splits)
  with t show ?thesis by (auto simp: trip_summary_def empty_trip_def split: option.splits if_splits)
qed

lemma upsert_others:
  "find (\<lambda>t. tp_route t = j) (td_trips (upsert_trip t d))
     = (if j = tp_route t then Some (t\<lparr>tp_events_computed := (case trip_of d j of None \<Rightarrow> None | Some u \<Rightarrow> tp_events_computed u)\<rparr>)
        else trip_of d j)"
proof -
  have m: "find (\<lambda>t. tp_route t = j) (map (\<lambda>u. if tp_route u = tp_route t then t\<lparr>tp_events_computed := tp_events_computed u\<rparr> else u) ts)
      = (case find (\<lambda>t. tp_route t = j) ts of None \<Rightarrow> None
         | Some u \<Rightarrow> Some (if j = tp_route t then t\<lparr>tp_events_computed := tp_events_computed u\<rparr> else u))" for ts
    by (induction ts) auto
  show ?thesis
  proof (cases "list_ex (\<lambda>u. tp_route u = tp_route t) (td_trips d)")
    case True
    then obtain u where "find (\<lambda>u. tp_route u = tp_route t) (td_trips d) = Some u"
      by (cases "find (\<lambda>u. tp_route u = tp_route t) (td_trips d)") (auto simp: find_None_iff list_ex_iff)
    then show ?thesis
      using True by (cases "find (\<lambda>t. tp_route t = j) (td_trips d)") (auto simp: upsert_trip_def m trip_of_def)
  next
    case False
    then have "find (\<lambda>u. tp_route u = tp_route t) (td_trips d) = None" by (simp add: find_None_iff list_ex_iff)
    then show ?thesis using False by (auto simp: upsert_trip_def trip_of_def find_app split: option.split)
  qed
qed

lemma instant_stays_due:
  assumes "instant r" and "trip_due cutoff d q"
    and "r_id q = r_id r \<longrightarrow> instant q"
  shows "trip_due cutoff (aggregate_route flt metres geocoder now r d) q"
proof (cases "trip_summary flt metres geocoder now (td_geo d) r")
  case (Inr t)
  note i = instant_duration [OF assms(1) Inr]
  have geo: "td_geo (upsert_trip t d) = td_geo d" by (simp add: upsert_trip_def)
  show ?thesis
  proof (cases "flt TpUpsert")
    case False
    then have a: "aggregate_route flt metres geocoder now r d = upsert_trip t d" using Inr by (simp add: aggregate_route_def)
    show ?thesis
    proof (cases "r_id q = r_id r")
      case True
      with assms(3) have "r_start q \<noteq> None \<and> r_end q \<noteq> None" by (auto simp: instant_def split: option.splits)
      then show ?thesis
        using assms(2) True i unfolding a trip_due_def geo trip_of_def upsert_others by (simp split: option.splits)
    next
      case False
      then show ?thesis using assms(2) i unfolding a trip_due_def geo trip_of_def upsert_others by (simp add: trip_of_def)
    qed
  qed (use assms(2) Inr in \<open>simp add: aggregate_route_def\<close>)
qed (use assms(2) in \<open>simp add: aggregate_route_def\<close>)

lemma aggregate_geo [simp]: "td_geo (aggregate_route flt metres geocoder now r d) = td_geo d"
  by (simp add: aggregate_route_def upsert_trip_def split: sum.split)

lemma aggregate_other:
  "r_id q \<noteq> r_id r \<Longrightarrow> trip_due cutoff (aggregate_route flt metres geocoder now r d) q = trip_due cutoff d q"
proof (cases "trip_summary flt metres geocoder now (td_geo d) r")
  case (Inr t)
  moreover assume "r_id q \<noteq> r_id r"
  moreover have "tp_route t = r_id r" using Inr by (auto simp: trip_summary_def empty_trip_def split: option.splits if_splits sum.splits)
  moreover from calculation have "trip_of (upsert_trip t d) (r_id q) = trip_of d (r_id q)"
    unfolding trip_of_def [of "upsert_trip t d"] upsert_others by simp
  moreover have "td_geo (upsert_trip t d) = td_geo d" by (simp add: upsert_trip_def)
  ultimately show ?thesis
    by (cases "latest_segment_at (td_geo d) q") (simp_all add: aggregate_route_def trip_due_def)
qed (simp add: aggregate_route_def)

lemma instant_pass_due:
  assumes "distinct (map r_id (gd_routes (td_geo d)))" and "set rs \<subseteq> set (gd_routes (td_geo d))"
    and "\<forall>r \<in> set rs. instant r \<and> trip_due cutoff d r"
  shows "td_geo (trip_pass cancelled k flt metres geocoder now rs d) = td_geo d
    \<and> (\<forall>q \<in> set (gd_routes (td_geo d)). trip_due cutoff (trip_pass cancelled k flt metres geocoder now rs d) q = trip_due cutoff d q)"
  using assms
proof (induction rs arbitrary: k d)
  case (Cons r rs)
  let ?d = "aggregate_route (flt r) metres geocoder now r d"
  have due: "trip_due cutoff ?d q = trip_due cutoff d q" if q: "q \<in> set (gd_routes (td_geo d))" for q
  proof (cases "r_id q = r_id r")
    case True
    then have "q = r" using Cons.prems(1,2) q by (auto dest: inj_onD simp: distinct_map)
    then show ?thesis using instant_stays_due [of r cutoff d q] Cons.prems(3) by simp
  next
    case False
    then show ?thesis by (rule aggregate_other)
  qed
  then have "td_geo (trip_pass cancelled (Suc k) flt metres geocoder now rs ?d) = td_geo ?d
    \<and> (\<forall>q \<in> set (gd_routes (td_geo ?d)). trip_due cutoff (trip_pass cancelled (Suc k) flt metres geocoder now rs ?d) q = trip_due cutoff ?d q)"
    using Cons.prems by (intro Cons.IH) auto
  with due show ?case by simp
qed simp

lemma trip_queue_starves:
  assumes "distinct (map r_id (gd_routes (td_geo d)))" and "0 < limit"
    and "\<forall>r \<in> set (list_routes_for_trip_aggregation cutoff (nat limit) d). instant r"
  shows "list_routes_for_trip_aggregation cutoff (nat limit) (trip_run_once False cancelled limit cutoff flt metres geocoder now d)
    = list_routes_for_trip_aggregation cutoff (nat limit) d"
proof -
  let ?rs = "list_routes_for_trip_aggregation cutoff (nat limit) d"
  have "set ?rs \<subseteq> set (needing_trips cutoff d)" by (simp add: list_routes_for_trip_aggregation_def set_take_subset)
  then have "set ?rs \<subseteq> set (gd_routes (td_geo d))" "\<forall>r \<in> set ?rs. trip_due cutoff d r" by (auto simp: needing_trips_def by_created_def)
  with assms(3) have "td_geo (trip_pass cancelled 0 flt metres geocoder now ?rs d) = td_geo d
      \<and> (\<forall>q \<in> set (gd_routes (td_geo d)). trip_due cutoff (trip_pass cancelled 0 flt metres geocoder now ?rs d) q = trip_due cutoff d q)"
    by (intro instant_pass_due [OF assms(1)]) auto
  then have "needing_trips cutoff (trip_pass cancelled 0 flt metres geocoder now ?rs d) = needing_trips cutoff d"
    by (simp add: needing_trips_def cong: filter_cong)
  then show ?thesis using assms(2) by (simp add: trip_run_once_def list_routes_for_trip_aggregation_def)
qed

end
