(* ===== verification/Events.thy ===== *)
theory Events imports Trips RouteMeta begin

text \<open>
  The event detector (\<open>internal/worker/event_detector.go\<close>) over the driving signals of
  \<open>internal/cereal/signals.go\<close>: the rules for hard braking, alerts and disengagements, the insertion of
  a route's events and the stamp that takes the route off the queue. The columns of \<open>DrivingSignals\<close>, which have
  one length by construction, are rows here.
\<close>

section \<open>Signals\<close>

record sig_row =
  sr_time :: gotime
  sr_speed :: real
  sr_steering :: real
  sr_brake :: bool
  sr_gas :: bool
  sr_engaged :: bool
  sr_alert :: string

text \<open>The events the extractor tracks, with their monotonic clock; \<open>SvBroken\<close> is one whose reader fails.\<close>

datatype sig_event =
    SvCarState real real bool bool int
  | SvSelfdrive bool string int
  | SvControls bool string int
  | SvOther
  | SvBroken

fun signal_row :: "sig_event \<Rightarrow> sig_row list option" where
  "signal_row (SvCarState v steer brake gas clock) =
     Some [\<lparr>sr_time = to_int64 clock, sr_speed = v, sr_steering = steer, sr_brake = brake, sr_gas = gas, sr_engaged = False, sr_alert = []\<rparr>]"
| "signal_row (SvSelfdrive engaged alert clock) =
     Some [\<lparr>sr_time = to_int64 clock, sr_speed = 0, sr_steering = 0, sr_brake = False, sr_gas = False, sr_engaged = engaged, sr_alert = alert\<rparr>]"
| "signal_row (SvControls engaged alert clock) =
     Some [\<lparr>sr_time = to_int64 clock, sr_speed = 0, sr_steering = 0, sr_brake = False, sr_gas = False, sr_engaged = engaged, sr_alert = alert\<rparr>]"
| "signal_row SvOther = Some []"
| "signal_row SvBroken = None"

fun extract_driving :: "sig_event list \<Rightarrow> sig_row list option" where
  "extract_driving [] = Some []"
| "extract_driving (e # es) =
     (case signal_row e of
        None \<Rightarrow> None
      | Some rs \<Rightarrow> map_option ((@) rs) (extract_driving es))"

section \<open>Detection\<close>

datatype event_payload = NoPayload | AlertPayload string | BrakePayload real real real real

record detected_event =
  de_type :: string
  de_severity :: string
  de_offset :: real
  de_occurred :: "gotime option"
  de_payload :: event_payload

record event_thresholds =
  et_brake :: real
  et_min_sec :: real

definition round_float :: "real \<Rightarrow> nat \<Rightarrow> real" where
  "round_float x n = of_int (go_round (x * 10 ^ n)) / 10 ^ n"

definition round_sec :: "real \<Rightarrow> real" where
  "round_sec x = round_float x 3"

definition row_gap :: "sig_row \<Rightarrow> sig_row \<Rightarrow> real" where
  "row_gap r s = to_seconds (time_sub (sr_time s) (sr_time r))"

definition offset_at :: "gotime \<Rightarrow> sig_row \<Rightarrow> real" where
  "offset_at origin r = (let x = to_seconds (time_sub (sr_time r) origin) in if x < 0 then 0 else x)"

definition brake_event :: "gotime \<Rightarrow> sig_row \<Rightarrow> sig_row \<Rightarrow> real \<Rightarrow> detected_event" where
  "brake_event origin c s decel =
     \<lparr>de_type = ''hard_brake'', de_severity = ''warn'', de_offset = round_sec (offset_at origin c),
      de_occurred = Some (sr_time c),
      de_payload = BrakePayload (round_float decel 3) (round_float (row_gap c s) 3) (round_float (sr_speed c) 3) (round_float (sr_speed s) 3)\<rparr>"

text \<open>
  The loop: the first row of the running chain, if there is one, whether the chain was reported, and the
  previous row.
\<close>

fun brake_scan :: "real \<Rightarrow> real \<Rightarrow> gotime \<Rightarrow> sig_row option \<Rightarrow> bool \<Rightarrow> sig_row \<Rightarrow> sig_row list \<Rightarrow> detected_event list" where
  "brake_scan mps2 min_sec origin chain emitted prev [] = []"
| "brake_scan mps2 min_sec origin chain emitted prev (s # rest) =
     (let dt = row_gap prev s in
      if dt \<le> 0 then brake_scan mps2 min_sec origin None False s rest
      else if sr_speed prev = 0 \<and> sr_speed s = 0 then brake_scan mps2 min_sec origin None False s rest
      else if sr_speed prev = 0 then brake_scan mps2 min_sec origin None False s rest
      else (let decel = (sr_speed prev - sr_speed s) / dt in
        if mps2 \<le> decel then
          (let c = (case chain of None \<Rightarrow> prev | Some c \<Rightarrow> c);
               reported = (case chain of None \<Rightarrow> False | Some _ \<Rightarrow> emitted) in
           if \<not> reported \<and> min_sec \<le> row_gap c s
           then brake_event origin c s decel # brake_scan mps2 min_sec origin (Some c) True s rest
           else brake_scan mps2 min_sec origin (Some c) reported s rest)
        else brake_scan mps2 min_sec origin None False s rest))"

definition detect_hard_brakes :: "sig_row list \<Rightarrow> gotime \<Rightarrow> real \<Rightarrow> real \<Rightarrow> detected_event list" where
  "detect_hard_brakes rows origin mps2 min_sec =
     (case rows of [] \<Rightarrow> [] | r # rest \<Rightarrow> brake_scan mps2 min_sec origin None False r rest)"

definition is_fcw_alert :: "string \<Rightarrow> bool" where
  "is_fcw_alert text \<longleftrightarrow> prefix ''FCW'' text \<or> prefix ''Forward Collision'' text"

definition alert_row_event :: "gotime \<Rightarrow> string \<Rightarrow> sig_row \<Rightarrow> detected_event" where
  "alert_row_event origin type r =
     \<lparr>de_type = type, de_severity = ''warn'', de_offset = round_sec (offset_at origin r), de_occurred = Some (sr_time r),
      de_payload = AlertPayload (sr_alert r)\<rparr>"

fun alert_scan :: "gotime \<Rightarrow> string \<Rightarrow> sig_row list \<Rightarrow> detected_event list" where
  "alert_scan origin prev [] = []"
| "alert_scan origin prev (r # rs) =
     (if sr_alert r \<noteq> [] \<and> sr_alert r \<noteq> prev
      then (if is_fcw_alert (sr_alert r) then [alert_row_event origin ''fcw'' r] else []) @ [alert_row_event origin ''alert_warning'' r]
      else []) @ alert_scan origin (sr_alert r) rs"

definition disengage_event :: "gotime \<Rightarrow> sig_row \<Rightarrow> detected_event" where
  "disengage_event origin r =
     \<lparr>de_type = ''disengage'', de_severity = ''info'', de_offset = round_sec (offset_at origin r), de_occurred = Some (sr_time r),
      de_payload = NoPayload\<rparr>"

fun disengage_scan :: "gotime \<Rightarrow> bool \<Rightarrow> bool \<Rightarrow> sig_row list \<Rightarrow> detected_event list" where
  "disengage_scan origin latched seen [] = []"
| "disengage_scan origin latched seen (r # rs) =
     (if sr_engaged r \<and> \<not> latched then disengage_scan origin True True rs
      else if \<not> sr_engaged r \<and> latched \<and> seen \<and> (sr_alert r \<noteq> [] \<or> rs = [])
      then disengage_event origin r # disengage_scan origin False seen rs
      else disengage_scan origin latched seen rs)"

definition detect_events :: "sig_row list \<Rightarrow> event_thresholds \<Rightarrow> detected_event list" where
  "detect_events rows thr =
     (case rows of
        [] \<Rightarrow> []
      | r # _ \<Rightarrow>
          (let brake = (if et_brake thr \<le> 0 then 9 / 2 else et_brake thr);
               min_sec = (if et_min_sec thr \<le> 0 then 3 / 10 else et_min_sec thr);
               origin = sr_time r
           in detect_hard_brakes rows origin brake min_sec @ alert_scan origin [] rows @ disengage_scan origin False False rows))"

section \<open>Hard braking is found by runs\<close>

text \<open>
  The reference: cut the rows into maximal runs whose steps all brake hard, and report each run that lasts long
  enough, at its first row.
\<close>

definition brakes_hard :: "real \<Rightarrow> sig_row \<Rightarrow> sig_row \<Rightarrow> bool" where
  "brakes_hard mps2 r s \<longleftrightarrow> 0 < row_gap r s \<and> sr_speed r \<noteq> 0 \<and> mps2 \<le> (sr_speed r - sr_speed s) / row_gap r s"

fun brake_runs :: "real \<Rightarrow> sig_row list \<Rightarrow> sig_row list list" where
  "brake_runs mps2 [] = []"
| "brake_runs mps2 [r] = [[r]]"
| "brake_runs mps2 (r # s # rest) =
     (if brakes_hard mps2 r s
      then (case brake_runs mps2 (s # rest) of [] \<Rightarrow> [[r]] | run # runs \<Rightarrow> (r # run) # runs)
      else [r] # brake_runs mps2 (s # rest))"

definition long_run :: "real \<Rightarrow> sig_row list \<Rightarrow> bool" where
  "long_run min_sec run \<longleftrightarrow> min_sec \<le> row_gap (hd run) (List.last run)"

lemma long_run_Cons: "long_run m (r # run) = (m \<le> row_gap r (List.last (r # run)))"
  by (simp add: long_run_def)

lemma row_gap_mono: "sr_time s \<le> sr_time t \<Longrightarrow> row_gap r s \<le> row_gap r t"
  by (simp add: row_gap_def to_seconds_mono time_sub_def)

lemma row_gap_pos: "0 < row_gap r s \<Longrightarrow> sr_time r < sr_time s"
  by (auto simp: row_gap_def to_seconds_def time_sub_def min_duration_def max_duration_def split: if_splits)

lemma row_gap_self [simp]: "row_gap r r = 0"
  by (simp add: row_gap_def to_seconds_def)

lemma runs_hd: "\<exists>run runs. brake_runs mps2 (r # rest) = (r # run) # runs"
  by (cases rest) (auto split: list.split)

lemma run_grows: "brake_runs mps2 (r # rest) = run # runs \<Longrightarrow> sr_time r \<le> sr_time (List.last run)"
proof (induction rest arbitrary: r run runs)
  case (Cons s rest)
  obtain run' runs' where s: "brake_runs mps2 (s # rest) = (s # run') # runs'" using runs_hd by blast
  show ?case
  proof (cases "brakes_hard mps2 r s")
    case True
    then have "run = r # s # run'" using Cons.prems s by simp
    moreover have "sr_time s \<le> sr_time (List.last (s # run'))" by (rule Cons.IH [OF s])
    moreover have "sr_time r < sr_time s" using True row_gap_pos by (simp add: brakes_hard_def)
    ultimately show ?thesis by simp
  next
    case False
    with Cons.prems show ?thesis by auto
  qed
qed auto

definition chain_head :: "sig_row option \<Rightarrow> sig_row \<Rightarrow> sig_row" where
  "chain_head chain prev = (case chain of None \<Rightarrow> prev | Some c \<Rightarrow> c)"

lemma scan_step:
  "brake_scan mps2 m origin chain emitted prev (s # rest) =
     (if brakes_hard mps2 prev s
      then (let c = chain_head chain prev; reported = chain \<noteq> None \<and> emitted;
                decel = (sr_speed prev - sr_speed s) / row_gap prev s in
            if \<not> reported \<and> m \<le> row_gap c s then brake_event origin c s decel # brake_scan mps2 m origin (Some c) True s rest
            else brake_scan mps2 m origin (Some c) reported s rest)
      else brake_scan mps2 m origin None False s rest)"
  by (cases chain) (auto simp: brakes_hard_def Let_def chain_head_def)

lemma brake_event_offset [simp]: "de_offset (brake_event origin c s x) = round_sec (offset_at origin c)"
  by (simp add: brake_event_def)

text \<open>What the scan reports of the run it is in, and of the runs after it.\<close>

lemma scan_runs:
  assumes "0 < m" and "chain \<noteq> None \<longrightarrow> sr_time (the chain) \<le> sr_time prev"
    and "chain \<noteq> None \<and> \<not> emitted \<longrightarrow> row_gap (the chain) prev < m"
    and "brake_runs mps2 (prev # rest) = run # runs"
  shows "map de_offset (brake_scan mps2 m origin chain emitted prev rest)
    = (if (chain = None \<or> \<not> emitted) \<and> m \<le> row_gap (chain_head chain prev) (List.last run)
       then [round_sec (offset_at origin (chain_head chain prev))] else [])
      @ map (\<lambda>r. round_sec (offset_at origin (hd r))) (filter (long_run m) runs)"
  using assms(2-4)
proof (induction rest arbitrary: chain emitted prev run runs)
  case Nil
  then show ?case using assms(1) by (cases chain) (auto simp: chain_head_def)
next
  case (Cons s rest)
  obtain run' runs' where s: "brake_runs mps2 (s # rest) = (s # run') # runs'" using runs_hd by blast
  let ?c = "chain_head chain prev"
  show ?case
  proof (cases "brakes_hard mps2 prev s")
    case False
    with Cons.prems(3) have r: "run = [prev]" "runs = brake_runs mps2 (s # rest)" by auto
    have "map de_offset (brake_scan mps2 m origin None False s rest)
        = map (\<lambda>r. round_sec (offset_at origin (hd r))) (filter (long_run m) runs)"
      using Cons.IH [of None s False, OF _ _ s] long_run_Cons [of m s run'] by (auto simp: r s chain_head_def)
    moreover have "\<not> ((chain = None \<or> \<not> emitted) \<and> m \<le> row_gap ?c (List.last run))"
      using Cons.prems(2) assms(1) by (cases chain) (auto simp: r chain_head_def)
    ultimately show ?thesis using False unfolding scan_step by auto
  next
    case True
    with Cons.prems(3) s have r: "run = prev # s # run'" "runs = runs'" by auto
    have ps: "sr_time prev < sr_time s" using True row_gap_pos by (simp add: brakes_hard_def)
    have c: "sr_time ?c \<le> sr_time s" using Cons.prems(1) ps by (cases chain) (auto simp: chain_head_def)
    have lst: "sr_time s \<le> sr_time (List.last run)" using run_grows [OF s] by (simp add: r)
    have le: "row_gap ?c s \<le> row_gap ?c (List.last run)" using lst by (rule row_gap_mono)
    have l: "List.last (s # run') = List.last run" by (simp add: r)
    let ?rep = "chain \<noteq> None \<and> emitted"
    show ?thesis
    proof (cases "\<not> ?rep \<and> m \<le> row_gap ?c s")
      case True
      then have "map de_offset (brake_scan mps2 m origin chain emitted prev (s # rest))
          = round_sec (offset_at origin ?c) # map de_offset (brake_scan mps2 m origin (Some ?c) True s rest)"
        unfolding scan_step using \<open>brakes_hard mps2 prev s\<close> by (auto simp: Let_def)
      also have "map de_offset (brake_scan mps2 m origin (Some ?c) True s rest)
          = map (\<lambda>r. round_sec (offset_at origin (hd r))) (filter (long_run m) runs)"
        using Cons.IH [of "Some ?c" s True, OF _ _ s] c by (simp add: r)
      finally show ?thesis using True le by auto
    next
      case False
      then have "map de_offset (brake_scan mps2 m origin chain emitted prev (s # rest))
          = map de_offset (brake_scan mps2 m origin (Some ?c) ?rep s rest)"
        unfolding scan_step using \<open>brakes_hard mps2 prev s\<close> by (auto simp: Let_def)
      also have "\<dots> = (if \<not> ?rep \<and> m \<le> row_gap ?c (List.last run) then [round_sec (offset_at origin ?c)] else [])
          @ map (\<lambda>r. round_sec (offset_at origin (hd r))) (filter (long_run m) runs)"
      proof -
        have p1: "Some ?c \<noteq> None \<longrightarrow> sr_time (the (Some ?c)) \<le> sr_time s" using c by simp
        have p2: "Some ?c \<noteq> None \<and> \<not> ?rep \<longrightarrow> row_gap (the (Some ?c)) s < m" using False by auto
        have h: "chain_head (Some ?c) s = ?c" by (simp add: chain_head_def)
        from Cons.IH [OF p1 p2 s, unfolded h l] show ?thesis unfolding r(2) by simp
      qed
      finally show ?thesis by auto
    qed
  qed
qed

lemma brake_offsets:
  assumes "0 < min_sec"
  shows "map de_offset (detect_hard_brakes rows origin mps2 min_sec)
    = map (\<lambda>run. round_sec (offset_at origin (hd run))) (filter (long_run min_sec) (brake_runs mps2 rows))"
proof (cases rows)
  case (Cons r rest)
  obtain run runs where r: "brake_runs mps2 (r # rest) = (r # run) # runs" using runs_hd by blast
  show ?thesis
    using scan_runs [OF assms _ _ r, of None False] long_run_Cons [of min_sec r run]
    by (auto simp: detect_hard_brakes_def Cons r chain_head_def)
qed (simp add: detect_hard_brakes_def)


definition demo_sig :: "gotime \<Rightarrow> real \<Rightarrow> string \<Rightarrow> sig_row" where
  "demo_sig t v alert = \<lparr>sr_time = t, sr_speed = v, sr_steering = 0, sr_brake = False, sr_gas = False, sr_engaged = True, sr_alert = alert\<rparr>"

lemma demo_gaps:
  "row_gap (demo_sig a v x) (demo_sig b w y) = to_seconds (time_sub b a)"
  by (simp add: row_gap_def demo_sig_def)


section \<open>Interleaved logs\<close>

text \<open>
  The extractor makes a row of speed 0 of every event that is not a car state. In a log where the two kinds alternate,
  no two neighbouring rows carry a speed, every chain ends at its first step, and hard braking is not found however
  long it lasts; an alert that stays is reported again after every car state.
\<close>

lemma interleaved_runs:
  assumes "0 < m" and "successively (\<lambda>r s. (sr_speed r = 0 \<or> sr_speed s = 0) \<and> row_gap r s < m) rows"
  shows "(\<forall>run \<in> set (brake_runs mps2 rows). \<not> long_run m run)
    \<and> (rows \<noteq> [] \<and> sr_speed (hd rows) = 0 \<longrightarrow> (\<exists>runs. brake_runs mps2 rows = [hd rows] # runs))"
  using assms(2)
proof (induction mps2 rows rule: brake_runs.induct)
  case (1 mps2)
  then show ?case by simp
next
  case (2 mps2 r)
  then show ?case using assms(1) by (simp add: long_run_def)
next
  case (3 mps2 r s rest)
  then have IH: "\<forall>run \<in> set (brake_runs mps2 (s # rest)). \<not> long_run m run"
    "sr_speed s = 0 \<Longrightarrow> \<exists>runs. brake_runs mps2 (s # rest) = [s] # runs" by auto
  show ?case
  proof (cases "brakes_hard mps2 r s")
    case True
    then have "sr_speed r \<noteq> 0" by (simp add: brakes_hard_def)
    with "3.prems" have "sr_speed s = 0" "row_gap r s < m" by auto
    with IH(2) obtain runs where "brake_runs mps2 (s # rest) = [s] # runs" by blast
    with True \<open>sr_speed r \<noteq> 0\<close> \<open>row_gap r s < m\<close> IH(1) show ?thesis by (simp add: long_run_def)
  next
    case False
    with IH assms(1) show ?thesis by (simp add: long_run_def)
  qed
qed

lemma interleaved_no_brake:
  assumes "0 < m" and "successively (\<lambda>r s. (sr_speed r = 0 \<or> sr_speed s = 0) \<and> row_gap r s < m) rows"
  shows "detect_hard_brakes rows origin mps2 m = []"
proof -
  have "filter (long_run m) (brake_runs mps2 rows) = []" using interleaved_runs [OF assms] by (simp add: filter_empty_conv)
  then show ?thesis using brake_offsets [OF assms(1), of rows origin mps2] by simp
qed

lemma alert_refires:
  assumes "sr_alert car = []" and "sr_alert a \<noteq> []"
  shows "length (filter (\<lambda>e. de_type e = ''alert_warning'') (alert_scan origin prev (concat (replicate n [car, a])))) = n"
  using assms by (induction n arbitrary: prev) (simp_all add: alert_row_event_def)

section \<open>The tables and the worker\<close>

record event_row =
  er_id :: int
  er_route :: int
  er_type :: string
  er_severity :: string
  er_offset :: real
  er_occurred :: "gotime option"
  er_payload :: event_payload
  er_created :: gotime

record event_db =
  ed_trips :: trip_db
  ed_events :: "event_row list"
  ed_next :: int

definition event_key :: "event_row \<Rightarrow> int \<times> string \<times> real" where
  "event_key e = (er_route e, er_type e, er_offset e)"

text \<open>\<open>ON CONFLICT (route_id, type, route_offset_seconds) DO NOTHING\<close>; the id is drawn from the sequence all the same.\<close>

definition insert_event :: "gotime \<Rightarrow> int \<Rightarrow> detected_event \<Rightarrow> event_db \<Rightarrow> event_db" where
  "insert_event now i e d =
     (let row = \<lparr>er_id = ed_next d, er_route = i, er_type = de_type e, er_severity = de_severity e, er_offset = de_offset e,
                 er_occurred = de_occurred e, er_payload = de_payload e, er_created = now\<rparr>
      in if event_key row \<in> event_key ` set (ed_events d) then d\<lparr>ed_next := ed_next d + 1\<rparr>
         else d\<lparr>ed_events := ed_events d @ [row], ed_next := ed_next d + 1\<rparr>)"

definition mark_trip_events :: "int \<Rightarrow> gotime \<Rightarrow> event_db \<Rightarrow> event_db" where
  "mark_trip_events i now d =
     d\<lparr>ed_trips := (ed_trips d)\<lparr>td_trips := map (\<lambda>t. if tp_route t = i then t\<lparr>tp_events_computed := Some now\<rparr> else t)
                                             (td_trips (ed_trips d))\<rparr>\<rparr>"

definition event_due :: "event_db \<Rightarrow> geo_route \<Rightarrow> bool" where
  "event_due d r = (case trip_of (ed_trips d) (r_id r) of None \<Rightarrow> False | Some t \<Rightarrow> tp_events_computed t = None)"

text \<open>\<open>ORDER BY start_time ASC NULLS LAST, id ASC\<close>.\<close>

definition start_key :: "geo_route \<Rightarrow> nat \<times> gotime \<times> int" where
  "start_key r = (case r_start r of None \<Rightarrow> (1, 0, r_id r) | Some s \<Rightarrow> (0, s, r_id r))"

definition needing_events :: "event_db \<Rightarrow> geo_route list" where
  "needing_events d = sort_key start_key (filter (event_due d) (gd_routes (td_geo (ed_trips d))))"

definition list_routes_needing_events :: "nat \<Rightarrow> event_db \<Rightarrow> geo_route list" where
  "list_routes_needing_events limit d = take limit (needing_events d)"

record sig_world =
  sw_segments :: "int list option"
  sw_stored :: "int \<Rightarrow> string \<Rightarrow> bool"
  sw_opens :: "int \<Rightarrow> string \<Rightarrow> bool"
  sw_stream :: "(int \<times> string) list \<Rightarrow> sig_event list \<times> bool"

definition extract_signals :: "sig_world \<Rightarrow> sig_row list option" where
  "extract_signals w =
     (case sw_segments w of
        None \<Rightarrow> None
      | Some ns \<Rightarrow>
          (case pick_qlogs (sw_stored w) (sw_opens w) ns of
             None \<Rightarrow> None
           | Some [] \<Rightarrow> Some []
           | Some logs \<Rightarrow> (let (events, broken) = sw_stream w logs in
               case extract_driving events of None \<Rightarrow> None | Some rows \<Rightarrow> if broken then None else Some rows)))"

text \<open>The wall clock of an event is the start of the route plus the offset.\<close>

definition wall_clock :: "geo_route \<Rightarrow> detected_event \<Rightarrow> detected_event" where
  "wall_clock r e = e\<lparr>de_occurred := map_option (\<lambda>s. s + dur_seconds (de_offset e)) (r_start r)\<rparr>"

fun insert_events ::
  "(nat \<Rightarrow> bool) \<Rightarrow> nat \<Rightarrow> gotime \<Rightarrow> geo_route \<Rightarrow> detected_event list \<Rightarrow> event_db \<Rightarrow> bool \<times> event_db" where
  "insert_events flt k now r [] d = (True, d)"
| "insert_events flt k now r (e # es) d =
     (if flt k then (False, d)
      else insert_events flt (Suc k) now r es (insert_event now (r_id r) (wall_clock r e) d))"

record event_faults =
  ef_insert :: "nat \<Rightarrow> bool"
  ef_mark :: bool

definition process_events ::
  "event_faults \<Rightarrow> event_thresholds \<Rightarrow> sig_world \<Rightarrow> gotime \<Rightarrow> geo_route \<Rightarrow> event_db \<Rightarrow> bool \<times> event_db" where
  "process_events flt thr w now r d =
     (case extract_signals w of
        None \<Rightarrow> (False, d)
      | Some rows \<Rightarrow>
          (let (ok, d1) = insert_events (ef_insert flt) 0 now r (detect_events rows thr) d in
           if \<not> ok then (False, d1)
           else if ef_mark flt then (False, d1)
           else (True, mark_trip_events (r_id r) now d1)))"

fun event_pass ::
  "(nat \<Rightarrow> bool) \<Rightarrow> nat \<Rightarrow> (geo_route \<Rightarrow> event_faults) \<Rightarrow> event_thresholds \<Rightarrow> (geo_route \<Rightarrow> sig_world) \<Rightarrow> gotime
     \<Rightarrow> geo_route list \<Rightarrow> event_db \<Rightarrow> event_db" where
  "event_pass cancelled k flt thr w now [] d = d"
| "event_pass cancelled k flt thr w now (r # rs) d =
     (if cancelled k then d
      else event_pass cancelled (Suc k) flt thr w now rs (snd (process_events (flt r) thr (w r) now r d)))"

definition event_run_once ::
  "bool \<Rightarrow> (nat \<Rightarrow> bool) \<Rightarrow> int \<Rightarrow> (geo_route \<Rightarrow> event_faults) \<Rightarrow> event_thresholds \<Rightarrow> (geo_route \<Rightarrow> sig_world) \<Rightarrow> gotime
     \<Rightarrow> event_db \<Rightarrow> event_db" where
  "event_run_once list_fails cancelled limit flt thr w now d =
     (if list_fails then d
      else event_pass cancelled 0 flt thr w now
             (list_routes_needing_events (nat (if limit \<le> 0 then 16 else limit)) d) d)"

section \<open>An interrupted run is repaired by the next\<close>

text \<open>A row without its id and the time of its writing.\<close>

definition event_fact :: "event_row \<Rightarrow> int \<times> string \<times> string \<times> real \<times> gotime option \<times> event_payload" where
  "event_fact e = (er_route e, er_type e, er_severity e, er_offset e, er_occurred e, er_payload e)"

definition fact_key :: "int \<times> string \<times> string \<times> real \<times> gotime option \<times> event_payload \<Rightarrow> int \<times> string \<times> real" where
  "fact_key f = (case f of (i, ty, sev, off, rest) \<Rightarrow> (i, ty, off))"

definition fact_of :: "geo_route \<Rightarrow> detected_event \<Rightarrow> int \<times> string \<times> string \<times> real \<times> gotime option \<times> event_payload" where
  "fact_of r e = (r_id r, de_type e, de_severity e, de_offset e, de_occurred (wall_clock r e), de_payload e)"

definition add_fact where
  "add_fact f fs = (if fact_key f \<in> fact_key ` set fs then fs else fs @ [f])"

definition facts :: "event_db \<Rightarrow> (int \<times> string \<times> string \<times> real \<times> gotime option \<times> event_payload) list" where
  "facts d = map event_fact (ed_events d)"

lemma key_of_fact [simp]: "fact_key (event_fact e) = event_key e"
  by (simp add: fact_key_def event_fact_def event_key_def)

lemma keys_of_facts: "fact_key ` set (facts d) = event_key ` set (ed_events d)"
  by (simp add: facts_def image_image)

lemma insert_facts:
  "facts (insert_event now (r_id r) (wall_clock r e) d) = add_fact (fact_of r e) (facts d)
   \<and> ed_trips (insert_event now (r_id r) (wall_clock r e) d) = ed_trips d"
  unfolding add_fact_def keys_of_facts
  by (auto simp: insert_event_def Let_def event_key_def fact_key_def fact_of_def facts_def event_fact_def wall_clock_def)

lemma insert_events_facts:
  "\<exists>n. facts (snd (insert_events flt k now r es d)) = fold add_fact (map (fact_of r) (take n es)) (facts d)
     \<and> ed_trips (snd (insert_events flt k now r es d)) = ed_trips d
     \<and> (fst (insert_events flt k now r es d) \<longrightarrow> take n es = es)"
proof (induction es arbitrary: k d)
  case (Cons e es)
  show ?case
  proof (cases "flt k")
    case True
    then show ?thesis by (intro exI [of _ 0]) simp
  next
    case False
    from Cons [of "Suc k" "insert_event now (r_id r) (wall_clock r e) d"] obtain n where
      "facts (snd (insert_events flt (Suc k) now r es (insert_event now (r_id r) (wall_clock r e) d)))
         = fold add_fact (map (fact_of r) (take n es)) (facts (insert_event now (r_id r) (wall_clock r e) d))"
      "ed_trips (snd (insert_events flt (Suc k) now r es (insert_event now (r_id r) (wall_clock r e) d)))
         = ed_trips (insert_event now (r_id r) (wall_clock r e) d)"
      "fst (insert_events flt (Suc k) now r es (insert_event now (r_id r) (wall_clock r e) d)) \<longrightarrow> take n es = es"
      by blast
    with False show ?thesis by (intro exI [of _ "Suc n"]) (simp add: insert_facts)
  qed
qed simp

lemma insert_events_clean: "(\<And>j. \<not> flt j) \<Longrightarrow> fst (insert_events flt k now r es d)"
  by (induction es arbitrary: k d) simp_all

lemma add_fact_keys: "fact_key ` set (add_fact f fs) = insert (fact_key f) (fact_key ` set fs)"
  by (auto simp: add_fact_def)

lemma fold_fact_keys: "fact_key ` set (fold add_fact gs fs) = fact_key ` set gs \<union> fact_key ` set fs"
  by (induction gs arbitrary: fs) (auto simp: add_fact_keys)

lemma fold_known: "fact_key ` set gs \<subseteq> fact_key ` set fs \<Longrightarrow> fold add_fact gs fs = fs"
  by (induction gs) (auto simp: add_fact_def)

lemma fold_prefix_again: "fold add_fact (xs @ ys) (fold add_fact xs fs) = fold add_fact (xs @ ys) fs"
  by (simp add: fold_known fold_fact_keys)

lemma fold_distinct_keys: "distinct (map fact_key fs) \<Longrightarrow> distinct (map fact_key (fold add_fact gs fs))"
  by (induction gs arbitrary: fs) (auto simp: add_fact_def)

lemma process_facts:
  assumes "extract_signals w = Some rows"
  shows "\<exists>n. facts (snd (process_events flt thr w now r d))
        = fold add_fact (take n (map (fact_of r) (detect_events rows thr))) (facts d)
    \<and> ed_trips (snd (process_events flt thr w now r d))
        = (if fst (process_events flt thr w now r d) then ed_trips (mark_trip_events (r_id r) now d) else ed_trips d)
    \<and> (fst (process_events flt thr w now r d)
        \<longrightarrow> take n (map (fact_of r) (detect_events rows thr)) = map (fact_of r) (detect_events rows thr))"
proof -
  let ?p = "insert_events (ef_insert flt) 0 now r (detect_events rows thr) d"
  obtain n where n: "facts (snd ?p) = fold add_fact (map (fact_of r) (take n (detect_events rows thr))) (facts d)"
    "ed_trips (snd ?p) = ed_trips d" "fst ?p \<longrightarrow> take n (detect_events rows thr) = detect_events rows thr"
    using insert_events_facts by blast
  have m: "facts (mark_trip_events (r_id r) now x) = facts x" for x by (simp add: mark_trip_events_def facts_def)
  show ?thesis
    using n assms(1) by (intro exI [of _ n]) (auto simp: process_events_def take_map m split: prod.split, simp add: mark_trip_events_def)
qed

lemma process_clean:
  assumes "extract_signals w = Some rows" and "\<And>j. \<not> ef_insert flt j" and "\<not> ef_mark flt"
  shows "fst (process_events flt thr w now r d)"
  using insert_events_clean [of "ef_insert flt" 0 now r "detect_events rows thr" d] assms
  by (auto simp: process_events_def split: prod.split)

text \<open>C30: A run over a route that fails at any insert, or at the stamp, is repaired by the next one: if that
  succeeds, the events (up to their ids and the time of writing) and the trips are those of a single undisturbed run, and no
  event is stored twice.\<close>

theorem events_retry:
  assumes "extract_signals w = Some rows" and "distinct (map event_key (ed_events d))"
    and "\<And>j. \<not> ef_insert clean j" and "\<not> ef_mark clean"
  shows "(let d1 = snd (process_events flt thr w now1 r d);
              d2 = process_events clean thr w now r d1; d3 = process_events clean thr w now r d
          in fst d2 \<and> fst d3 \<and> map event_fact (ed_events (snd d2)) = map event_fact (ed_events (snd d3))
             \<and> ed_trips (snd d2) = ed_trips (snd d3) \<and> distinct (map event_key (ed_events (snd d2))))"
proof -
  let ?es = "map (fact_of r) (detect_events rows thr)"
  let ?d1 = "snd (process_events flt thr w now1 r d)"
  obtain n where n: "facts ?d1 = fold add_fact (take n ?es) (facts d)"
    "ed_trips ?d1 = ed_trips d \<or> ed_trips ?d1 = ed_trips (mark_trip_events (r_id r) now1 d)"
    using process_facts [OF assms(1), of flt thr now1 r d] by (metis (full_types))
  have c: "fst (process_events clean thr w now r x) \<and> facts (snd (process_events clean thr w now r x)) = fold add_fact ?es (facts x)
      \<and> ed_trips (snd (process_events clean thr w now r x)) = ed_trips (mark_trip_events (r_id r) now x)" for x
    using process_facts [OF assms(1), of clean thr now r x] process_clean [of w rows clean thr now r x] assms(1,3,4) by auto
  have "fold add_fact ?es (facts ?d1) = fold add_fact ?es (facts d)"
    using fold_prefix_again [of "take n ?es" "drop n ?es" "facts d"] by (simp only: n(1) append_take_drop_id)
  moreover have "ed_trips (mark_trip_events (r_id r) now ?d1) = ed_trips (mark_trip_events (r_id r) now d)"
    using n(2) by (auto simp: mark_trip_events_def)
  moreover have "distinct (map fact_key (fold add_fact ?es (facts d)))"
    using assms(2) by (intro fold_distinct_keys) (simp add: facts_def comp_def)
  moreover have "map event_key (ed_events x) = map fact_key (facts x)" for x by (simp add: facts_def)
  ultimately show ?thesis using c [of ?d1] c [of d] unfolding Let_def facts_def [symmetric] by simp
qed

definition demo_sig_world :: sig_world where
  "demo_sig_world = \<lparr>sw_segments = Some [0], sw_stored = (\<lambda>n q. q = ''qlog''), sw_opens = (\<lambda>n q. True),
     sw_stream = (\<lambda>_. ([SvSelfdrive True ''brake now'' 0, SvSelfdrive True ''take over'' 1000000000], False))\<rparr>"

definition demo_event_db :: event_db where
  "demo_event_db = \<lparr>ed_trips = \<lparr>td_geo = demo_trip_geo, td_trips = [empty_trip 7 demo_trip_route]\<rparr>, ed_events = [], ed_next = 1\<rparr>"

definition no_event_faults :: event_faults where
  "no_event_faults = \<lparr>ef_insert = (\<lambda>_. False), ef_mark = False\<rparr>"

definition second_insert_fails :: event_faults where
  "second_insert_fails = \<lparr>ef_insert = (\<lambda>k. k = 1), ef_mark = False\<rparr>"

definition demo_sig_rows :: "sig_row list" where
  "demo_sig_rows = [demo_sig 0 0 ''brake now'', demo_sig 1000000000 0 ''take over'']"

lemma demo_signals: "extract_signals demo_sig_world = Some demo_sig_rows"
  by (simp add: extract_signals_def demo_sig_world_def qlog_picker_order_def demo_sig_rows_def demo_sig_def to_int64_def)

lemma events_retry_witness:
  "(let d1 = snd (process_events second_insert_fails \<lparr>et_brake = 0, et_min_sec = 0\<rparr> demo_sig_world 10 demo_trip_route demo_event_db);
        d2 = process_events no_event_faults \<lparr>et_brake = 0, et_min_sec = 0\<rparr> demo_sig_world 20 demo_trip_route d1
    in fst d2 \<and> distinct (map event_key (ed_events (snd d2))))"
  using events_retry [OF demo_signals, of demo_event_db no_event_faults second_insert_fails "\<lparr>et_brake = 0, et_min_sec = 0\<rparr>" 10 demo_trip_route 20]
  by (simp add: demo_event_db_def no_event_faults_def Let_def)

section \<open>The queue drains\<close>

lemma trip_route: "trip_of d j = Some t \<Longrightarrow> tp_route t = j"
  by (auto simp: trip_of_def find_Some_iff)

lemma needing_filter:
  assumes "distinct (map r_id (gd_routes (td_geo (ed_trips d))))" and "set rs \<subseteq> set (gd_routes (td_geo (ed_trips d)))"
    and "\<forall>r \<in> set rs. extract_signals (w r) \<noteq> None \<and> (\<forall>j. \<not> ef_insert (flt r) j) \<and> \<not> ef_mark (flt r)"
    and "\<forall>j. \<not> cancelled j"
  shows "needing_events (event_pass cancelled k flt thr w now rs d) = filter (\<lambda>r. r \<notin> set rs) (needing_events d)
    \<and> td_geo (ed_trips (event_pass cancelled k flt thr w now rs d)) = td_geo (ed_trips d)"
  using assms(1-3)
proof (induction rs arbitrary: k d)
  case (Cons r rs)
  let ?d = "snd (process_events (flt r) thr (w r) now r d)"
  obtain rows where w: "extract_signals (w r) = Some rows" using Cons.prems(3) by auto
  have "ed_trips ?d = ed_trips (mark_trip_events (r_id r) now d)"
    using process_facts [OF w, of "flt r" thr now r d] process_clean [OF w, of "flt r" thr now r d] Cons.prems(3) by auto
  then have geo: "td_geo (ed_trips ?d) = td_geo (ed_trips d)"
    and tr: "td_trips (ed_trips ?d) = map (\<lambda>t. if tp_route t = r_id r then t\<lparr>tp_events_computed := Some now\<rparr> else t) (td_trips (ed_trips d))"
    by (simp_all add: mark_trip_events_def)
  have find_map: "find (\<lambda>t. tp_route t = j) (map (\<lambda>t. if tp_route t = i then t\<lparr>tp_events_computed := Some now\<rparr> else t) ts)
      = map_option (\<lambda>t. if tp_route t = i then t\<lparr>tp_events_computed := Some now\<rparr> else t) (find (\<lambda>t. tp_route t = j) ts)" for i j ts
    by (induction ts) auto
  have trip: "trip_of (ed_trips ?d) j
      = map_option (\<lambda>t. if tp_route t = r_id r then t\<lparr>tp_events_computed := Some now\<rparr> else t) (trip_of (ed_trips d) j)" for j
    by (simp add: trip_of_def tr find_map)
  have due: "event_due ?d q \<longleftrightarrow> event_due d q \<and> q \<noteq> r" if q: "q \<in> set (gd_routes (td_geo (ed_trips d)))" for q
  proof -
    have eq: "q = r \<longleftrightarrow> r_id q = r_id r" using q Cons.prems(1,2) by (auto simp: distinct_map dest: inj_onD)
    show ?thesis
    proof (cases "trip_of (ed_trips d) (r_id q)")
      case None
      then show ?thesis by (simp add: event_due_def trip)
    next
      case (Some t)
      then have "tp_route t = r_id q" by (simp add: trip_route)
      then show ?thesis by (simp add: event_due_def trip Some eq)
    qed
  qed
  have step: "needing_events ?d = filter (\<lambda>q. q \<noteq> r) (needing_events d)"
    by (simp add: needing_events_def geo filter_sort due cong: filter_cong)
  have "needing_events (event_pass cancelled (Suc k) flt thr w now rs ?d) = filter (\<lambda>r. r \<notin> set rs) (needing_events ?d)
    \<and> td_geo (ed_trips (event_pass cancelled (Suc k) flt thr w now rs ?d)) = td_geo (ed_trips ?d)"
    using Cons.prems by (intro Cons.IH) (auto simp: geo)
  moreover have "\<not> cancelled k" using assms(4) by blast
  ultimately show ?case by (simp add: step geo conj_commute)
qed simp

text \<open>C34: A pass in which no log, insert or stamp fails takes exactly its batch off the queue, whatever the events are,
  and leaves the other routes waiting in their order.\<close>

theorem events_queue_drains:
  assumes "distinct (map r_id (gd_routes (td_geo (ed_trips d))))" and "\<forall>j. \<not> cancelled j" and "0 < limit"
    and "\<forall>r \<in> set (list_routes_needing_events (nat limit) d).
           extract_signals (w r) \<noteq> None \<and> (\<forall>j. \<not> ef_insert (flt r) j) \<and> \<not> ef_mark (flt r)"
  shows "needing_events (event_run_once False cancelled limit flt thr w now d) = drop (nat limit) (needing_events d)"
proof -
  let ?q = "needing_events d" and ?n = "nat limit"
  have "distinct (gd_routes (td_geo (ed_trips d)))" using assms(1) by (simp add: distinct_map)
  then have "distinct (take ?n ?q @ drop ?n ?q)" by (simp add: needing_events_def)
  then have "\<forall>r \<in> set (drop ?n ?q). r \<notin> set (take ?n ?q)" by (auto simp only: distinct_append)
  then have "filter (\<lambda>r. r \<notin> set (take ?n ?q)) (take ?n ?q @ drop ?n ?q) = drop ?n ?q"
    by (simp only: filter_append) (simp add: filter_id_conv filter_empty_conv)
  then have "filter (\<lambda>r. r \<notin> set (take ?n ?q)) ?q = drop ?n ?q" by (simp only: append_take_drop_id)
  moreover have "set (take ?n ?q) \<subseteq> set (gd_routes (td_geo (ed_trips d)))"
    using set_take_subset [of ?n ?q] by (auto simp: needing_events_def)
  ultimately show ?thesis
    using needing_filter [OF assms(1) _ assms(4) [unfolded list_routes_needing_events_def] assms(2)] assms(3)
    by (simp add: event_run_once_def list_routes_needing_events_def)
qed

lemma demo_needing: "needing_events demo_event_db = [demo_trip_route]"
  by (simp add: needing_events_def demo_event_db_def demo_trip_geo_def event_due_def trip_of_def empty_trip_def)

lemma events_queue_drains_witness:
  "needing_events (event_run_once False (\<lambda>_. False) 1 (\<lambda>_. no_event_faults) \<lparr>et_brake = 0, et_min_sec = 0\<rparr> (\<lambda>_. demo_sig_world) 20
     demo_event_db) = []"
  by (subst events_queue_drains)
    (simp_all add: list_routes_needing_events_def demo_needing demo_signals no_event_faults_def,
     simp add: demo_event_db_def demo_trip_geo_def)

text \<open>But a route whose logs cannot be read stays, and a batch of such routes holds up every later one.\<close>

lemma event_queue_starves:
  assumes "0 < limit" and "\<forall>r \<in> set (list_routes_needing_events (nat limit) d). extract_signals (w r) = None"
  shows "event_run_once False cancelled limit flt thr w now d = d"
proof -
  have "event_pass cancelled k flt thr w now rs d = d" if "\<forall>r \<in> set rs. extract_signals (w r) = None" for rs k
    using that by (induction rs arbitrary: k) (simp_all add: process_events_def)
  then show ?thesis using assms by (simp add: event_run_once_def)
qed

end
